theory Spec2Isabelle
  imports Main "HOL-Library.Sublist"
begin

section \<open>Values exchanged by the batch processor\<close>

text \<open>
  The batch processor of \<^verbatim>\<open>backend/batch_processor.py\<close> moves Python dictionaries between
  four collaborators: the Proxmox client, the analyzer, the SQLite database and the file
  system. A dictionary with a fixed set of keys is a record here; a value that the program
  only passes on and serialises (a guest configuration, the cluster status) is a \<open>json\<close>
  value. An exception is represented by the text \<open>str(e)\<close> that the program logs and
  stores. Only exceptions derived from Python's \<open>Exception\<close> are modelled: a cancellation
  or an interpreter exit is not caught by any handler of the program and ends the run
  abruptly.
\<close>

datatype json =
    JNull
  | JBool bool
  | JInt int
  | JStr string
  | JList "json list"
  | JDict "(string \<times> json) list"

type_synonym exn = string

type_synonym path = "string list"

text \<open>The dictionary built by \<^verbatim>\<open>ProxmoxClient.get_all_vms\<close> and \<^verbatim>\<open>get_all_lxcs\<close>.\<close>

record vm_data =
  node :: string
  vm_id :: string
  vm_name :: string
  vm_type :: string
  vm_status :: string
  config :: json

text \<open>
  The dictionary returned by \<^verbatim>\<open>ClaudeAnalyzer.analyze_complete\<close>: each key is present or
  absent.
\<close>

record analysis_results =
  res_analysis :: "string option"
  res_security_review :: "string option"
  res_optimization_recommendations :: "string option"
  res_terraform_template :: "string option"
  res_ansible_playbook :: "string option"

text \<open>
  The merged dictionary \<^verbatim>\<open>{**vm_data, **analysis_results}\<close>. The key \<^verbatim>\<open>error\<close> is set
  only by the handler of \<^verbatim>\<open>process_single_vm\<close>; an absent key is \<open>False\<close>.
\<close>

record result = vm_data +
  analysis :: "string option"
  security_review :: "string option"
  optimization_recommendations :: "string option"
  terraform_template :: "string option"
  ansible_playbook :: "string option"
  error :: bool

text \<open>
  The dictionary returned by \<^verbatim>\<open>ProxmoxClient.get_cluster_info\<close>: either the three keys
  \<^verbatim>\<open>status\<close>, \<^verbatim>\<open>resources\<close> and \<^verbatim>\<open>nodes\<close>, or the empty dictionary (\<open>None\<close>).
\<close>

record cluster =
  cluster_status :: json
  cluster_resources :: json
  cluster_nodes :: "string list"

type_synonym cluster_info = "cluster option"

text \<open>Python's truth test \<^verbatim>\<open>if result.get(key):\<close> on an optional text.\<close>

fun truthy :: "string option \<Rightarrow> bool" where
  "truthy None = False"
| "truthy (Some s) = (s \<noteq> [])"

text \<open>\<^verbatim>\<open>str\<close> of a non-negative and of an arbitrary integer.\<close>

definition digit_char :: "nat \<Rightarrow> char" where
  "digit_char d = ''0123456789'' ! d"

function str_nat :: "nat \<Rightarrow> string" where
  "str_nat n = (if n < 10 then [digit_char n] else str_nat (n div 10) @ [digit_char (n mod 10)])"
  by pat_completeness auto
termination
  by (relation "measure id") auto

declare str_nat.simps [simp del]

definition str_int :: "int \<Rightarrow> string" where
  "str_int i = (if i < 0 then CHR ''-'' # str_nat (nat (- i)) else str_nat (nat i))"

text \<open>\<^verbatim>\<open>name.replace(' ', '_').replace('/', '_')\<close>.\<close>

definition replace_char :: "char \<Rightarrow> char \<Rightarrow> string \<Rightarrow> string" where
  "replace_char old new s = map (\<lambda>c. if c = old then new else c) s"

definition sanitize :: "string \<Rightarrow> string" where
  "sanitize name = replace_char CHR ''/'' CHR ''_'' (replace_char CHR '' '' CHR ''_'' name)"

definition text_of_lines :: "string list \<Rightarrow> string" where
  "text_of_lines ls = concat (map (\<lambda>l. l @ ''\<newline>'') ls)"

section \<open>The world: database, file system and call history\<close>

datatype job_status = Running | Completed | Failed

text \<open>A row of table \<^verbatim>\<open>batch_jobs\<close>; time stamps are logical (the length of the history).\<close>

record batch_job =
  started_at :: nat
  completed_at :: "nat option"
  status :: job_status
  total_vms :: nat
  processed_vms :: nat
  error_message :: "string option"

record vm_analysis_row =
  col_batch_job_id :: nat
  col_vm_id :: string
  col_vm_name :: string
  col_vm_type :: string
  col_node :: string
  col_config :: string
  col_analysis :: "string option"
  col_security_review :: "string option"
  col_optimization_recommendations :: "string option"
  col_terraform_template :: "string option"
  col_ansible_playbook :: "string option"
  col_analyzed_at :: nat

record report_row =
  rep_batch_job_id :: nat
  rep_report_type :: string
  rep_content :: string
  rep_created_at :: nat

text \<open>
  The three tables of \<^verbatim>\<open>database.py\<close>. \<open>job_seq\<close> is the AUTOINCREMENT counter of
  \<^verbatim>\<open>batch_jobs\<close>; the other two tables are only appended to, so their row ids are the
  positions in the list.
\<close>

record database =
  batch_jobs :: "nat \<rightharpoonup> batch_job"
  job_seq :: nat
  vm_analysis :: "vm_analysis_row list"
  infrastructure_reports :: "report_row list"

record filesystem =
  files :: "path \<rightharpoonup> string"
  dirs :: "path set"

datatype fs_op = Mkdir path | WriteText path string

text \<open>
  Every call that the batch processor makes on a collaborator is recorded, in the order in
  which it is issued. The history is what an external service may base its answer on.
\<close>

datatype event =
    GetClusterInfo
  | GetAllResources
  | CreateBatchJob nat
  | FsCall fs_op
  | AnalyzeComplete vm_data
  | SaveVmAnalysis nat result
  | UpdateBatchJob nat nat job_status "string option"
  | GenerateSummary "result list"
  | SaveReport nat string string

type_synonym history = "event list"

record world =
  db :: database
  fs :: filesystem
  trace :: history

section \<open>Collaborators\<close>

text \<open>
  \<^verbatim>\<open>BatchProcessor.__init__\<close> receives its Proxmox client and its analyzer as arguments, so
  they are parameters of the model: a record of the methods that the batch processor
  calls. Each method answers from the history and its arguments, with \<open>Inl\<close> for a raised
  exception. The classes \<^verbatim>\<open>ProxmoxClient\<close> and \<^verbatim>\<open>ClaudeAnalyzer\<close> of the repository are
  instances, defined further down.
\<close>

record proxmox_client =
  get_cluster_info :: "history \<Rightarrow> exn + cluster_info"
  get_all_resources :: "history \<Rightarrow> exn + vm_data list"

record claude_analyzer =
  analyze_complete ::
    "history \<Rightarrow> vm_data \<Rightarrow> cluster_info \<Rightarrow> bool \<Rightarrow> bool \<Rightarrow> bool \<Rightarrow> bool
       \<Rightarrow> exn + analysis_results"
  generate_infrastructure_summary :: "history \<Rightarrow> result list \<Rightarrow> cluster_info \<Rightarrow> exn + string"

text \<open>
  What the program uses of its platform: SQLite and the operating system may refuse a call
  (\<open>Some e\<close>), and \<^verbatim>\<open>json.dumps\<close> (with its \<^verbatim>\<open>indent\<close> argument) is the standard
  library's serialiser.
\<close>

record platform =
  sqlite_fault :: "history \<Rightarrow> event \<Rightarrow> exn option"
  os_fault :: "history \<Rightarrow> event \<Rightarrow> exn option"
  json_dumps :: "nat option \<Rightarrow> json \<Rightarrow> string"

text \<open>The fields of \<^verbatim>\<open>config.Settings\<close> that the batch processor reads.\<close>

record settings =
  output_dir :: path
  batch_size :: int
  enable_terraform :: bool
  enable_ansible :: bool
  enable_security_review :: bool
  enable_optimization :: bool

record batch_processor =
  proxmox :: proxmox_client
  claude :: claude_analyzer
  platform :: platform
  settings :: settings

section \<open>File system calls\<close>

text \<open>
  \<^verbatim>\<open>Path.mkdir(exist_ok=True)\<close>: an existing directory is accepted, an existing file is
  not, and the parent must be a directory (\<^verbatim>\<open>parents\<close> is left at \<^verbatim>\<open>False\<close>). The
  text of the exception stands for any \<^verbatim>\<open>OSError\<close> of the operating system.
\<close>

definition mkdir_exist_ok :: "path \<Rightarrow> filesystem \<Rightarrow> exn + filesystem" where
  "mkdir_exist_ok p s =
     (if p \<in> dirs s then Inr s
      else if p \<in> dom (files s) then Inl ''FileExistsError''
      else if butlast p \<notin> dirs s then Inl ''FileNotFoundError''
      else Inr (s\<lparr>dirs := insert p (dirs s)\<rparr>))"

text \<open>\<^verbatim>\<open>Path.write_text(text)\<close>: creates the file or replaces its content.\<close>

definition write_text :: "path \<Rightarrow> string \<Rightarrow> filesystem \<Rightarrow> exn + filesystem" where
  "write_text p t s =
     (if p \<in> dirs s then Inl ''IsADirectoryError''
      else if butlast p \<notin> dirs s then Inl ''FileNotFoundError''
      else Inr (s\<lparr>files := (files s)(p \<mapsto> t)\<rparr>))"

fun fs_apply :: "fs_op \<Rightarrow> filesystem \<Rightarrow> exn + filesystem" where
  "fs_apply (Mkdir p) s = mkdir_exist_ok p s"
| "fs_apply (WriteText p t) s = write_text p t s"

text \<open>
  One call on the file system: it is recorded, the operating system may refuse it, and
  otherwise it has its effect or raises for the state of the file system.
\<close>

definition os_call :: "platform \<Rightarrow> fs_op \<Rightarrow> world \<Rightarrow> (exn + unit) \<times> world" where
  "os_call pf c w =
     (let w1 = w\<lparr>trace := trace w @ [FsCall c]\<rparr> in
      case os_fault pf (trace w) (FsCall c) of
        Some e \<Rightarrow> (Inl e, w1)
      | None \<Rightarrow>
          (case fs_apply c (fs w) of
             Inl e \<Rightarrow> (Inl e, w1)
           | Inr s \<Rightarrow> (Inr (), w1\<lparr>fs := s\<rparr>)))"

text \<open>A sequence of calls stops at the first one that raises.\<close>

fun os_calls :: "platform \<Rightarrow> fs_op list \<Rightarrow> world \<Rightarrow> (exn + unit) \<times> world" where
  "os_calls pf [] w = (Inr (), w)"
| "os_calls pf (c # cs) w =
     (case os_call pf c w of
        (Inl e, w1) \<Rightarrow> (Inl e, w1)
      | (Inr u, w1) \<Rightarrow> os_calls pf cs w1)"

section \<open>Writing the artifacts\<close>

text \<open>
  Neither \<^verbatim>\<open>save_individual_outputs\<close> nor \<^verbatim>\<open>generate_consolidated_outputs\<close> reads
  anything back from disk: which calls they issue depends on their arguments and the
  settings alone. Each is given as the list of its file system calls in program order,
  executed by \<open>os_calls\<close>.
\<close>

definition write_if :: "path \<Rightarrow> string option \<Rightarrow> fs_op list" where
  "write_if p t = (if truthy t then [WriteText p (the t)] else [])"

definition vm_dir_name :: "result \<Rightarrow> string" where
  "vm_dir_name r = vm_type r @ ''_'' @ sanitize (vm_name r) @ ''_'' @ vm_id r"

definition individual_output_calls :: "platform \<Rightarrow> path \<Rightarrow> result \<Rightarrow> fs_op list" where
  "individual_output_calls pf out r =
     (let vm_dir = out @ [vm_dir_name r] in
      [Mkdir vm_dir]
      @ write_if (vm_dir @ [''analysis.md'']) (analysis r)
      @ write_if (vm_dir @ [''security_review.md'']) (security_review r)
      @ write_if (vm_dir @ [''optimization_recommendations.md'']) (optimization_recommendations r)
      @ write_if (vm_dir @ [''main.tf'']) (terraform_template r)
      @ write_if (vm_dir @ [''playbook.yml'']) (ansible_playbook r)
      @ [WriteText (vm_dir @ [''config.json'']) (json_dumps pf (Some 2) (config r))])"

definition save_individual_outputs_calls ::
    "batch_processor \<Rightarrow> nat \<Rightarrow> result list \<Rightarrow> path \<Rightarrow> fs_op list" where
  "save_individual_outputs_calls self job_id results out =
     concat (map (individual_output_calls (platform self) out) results)"

definition save_individual_outputs ::
    "batch_processor \<Rightarrow> nat \<Rightarrow> result list \<Rightarrow> path \<Rightarrow> world \<Rightarrow> (exn + unit) \<times> world" where
  "save_individual_outputs self job_id results out =
     os_calls (platform self) (save_individual_outputs_calls self job_id results out)"

subsection \<open>Consolidated Terraform files\<close>

definition main_tf_preamble :: string where
  \<open>main_tf_preamble =
     ''# Proxmox Infrastructure - Generated by Proxmox Batch Processor\<newline>\<newline>''
     @ text_of_lines
        [''terraform {'',
         ''  required_providers {'',
         ''    proxmox = {'',
         ''      source  = "Telmate/proxmox"'',
         ''      version = "~> 2.9"'',
         ''    }'',
         ''  }'',
         ''}'',
         '''',
         ''provider "proxmox" {'',
         ''  pm_api_url      = var.proxmox_api_url'',
         ''  pm_api_token_id = var.proxmox_api_token_id'',
         ''  pm_api_token_secret = var.proxmox_api_token_secret'',
         ''  pm_tls_insecure = true'',
         ''}'',
         '''']\<close>

text \<open>The header line and the body that one loop iteration appends to \<^verbatim>\<open>main.tf\<close>.\<close>

definition terraform_section :: "result \<Rightarrow> string" where
  "terraform_section r =
     (''\<newline># '' @ vm_name r @ '' ('' @ vm_id r @ '')\<newline>'')
     @ (the (terraform_template r) @ ''\<newline>\<newline>'')"

definition main_tf_step :: "string \<Rightarrow> result \<Rightarrow> string" where
  "main_tf_step content r =
     (if truthy (terraform_template r) then content @ terraform_section r else content)"

definition main_tf_content :: "result list \<Rightarrow> string" where
  "main_tf_content results = foldl main_tf_step main_tf_preamble results"

definition variables_tf :: string where
  \<open>variables_tf = text_of_lines
     [''variable "proxmox_api_url" {'',
      ''  description = "Proxmox API URL"'',
      ''  type        = string'',
      ''}'',
      '''',
      ''variable "proxmox_api_token_id" {'',
      ''  description = "Proxmox API Token ID"'',
      ''  type        = string'',
      ''}'',
      '''',
      ''variable "proxmox_api_token_secret" {'',
      ''  description = "Proxmox API Token Secret"'',
      ''  type        = string'',
      ''  sensitive   = true'',
      ''}'']\<close>

definition terraform_readme :: string where
  \<open>terraform_readme = text_of_lines
     [''# Proxmox Infrastructure - Terraform'',
      '''',
      ''This directory contains generated Terraform configurations for your Proxmox infrastructure.'',
      '''',
      ''## Usage'',
      '''',
      ''1. Initialize Terraform:'',
      ''   ```bash'',
      ''   terraform init'',
      ''   ```'',
      '''',
      ''2. Review the plan:'',
      ''   ```bash'',
      ''   terraform plan'',
      ''   ```'',
      '''',
      ''3. Apply (when ready):'',
      ''   ```bash'',
      ''   terraform apply'',
      ''   ```'',
      '''',
      ''## Configuration'',
      '''',
      ''Set the following variables in `terraform.tfvars` or via environment variables:'',
      ''- `proxmox_api_url`'',
      ''- `proxmox_api_token_id`'',
      ''- `proxmox_api_token_secret`'']\<close>

definition terraform_calls :: "result list \<Rightarrow> path \<Rightarrow> fs_op list" where
  "terraform_calls results out =
     (let terraform_dir = out @ [''terraform''] in
      [Mkdir terraform_dir,
       WriteText (terraform_dir @ [''main.tf'']) (main_tf_content results),
       WriteText (terraform_dir @ [''variables.tf'']) variables_tf,
       WriteText (terraform_dir @ [''README.md'']) terraform_readme])"

subsection \<open>Consolidated Ansible files\<close>

definition site_yml_preamble :: string where
  \<open>site_yml_preamble = text_of_lines
     [''---'',
      ''# Proxmox Infrastructure - Generated by Proxmox Batch Processor'',
      ''- name: Provision Proxmox Infrastructure'',
      ''  hosts: localhost'',
      ''  gather_facts: false'',
      ''  tasks:'',
      '''']\<close>

text \<open>
  What one loop iteration appends to \<^verbatim>\<open>site.yml\<close>: the header line and a fixed comment.
  The text of the playbook itself is not appended.
\<close>

definition site_yml_section :: "result \<Rightarrow> string" where
  "site_yml_section r =
     (''    # '' @ vm_name r @ '' ('' @ vm_id r @ '')\<newline>'')
     @ ''    # See individual playbooks for details\<newline>\<newline>''"

definition site_yml_step :: "string \<Rightarrow> result \<Rightarrow> string" where
  "site_yml_step content r =
     (if truthy (ansible_playbook r) then content @ site_yml_section r else content)"

definition site_yml_content :: "result list \<Rightarrow> string" where
  "site_yml_content results = foldl site_yml_step site_yml_preamble results"

definition playbook_calls :: "path \<Rightarrow> result \<Rightarrow> fs_op list" where
  "playbook_calls playbooks_dir r =
     (if truthy (ansible_playbook r)
      then [WriteText (playbooks_dir @ [sanitize (vm_name r) @ ''_'' @ vm_id r @ ''.yml''])
              (the (ansible_playbook r))]
      else [])"

definition ansible_readme :: string where
  \<open>ansible_readme = text_of_lines
     [''# Proxmox Infrastructure - Ansible'',
      '''',
      ''This directory contains generated Ansible playbooks for your Proxmox infrastructure.'',
      '''',
      ''## Usage'',
      '''',
      ''1. Install required collections:'',
      ''   ```bash'',
      ''   ansible-galaxy collection install community.general'',
      ''   ```'',
      '''',
      ''2. Configure inventory and variables in `inventory/hosts.yml`'',
      '''',
      ''3. Run playbooks:'',
      ''   ```bash'',
      ''   ansible-playbook -i inventory/hosts.yml playbooks/<specific-playbook>.yml'',
      ''   ```'',
      '''',
      ''## Organization'',
      '''',
      ''- `playbooks/`: Individual playbooks for each VM/LXC'',
      ''- `site.yml`: Main playbook (customize as needed)'']\<close>

definition ansible_calls :: "result list \<Rightarrow> path \<Rightarrow> fs_op list" where
  "ansible_calls results out =
     (let ansible_dir = out @ [''ansible''];
          playbooks_dir = ansible_dir @ [''playbooks''] in
      [Mkdir ansible_dir,
       WriteText (ansible_dir @ [''site.yml'']) (site_yml_content results),
       Mkdir playbooks_dir]
      @ concat (map (playbook_calls playbooks_dir) results)
      @ [WriteText (ansible_dir @ [''README.md'']) ansible_readme])"

definition generate_consolidated_outputs_calls ::
    "batch_processor \<Rightarrow> nat \<Rightarrow> result list \<Rightarrow> path \<Rightarrow> fs_op list" where
  "generate_consolidated_outputs_calls self job_id results out =
     (if enable_terraform (settings self) then terraform_calls results out else [])
     @ (if enable_ansible (settings self) then ansible_calls results out else [])"

definition generate_consolidated_outputs ::
    "batch_processor \<Rightarrow> nat \<Rightarrow> result list \<Rightarrow> path \<Rightarrow> world \<Rightarrow> (exn + unit) \<times> world" where
  "generate_consolidated_outputs self job_id results out =
     os_calls (platform self) (generate_consolidated_outputs_calls self job_id results out)"

section \<open>The database\<close>

text \<open>
  Each method of \<^verbatim>\<open>database.Database\<close> opens a connection, executes one statement and
  commits. The call is recorded; SQLite may refuse it, and then nothing is written.
\<close>

definition and_then ::
    "(world \<Rightarrow> (exn + 'a) \<times> world) \<Rightarrow> ('a \<Rightarrow> world \<Rightarrow> (exn + 'b) \<times> world)
       \<Rightarrow> world \<Rightarrow> (exn + 'b) \<times> world" where
  "and_then m f w = (case m w of (Inl e, w1) \<Rightarrow> (Inl e, w1) | (Inr x, w1) \<Rightarrow> f x w1)"

definition sqlite_call ::
    "platform \<Rightarrow> event \<Rightarrow> (world \<Rightarrow> 'a \<times> database) \<Rightarrow> world \<Rightarrow> (exn + 'a) \<times> world" where
  "sqlite_call pf ev stmt w =
     (let w1 = w\<lparr>trace := trace w @ [ev]\<rparr> in
      case sqlite_fault pf (trace w) ev of
        Some e \<Rightarrow> (Inl e, w1)
      | None \<Rightarrow> (case stmt w of (x, d) \<Rightarrow> (Inr x, w1\<lparr>db := d\<rparr>)))"

definition create_batch_job :: "platform \<Rightarrow> nat \<Rightarrow> world \<Rightarrow> (exn + nat) \<times> world" where
  "create_batch_job pf n_total =
     sqlite_call pf (CreateBatchJob n_total)
       (\<lambda>w. let lastrowid = Suc (job_seq (db w));
                 row = \<lparr>started_at = length (trace w), completed_at = None, status = Running,
                        total_vms = n_total, processed_vms = 0, error_message = None\<rparr>
             in (lastrowid,
                 (db w)\<lparr>batch_jobs := (batch_jobs (db w))(lastrowid \<mapsto> row),
                         job_seq := lastrowid\<rparr>))"

text \<open>The two \<^verbatim>\<open>UPDATE\<close> statements of \<^verbatim>\<open>update_batch_job\<close>, applied to the row if it exists.\<close>

definition update_row ::
    "nat \<Rightarrow> job_status \<Rightarrow> string option \<Rightarrow> nat \<Rightarrow> batch_job \<Rightarrow> batch_job" where
  "update_row processed st err now row =
     (if st = Completed
      then row\<lparr>processed_vms := processed, status := st, completed_at := Some now\<rparr>
      else row\<lparr>processed_vms := processed, status := st, error_message := err\<rparr>)"

definition update_batch_job ::
    "platform \<Rightarrow> nat \<Rightarrow> nat \<Rightarrow> job_status \<Rightarrow> string option \<Rightarrow> world \<Rightarrow> (exn + unit) \<times> world" where
  "update_batch_job pf job_id processed st err =
     sqlite_call pf (UpdateBatchJob job_id processed st err)
       (\<lambda>w. ((),
          (case batch_jobs (db w) job_id of
             None \<Rightarrow> db w
           | Some row \<Rightarrow>
               (db w)\<lparr>batch_jobs :=
                  (batch_jobs (db w))(job_id \<mapsto> update_row processed st err (length (trace w)) row)\<rparr>)))"

definition analysis_row :: "platform \<Rightarrow> nat \<Rightarrow> result \<Rightarrow> nat \<Rightarrow> vm_analysis_row" where
  "analysis_row pf batch_job_id r now =
     \<lparr>col_batch_job_id = batch_job_id,
      col_vm_id = vm_id r,
      col_vm_name = vm_name r,
      col_vm_type = vm_type r,
      col_node = node r,
      col_config = json_dumps pf None (config r),
      col_analysis = analysis r,
      col_security_review = security_review r,
      col_optimization_recommendations = optimization_recommendations r,
      col_terraform_template = terraform_template r,
      col_ansible_playbook = ansible_playbook r,
      col_analyzed_at = now\<rparr>"

definition save_vm_analysis :: "platform \<Rightarrow> nat \<Rightarrow> result \<Rightarrow> world \<Rightarrow> (exn + unit) \<times> world" where
  "save_vm_analysis pf batch_job_id r =
     sqlite_call pf (SaveVmAnalysis batch_job_id r)
       (\<lambda>w. ((), (db w)\<lparr>vm_analysis :=
                     vm_analysis (db w) @ [analysis_row pf batch_job_id r (length (trace w))]\<rparr>))"

definition save_infrastructure_report ::
    "platform \<Rightarrow> nat \<Rightarrow> string \<Rightarrow> string \<Rightarrow> world \<Rightarrow> (exn + unit) \<times> world" where
  "save_infrastructure_report pf batch_job_id report_type content =
     sqlite_call pf (SaveReport batch_job_id report_type content)
       (\<lambda>w. ((), (db w)\<lparr>infrastructure_reports :=
                     infrastructure_reports (db w)
                     @ [\<lparr>rep_batch_job_id = batch_job_id, rep_report_type = report_type,
                         rep_content = content, rep_created_at = length (trace w)\<rparr>]\<rparr>))"

section \<open>The batch processor\<close>

subsection \<open>One resource\<close>

text \<open>\<^verbatim>\<open>{**vm_data, **analysis_results}\<close> and the dictionary built by the handler.\<close>

definition merge_results :: "vm_data \<Rightarrow> analysis_results \<Rightarrow> result" where
  "merge_results vm a =
     vm_data.extend vm
       \<lparr>analysis = res_analysis a,
        security_review = res_security_review a,
        optimization_recommendations = res_optimization_recommendations a,
        terraform_template = res_terraform_template a,
        ansible_playbook = res_ansible_playbook a,
        error = False\<rparr>"

definition error_result :: "vm_data \<Rightarrow> exn \<Rightarrow> result" where
  "error_result vm e =
     vm_data.extend vm
       \<lparr>analysis = Some (''Error: '' @ e),
        security_review = None,
        optimization_recommendations = None,
        terraform_template = None,
        ansible_playbook = None,
        error = True\<rparr>"

text \<open>
  \<^verbatim>\<open>process_single_vm\<close>: the whole call of the analyzer is inside \<^verbatim>\<open>try\<close>, and the handler
  returns a dictionary.
\<close>

definition process_single_vm ::
    "batch_processor \<Rightarrow> vm_data \<Rightarrow> cluster_info \<Rightarrow> world \<Rightarrow> (exn + result) \<times> world" where
  "process_single_vm self vm cluster_context w =
     (let w1 = w\<lparr>trace := trace w @ [AnalyzeComplete vm]\<rparr> in
      case analyze_complete (claude self) (trace w) vm cluster_context
             (enable_security_review (settings self))
             (enable_optimization (settings self))
             (enable_terraform (settings self))
             (enable_ansible (settings self)) of
        Inr analysis_results \<Rightarrow> (Inr (merge_results vm analysis_results), w1)
      | Inl e \<Rightarrow> (Inr (error_result vm e), w1))"

subsection \<open>One group\<close>

text \<open>
  \<^verbatim>\<open>asyncio.gather(*tasks, return_exceptions=True)\<close>: the outcome of every task, in the
  order in which the tasks were passed, an exception taking the place of the value of a
  task that raised. The tasks are started in that order; the model runs each to its end
  before the next, which is the schedule of a task that never suspends (the analyzer of the
  repository calls its client synchronously).
\<close>

fun gather :: "(world \<Rightarrow> (exn + 'a) \<times> world) list \<Rightarrow> world \<Rightarrow> (exn + 'a) list \<times> world" where
  "gather [] w = ([], w)"
| "gather (t # ts) w =
     (case t w of (r, w1) \<Rightarrow> (case gather ts w1 of (rs, w2) \<Rightarrow> (r # rs, w2)))"

text \<open>The loop of \<^verbatim>\<open>process_batch\<close> that keeps the values and drops the exceptions.\<close>

definition keep_result :: "'a list \<Rightarrow> exn + 'a \<Rightarrow> 'a list" where
  "keep_result processed_results r =
     (case r of Inl e \<Rightarrow> processed_results | Inr x \<Rightarrow> processed_results @ [x])"

definition process_batch ::
    "batch_processor \<Rightarrow> vm_data list \<Rightarrow> cluster_info \<Rightarrow> world \<Rightarrow> (exn + result list) \<times> world" where
  "process_batch self vms cluster_context w =
     (case gather (map (\<lambda>vm. process_single_vm self vm cluster_context) vms) w of
        (results, w1) \<Rightarrow> (Inr (foldl keep_result [] results), w1))"

subsection \<open>The whole run\<close>

text \<open>
  \<^verbatim>\<open>range(0, n, step)\<close>: a zero step raises \<^verbatim>\<open>ValueError\<close>, a negative one gives no
  index, a positive one the multiples of the step below \<open>n\<close>.
\<close>

definition py_range :: "nat \<Rightarrow> int \<Rightarrow> exn + nat list" where
  "py_range n step =
     (if step = 0 then Inl ''range() arg 3 must not be zero''
      else if step < 0 then Inr []
      else Inr (map (\<lambda>k. k * nat step) [0 ..< (n + nat step - 1) div nat step]))"

text \<open>\<^verbatim>\<open>for result in batch_results: await self.db.save_vm_analysis(job_id, result)\<close>.\<close>

fun save_batch_results ::
    "platform \<Rightarrow> nat \<Rightarrow> result list \<Rightarrow> world \<Rightarrow> (exn + unit) \<times> world" where
  "save_batch_results pf job_id [] w = (Inr (), w)"
| "save_batch_results pf job_id (r # rs) w =
     (case save_vm_analysis pf job_id r w of
        (Inl e, w1) \<Rightarrow> (Inl e, w1)
      | (Inr u, w1) \<Rightarrow> save_batch_results pf job_id rs w1)"

text \<open>
  The loop over the groups. The handler of \<^verbatim>\<open>run_full_analysis\<close> reads
  \<^verbatim>\<open>processed_count\<close>, so the loop returns its variables together with the exception that
  ended it, if any. The slice \<^verbatim>\<open>all_resources[i:i + batch_size]\<close> is \<open>take\<close> after \<open>drop\<close>.
\<close>

fun process_groups ::
    "batch_processor \<Rightarrow> nat \<Rightarrow> vm_data list \<Rightarrow> cluster_info \<Rightarrow> nat \<Rightarrow> nat list
       \<Rightarrow> result list \<Rightarrow> nat \<Rightarrow> world \<Rightarrow> (exn option \<times> result list \<times> nat) \<times> world" where
  "process_groups self job_id all_resources cluster_info b [] all_results processed_count w =
     ((None, all_results, processed_count), w)"
| "process_groups self job_id all_resources cluster_info b (i # is) all_results processed_count w =
     (let batch = take b (drop i all_resources) in
      case process_batch self batch cluster_info w of
        (Inl e, w1) \<Rightarrow> ((Some e, all_results, processed_count), w1)
      | (Inr batch_results, w1) \<Rightarrow>
          (case save_batch_results (platform self) job_id batch_results w1 of
             (Inl e, w2) \<Rightarrow> ((Some e, all_results @ batch_results, processed_count), w2)
           | (Inr u, w2) \<Rightarrow>
               (case update_batch_job (platform self) job_id
                       (processed_count + length batch_results) Running None w2 of
                  (Inl e, w3) \<Rightarrow>
                    ((Some e, all_results @ batch_results,
                      processed_count + length batch_results), w3)
                | (Inr u, w3) \<Rightarrow>
                    process_groups self job_id all_resources cluster_info b is
                      (all_results @ batch_results)
                      (processed_count + length batch_results) w3)))"

text \<open>The call of the analyzer for the summary.\<close>

definition summary_call ::
    "batch_processor \<Rightarrow> result list \<Rightarrow> cluster_info \<Rightarrow> world \<Rightarrow> (exn + string) \<times> world" where
  "summary_call self all_results cluster_info w =
     (generate_infrastructure_summary (claude self) (trace w) all_results cluster_info,
      w\<lparr>trace := trace w @ [GenerateSummary all_results]\<rparr>)"

text \<open>The statements of the \<^verbatim>\<open>try\<close> block after the loop.\<close>

definition finish_analysis ::
    "batch_processor \<Rightarrow> nat \<Rightarrow> result list \<Rightarrow> nat \<Rightarrow> cluster_info \<Rightarrow> path
       \<Rightarrow> world \<Rightarrow> (exn + unit) \<times> world" where
  "finish_analysis self job_id all_results processed_count cluster_info job_output_dir =
     and_then (save_individual_outputs self job_id all_results job_output_dir) (\<lambda>u.
     and_then (summary_call self all_results cluster_info) (\<lambda>summary.
     and_then (save_infrastructure_report (platform self) job_id ''summary'' summary) (\<lambda>u.
     and_then (os_call (platform self)
                 (WriteText (job_output_dir @ [''infrastructure_summary.md'']) summary)) (\<lambda>u.
     and_then (generate_consolidated_outputs self job_id all_results job_output_dir) (\<lambda>u.
     update_batch_job (platform self) job_id processed_count Completed None)))))"

text \<open>
  The \<^verbatim>\<open>try\<close> block: its outcome, and the value that \<^verbatim>\<open>processed_count\<close> has when the
  block is left.
\<close>

definition try_block ::
    "batch_processor \<Rightarrow> nat \<Rightarrow> vm_data list \<Rightarrow> cluster_info \<Rightarrow> path
       \<Rightarrow> world \<Rightarrow> ((exn + unit) \<times> nat) \<times> world" where
  "try_block self job_id all_resources cluster_info job_output_dir w =
     (case py_range (length all_resources) (batch_size (settings self)) of
        Inl e \<Rightarrow> ((Inl e, 0), w)
      | Inr indices \<Rightarrow>
          (case process_groups self job_id all_resources cluster_info
                  (nat (batch_size (settings self))) indices [] 0 w of
             ((Some e, all_results, processed_count), w1) \<Rightarrow> ((Inl e, processed_count), w1)
           | ((None, all_results, processed_count), w1) \<Rightarrow>
               (case finish_analysis self job_id all_results processed_count cluster_info
                       job_output_dir w1 of
                  (r, w2) \<Rightarrow> ((r, processed_count), w2))))"

definition job_dir :: "batch_processor \<Rightarrow> nat \<Rightarrow> path" where
  "job_dir self job_id = output_dir (settings self) @ [''job_'' @ str_nat job_id]"

text \<open>
  The \<^verbatim>\<open>try\<close> statement with its handler: the handler records the failure and raises the
  exception again, unless recording raises itself.
\<close>

definition try_except ::
    "batch_processor \<Rightarrow> nat \<Rightarrow> vm_data list \<Rightarrow> cluster_info \<Rightarrow> path
       \<Rightarrow> world \<Rightarrow> (exn + nat option) \<times> world" where
  "try_except self job_id all_resources cluster_info job_output_dir w =
     (case try_block self job_id all_resources cluster_info job_output_dir w of
        ((Inr u, processed_count), w1) \<Rightarrow> (Inr (Some job_id), w1)
      | ((Inl e, processed_count), w1) \<Rightarrow>
          (case update_batch_job (platform self) job_id processed_count Failed (Some e) w1 of
             (Inl e', w2) \<Rightarrow> (Inl e', w2)
           | (Inr u, w2) \<Rightarrow> (Inl e, w2)))"

text \<open>
  \<^verbatim>\<open>run_full_analysis\<close>. \<open>Inr None\<close> is the return value \<^verbatim>\<open>None\<close> for an empty
  inventory, \<open>Inr (Some job_id)\<close> the normal return, \<open>Inl e\<close> a raised exception. The
  creation of the job and of its output directory precede the \<^verbatim>\<open>try\<close> statement.
\<close>

definition run_full_analysis ::
    "batch_processor \<Rightarrow> world \<Rightarrow> (exn + nat option) \<times> world" where
  "run_full_analysis self w =
     (let w1 = w\<lparr>trace := trace w @ [GetClusterInfo]\<rparr> in
      case get_cluster_info (proxmox self) (trace w) of
        Inl e \<Rightarrow> (Inl e, w1)
      | Inr cluster_info \<Rightarrow>
          (let w2 = w1\<lparr>trace := trace w1 @ [GetAllResources]\<rparr> in
           case get_all_resources (proxmox self) (trace w1) of
             Inl e \<Rightarrow> (Inl e, w2)
           | Inr all_resources \<Rightarrow>
               if all_resources = [] then (Inr None, w2)
               else
                 (case create_batch_job (platform self) (length all_resources) w2 of
                    (Inl e, w3) \<Rightarrow> (Inl e, w3)
                  | (Inr job_id, w3) \<Rightarrow>
                      (case os_call (platform self) (Mkdir (job_dir self job_id)) w3 of
                         (Inl e, w4) \<Rightarrow> (Inl e, w4)
                       | (Inr u, w4) \<Rightarrow>
                           try_except self job_id all_resources cluster_info
                             (job_dir self job_id) w4))))"

section \<open>The collaborators of the repository\<close>

subsection \<open>\<^verbatim>\<open>ProxmoxClient\<close>\<close>

text \<open>
  The requests that \<^verbatim>\<open>proxmox_client.py\<close> sends through the \<^verbatim>\<open>proxmoxer\<close> library, each of
  which may raise. An entry of a guest listing has the keys \<^verbatim>\<open>vmid\<close>, \<^verbatim>\<open>name\<close> and
  \<^verbatim>\<open>status\<close>, the last two optional. The node listing is given with the names already
  extracted, since the extraction is inside the same \<^verbatim>\<open>try\<close> as the request.
\<close>

record guest =
  vmid :: int
  guest_name :: "string option"
  guest_status :: "string option"

record proxmox_api =
  cluster_status_get :: "history \<Rightarrow> exn + json"
  cluster_resources_get :: "history \<Rightarrow> exn + json"
  nodes_get :: "history \<Rightarrow> exn + string list"
  qemu_get :: "history \<Rightarrow> string \<Rightarrow> exn + guest list"
  lxc_get :: "history \<Rightarrow> string \<Rightarrow> exn + guest list"
  qemu_config_get :: "history \<Rightarrow> string \<Rightarrow> int \<Rightarrow> exn + json"
  lxc_config_get :: "history \<Rightarrow> string \<Rightarrow> int \<Rightarrow> exn + json"

definition get_all_nodes :: "proxmox_api \<Rightarrow> history \<Rightarrow> string list" where
  "get_all_nodes api h = (case nodes_get api h of Inr nodes \<Rightarrow> nodes | Inl e \<Rightarrow> [])"

definition get_vm_config :: "proxmox_api \<Rightarrow> history \<Rightarrow> string \<Rightarrow> int \<Rightarrow> json" where
  "get_vm_config api h nd i =
     (case qemu_config_get api h nd i of Inr c \<Rightarrow> c | Inl e \<Rightarrow> JDict [])"

definition get_lxc_config :: "proxmox_api \<Rightarrow> history \<Rightarrow> string \<Rightarrow> int \<Rightarrow> json" where
  "get_lxc_config api h nd i =
     (case lxc_config_get api h nd i of Inr c \<Rightarrow> c | Inl e \<Rightarrow> JDict [])"

definition dict_get :: "'a option \<Rightarrow> 'a \<Rightarrow> 'a" where
  "dict_get v d = (case v of Some x \<Rightarrow> x | None \<Rightarrow> d)"

definition vm_detail :: "proxmox_api \<Rightarrow> history \<Rightarrow> string \<Rightarrow> guest \<Rightarrow> vm_data" where
  "vm_detail api h nd vm =
     \<lparr>node = nd,
      vm_id = str_int (vmid vm),
      vm_name = dict_get (guest_name vm) (''VM-'' @ str_int (vmid vm)),
      vm_type = ''qemu'',
      vm_status = dict_get (guest_status vm) ''unknown'',
      config = get_vm_config api h nd (vmid vm)\<rparr>"

definition lxc_detail :: "proxmox_api \<Rightarrow> history \<Rightarrow> string \<Rightarrow> guest \<Rightarrow> vm_data" where
  "lxc_detail api h nd lxc =
     \<lparr>node = nd,
      vm_id = str_int (vmid lxc),
      vm_name = dict_get (guest_name lxc) (''LXC-'' @ str_int (vmid lxc)),
      vm_type = ''lxc'',
      vm_status = dict_get (guest_status lxc) ''unknown'',
      config = get_lxc_config api h nd (vmid lxc)\<rparr>"

definition get_all_vms :: "proxmox_api \<Rightarrow> history \<Rightarrow> vm_data list" where
  "get_all_vms api h =
     concat (map (\<lambda>nd. case qemu_get api h nd of
                          Inr vms \<Rightarrow> map (vm_detail api h nd) vms
                        | Inl e \<Rightarrow> [])
                 (get_all_nodes api h))"

definition get_all_lxcs :: "proxmox_api \<Rightarrow> history \<Rightarrow> vm_data list" where
  "get_all_lxcs api h =
     concat (map (\<lambda>nd. case lxc_get api h nd of
                          Inr lxcs \<Rightarrow> map (lxc_detail api h nd) lxcs
                        | Inl e \<Rightarrow> [])
                 (get_all_nodes api h))"

definition ProxmoxClient_get_all_resources :: "proxmox_api \<Rightarrow> history \<Rightarrow> exn + vm_data list" where
  "ProxmoxClient_get_all_resources api h = Inr (get_all_vms api h @ get_all_lxcs api h)"

text \<open>
  \<^verbatim>\<open>ProxmoxClient.get_cluster_info\<close>: both requests are inside \<^verbatim>\<open>try\<close>, and the handler
  returns the empty dictionary.
\<close>

definition ProxmoxClient_get_cluster_info :: "proxmox_api \<Rightarrow> history \<Rightarrow> exn + cluster_info" where
  "ProxmoxClient_get_cluster_info api h =
     (case cluster_status_get api h of
        Inl e \<Rightarrow> Inr None
      | Inr st \<Rightarrow>
          (case cluster_resources_get api h of
             Inl e \<Rightarrow> Inr None
           | Inr rs \<Rightarrow>
               Inr (Some \<lparr>cluster_status = st, cluster_resources = rs,
                          cluster_nodes = get_all_nodes api h\<rparr>)))"

definition ProxmoxClient :: "proxmox_api \<Rightarrow> proxmox_client" where
  "ProxmoxClient api =
     \<lparr>get_cluster_info = ProxmoxClient_get_cluster_info api,
      get_all_resources = ProxmoxClient_get_all_resources api\<rparr>"

subsection \<open>\<^verbatim>\<open>ClaudeAnalyzer\<close>\<close>

text \<open>
  A request to the text service is identified by what its prompt is built from; the answer
  is the text of the first content block, or an exception. Every method of
  \<^verbatim>\<open>claude_analyzer.py\<close> sends its request inside \<^verbatim>\<open>try\<close> and returns a text from the
  handler.
\<close>

datatype prompt =
    AnalyzeVm vm_data cluster_info
  | SecurityReview vm_data
  | Optimization vm_data
  | Terraform vm_data
  | Ansible vm_data
  | InfrastructureSummary nat nat nat "string list"

type_synonym messages_create = "history \<Rightarrow> prompt \<Rightarrow> exn + string"

definition analyze_vm :: "messages_create \<Rightarrow> history \<Rightarrow> vm_data \<Rightarrow> cluster_info \<Rightarrow> string" where
  "analyze_vm client h vm cluster_context =
     (case client h (AnalyzeVm vm cluster_context) of
        Inr t \<Rightarrow> t
      | Inl e \<Rightarrow> ''Error during analysis: '' @ e)"

definition security_review_of :: "messages_create \<Rightarrow> history \<Rightarrow> vm_data \<Rightarrow> string" where
  "security_review_of client h vm =
     (case client h (SecurityReview vm) of
        Inr t \<Rightarrow> t
      | Inl e \<Rightarrow> ''Error during security review: '' @ e)"

definition optimization_recommendations_of :: "messages_create \<Rightarrow> history \<Rightarrow> vm_data \<Rightarrow> string" where
  "optimization_recommendations_of client h vm =
     (case client h (Optimization vm) of
        Inr t \<Rightarrow> t
      | Inl e \<Rightarrow> ''Error generating optimizations: '' @ e)"

definition generate_terraform :: "messages_create \<Rightarrow> history \<Rightarrow> vm_data \<Rightarrow> string" where
  "generate_terraform client h vm =
     (case client h (Terraform vm) of
        Inr t \<Rightarrow> t
      | Inl e \<Rightarrow> ''# Error generating Terraform: '' @ e)"

definition generate_ansible :: "messages_create \<Rightarrow> history \<Rightarrow> vm_data \<Rightarrow> string" where
  "generate_ansible client h vm =
     (case client h (Ansible vm) of
        Inr t \<Rightarrow> t
      | Inl e \<Rightarrow> ''# Error generating Ansible: '' @ e)"

definition ClaudeAnalyzer_analyze_complete ::
    "messages_create \<Rightarrow> history \<Rightarrow> vm_data \<Rightarrow> cluster_info \<Rightarrow> bool \<Rightarrow> bool \<Rightarrow> bool \<Rightarrow> bool
       \<Rightarrow> exn + analysis_results" where
  "ClaudeAnalyzer_analyze_complete client h vm cluster_context
       include_security include_optimization include_terraform include_ansible =
     Inr \<lparr>res_analysis = Some (analyze_vm client h vm cluster_context),
          res_security_review =
            (if include_security then Some (security_review_of client h vm) else None),
          res_optimization_recommendations =
            (if include_optimization then Some (optimization_recommendations_of client h vm)
             else None),
          res_terraform_template =
            (if include_terraform then Some (generate_terraform client h vm) else None),
          res_ansible_playbook =
            (if include_ansible then Some (generate_ansible client h vm) else None)\<rparr>"

definition ClaudeAnalyzer_generate_infrastructure_summary ::
    "messages_create \<Rightarrow> history \<Rightarrow> result list \<Rightarrow> cluster_info \<Rightarrow> exn + string" where
  "ClaudeAnalyzer_generate_infrastructure_summary client h all_analyses cluster_info =
     (case client h
             (InfrastructureSummary (length all_analyses)
                (length (filter (\<lambda>a. vm_type a = ''qemu'') all_analyses))
                (length (filter (\<lambda>a. vm_type a = ''lxc'') all_analyses))
                (case cluster_info of Some c \<Rightarrow> cluster_nodes c | None \<Rightarrow> [])) of
        Inr t \<Rightarrow> Inr t
      | Inl e \<Rightarrow> Inr (''Error generating summary: '' @ e))"

definition ClaudeAnalyzer :: "messages_create \<Rightarrow> claude_analyzer" where
  "ClaudeAnalyzer client =
     \<lparr>analyze_complete = ClaudeAnalyzer_analyze_complete client,
      generate_infrastructure_summary = ClaudeAnalyzer_generate_infrastructure_summary client\<rparr>"

section \<open>Notions used to state the properties\<close>

text \<open>
  The effect of a list of file system calls on the file system alone, when the operating
  system refuses none of them.
\<close>

fun run_ops :: "fs_op list \<Rightarrow> filesystem \<Rightarrow> exn + filesystem" where
  "run_ops [] s = Inr s"
| "run_ops (c # cs) s = (case fs_apply c s of Inl e \<Rightarrow> Inl e | Inr s1 \<Rightarrow> run_ops cs s1)"

text \<open>The paths written by a list of calls, and the text that the last write to a path leaves.\<close>

fun written :: "fs_op list \<Rightarrow> path list" where
  "written [] = []"
| "written (Mkdir p # cs) = written cs"
| "written (WriteText p t # cs) = p # written cs"

fun last_write :: "path \<Rightarrow> fs_op list \<Rightarrow> string option" where
  "last_write p [] = None"
| "last_write p (Mkdir q # cs) = last_write p cs"
| "last_write p (WriteText q t # cs) =
     (case last_write p cs of Some t' \<Rightarrow> Some t' | None \<Rightarrow> if q = p then Some t else None)"

text \<open>
  The artifact writer: the two methods that lay out the files of a job, one after the
  other.
\<close>

definition artifact_writer ::
    "batch_processor \<Rightarrow> nat \<Rightarrow> result list \<Rightarrow> path \<Rightarrow> world \<Rightarrow> (exn + unit) \<times> world" where
  "artifact_writer self job_id results out =
     and_then (save_individual_outputs self job_id results out)
       (\<lambda>u. generate_consolidated_outputs self job_id results out)"

definition no_os_fault :: "platform \<Rightarrow> bool" where
  "no_os_fault pf \<longleftrightarrow> (\<forall>h e. os_fault pf h e = None)"

definition no_sqlite_fault :: "platform \<Rightarrow> bool" where
  "no_sqlite_fault pf \<longleftrightarrow> (\<forall>h e. sqlite_fault pf h e = None)"

text \<open>The resource that a result belongs to: the keys of \<open>vm_data\<close> in the merged dictionary.\<close>

definition vm_of :: "result \<Rightarrow> vm_data" where
  "vm_of r = vm_data.truncate r"

text \<open>
  What \<^verbatim>\<open>process_single_vm\<close> returns for a resource when the analyzer is asked at history
  \<open>h\<close>, and what the tasks of one group return when the first is started at history \<open>h\<close>.
\<close>

definition analysis_outcome :: "batch_processor \<Rightarrow> cluster_info \<Rightarrow> history \<Rightarrow> vm_data \<Rightarrow> result" where
  "analysis_outcome self cluster_context h vm =
     (case analyze_complete (claude self) h vm cluster_context
             (enable_security_review (settings self))
             (enable_optimization (settings self))
             (enable_terraform (settings self))
             (enable_ansible (settings self)) of
        Inr analysis_results \<Rightarrow> merge_results vm analysis_results
      | Inl e \<Rightarrow> error_result vm e)"

fun batch_outcomes ::
    "batch_processor \<Rightarrow> cluster_info \<Rightarrow> history \<Rightarrow> vm_data list \<Rightarrow> result list" where
  "batch_outcomes self cluster_context h [] = []"
| "batch_outcomes self cluster_context h (vm # vms) =
     analysis_outcome self cluster_context h vm
     # batch_outcomes self cluster_context (h @ [AnalyzeComplete vm]) vms"

text \<open>
  The groups that the loop of \<^verbatim>\<open>run_full_analysis\<close> forms: one slice per index of the
  range.
\<close>

definition groups_formed :: "int \<Rightarrow> 'a list \<Rightarrow> 'a list list" where
  "groups_formed step xs =
     (case py_range (length xs) step of
        Inl e \<Rightarrow> []
      | Inr indices \<Rightarrow> map (\<lambda>i. take (nat step) (drop i xs)) indices)"

text \<open>
  The calls of a loop that runs to its end, group by group: the analysis of every resource
  of the group, then the saving of every result of the group, then one progress update.
  \<open>c\<close> is the count before the group.
\<close>

fun groups_trace :: "nat \<Rightarrow> nat \<Rightarrow> vm_data list list \<Rightarrow> result list list \<Rightarrow> history" where
  "groups_trace job_id c (g # gs) (rs # rss) =
     map AnalyzeComplete g
     @ map (SaveVmAnalysis job_id) rs
     @ [UpdateBatchJob job_id (c + length rs) Running None]
     @ groups_trace job_id (c + length rs) gs rss"
| "groups_trace job_id c gs rss = []"

text \<open>The processed counts carried by the progress updates of a history, in order.\<close>

fun progress_values :: "history \<Rightarrow> nat list" where
  "progress_values [] = []"
| "progress_values (UpdateBatchJob j n s e # evs) = n # progress_values evs"
| "progress_values (ev # evs) = progress_values evs"

text \<open>A history without progress updates.\<close>

definition no_update :: "history \<Rightarrow> bool" where
  "no_update evs \<longleftrightarrow> (\<forall>j n s e. UpdateBatchJob j n s e \<notin> set evs)"

text \<open>
  The row of a job is kept from one world to another when it still exists there with the
  same total and the same start.
\<close>

definition job_kept :: "nat \<Rightarrow> world \<Rightarrow> world \<Rightarrow> bool" where
  "job_kept j w w' \<longleftrightarrow>
     (\<forall>row. batch_jobs (db w) j = Some row \<longrightarrow>
        (\<exists>row'. batch_jobs (db w') j = Some row' \<and> total_vms row' = total_vms row
           \<and> started_at row' = started_at row))"

definition keeps_job :: "nat \<Rightarrow> (world \<Rightarrow> 'a \<times> world) \<Rightarrow> bool" where
  "keeps_job j m \<longleftrightarrow> (\<forall>w. job_kept j w (snd (m w)))"

text \<open>A computation whose calls, whatever its outcome, satisfy a property.\<close>

definition emits :: "(history \<Rightarrow> bool) \<Rightarrow> (world \<Rightarrow> 'a \<times> world) \<Rightarrow> bool" where
  "emits P m \<longleftrightarrow> (\<forall>w. \<exists>evs. trace (snd (m w)) = trace w @ evs \<and> P evs)"

text \<open>Calls without a progress update, except possibly a last one that marks the job completed.\<close>

definition final_update :: "nat \<Rightarrow> nat \<Rightarrow> history \<Rightarrow> bool" where
  "final_update j c evs \<longleftrightarrow>
     no_update evs \<or> (\<exists>a. evs = a @ [UpdateBatchJob j c Completed None] \<and> no_update a)"

text \<open>The results passed to \<^verbatim>\<open>save_vm_analysis\<close> in a history, in order.\<close>

fun saved_results :: "history \<Rightarrow> result list" where
  "saved_results [] = []"
| "saved_results (SaveVmAnalysis j r # evs) = r # saved_results evs"
| "saved_results (ev # evs) = saved_results evs"

section \<open>Example environments\<close>

text \<open>
  A cluster of one node with a virtual machine and a container, a text service that
  answers every request, and a platform that refuses no call.
\<close>

definition ex_api :: proxmox_api where
  "ex_api =
     \<lparr>cluster_status_get = (\<lambda>h. Inr (JList [])),
      cluster_resources_get = (\<lambda>h. Inr (JList [])),
      nodes_get = (\<lambda>h. Inr [''pve'']),
      qemu_get = (\<lambda>h nd. Inr [\<lparr>vmid = 100, guest_name = Some ''web/app 1'', guest_status = None\<rparr>]),
      lxc_get = (\<lambda>h nd. Inr [\<lparr>vmid = 101, guest_name = None, guest_status = Some ''running''\<rparr>]),
      qemu_config_get = (\<lambda>h nd i. Inr (JDict [(''cores'', JInt 2)])),
      lxc_config_get = (\<lambda>h nd i. Inl ''timeout'')\<rparr>"

text \<open>A Proxmox server that cannot be reached: every request raises.\<close>

definition unreachable_api :: proxmox_api where
  "unreachable_api =
     \<lparr>cluster_status_get = (\<lambda>h. Inl ''connection refused''),
      cluster_resources_get = (\<lambda>h. Inl ''connection refused''),
      nodes_get = (\<lambda>h. Inl ''connection refused''),
      qemu_get = (\<lambda>h nd. Inl ''connection refused''),
      lxc_get = (\<lambda>h nd. Inl ''connection refused''),
      qemu_config_get = (\<lambda>h nd i. Inl ''connection refused''),
      lxc_config_get = (\<lambda>h nd i. Inl ''connection refused'')\<rparr>"

definition ex_client :: messages_create where
  "ex_client h p = Inr ''text''"

definition ex_platform :: platform where
  "ex_platform =
     \<lparr>sqlite_fault = (\<lambda>h e. None), os_fault = (\<lambda>h e. None), json_dumps = (\<lambda>i j. ''{}'')\<rparr>"

definition ex_settings :: settings where
  "ex_settings =
     \<lparr>output_dir = [''output''], batch_size = 5, enable_terraform = True,
      enable_ansible = True, enable_security_review = True, enable_optimization = True\<rparr>"

definition ex_world :: world where
  "ex_world =
     \<lparr>db = \<lparr>batch_jobs = Map.empty, job_seq = 0, vm_analysis = [], infrastructure_reports = []\<rparr>,
      fs = \<lparr>files = Map.empty, dirs = {[], [''output'']}\<rparr>,
      trace = []\<rparr>"

definition ex_processor :: batch_processor where
  "ex_processor =
     \<lparr>proxmox = ProxmoxClient ex_api, claude = ClaudeAnalyzer ex_client,
      platform = ex_platform, settings = ex_settings\<rparr>"

definition offline_processor :: batch_processor where
  "offline_processor = ex_processor\<lparr>proxmox := ProxmoxClient unreachable_api\<rparr>"

definition ex_vm :: vm_data where
  "ex_vm =
     \<lparr>node = ''pve'', vm_id = ''100'', vm_name = ''web/app 1'', vm_type = ''qemu'',
      vm_status = ''unknown'', config = JDict [(''cores'', JInt 2)]\<rparr>"

definition ex_result :: result where
  "ex_result =
     merge_results ex_vm
       \<lparr>res_analysis = Some ''text'', res_security_review = None,
        res_optimization_recommendations = None,
        res_terraform_template = Some ''resource {}'',
        res_ansible_playbook = Some ''- hosts: web''\<rparr>"

text \<open>A database that accepts the creation of a job and refuses every later call.\<close>

definition locked_platform :: platform where
  "locked_platform =
     ex_platform\<lparr>sqlite_fault :=
       (\<lambda>h ev. case ev of CreateBatchJob n \<Rightarrow> None | _ \<Rightarrow> Some ''database is locked'')\<rparr>"

definition locked_processor :: batch_processor where
  "locked_processor = ex_processor\<lparr>platform := locked_platform\<rparr>"

text \<open>A file system in which the path of the first job's directory is taken by a file.\<close>

definition blocked_world :: world where
  "blocked_world =
     ex_world\<lparr>fs := \<lparr>files = [[''output'', ''job_1''] \<mapsto> ''''], dirs = {[], [''output'']}\<rparr>\<rparr>"

text \<open>What the client of the example cluster reports.\<close>

definition ex_lxc :: vm_data where
  "ex_lxc =
     \<lparr>node = ''pve'', vm_id = ''101'', vm_name = ''LXC-101'', vm_type = ''lxc'',
      vm_status = ''running'', config = JDict []\<rparr>"

definition ex_cluster :: cluster_info where
  "ex_cluster =
     Some \<lparr>cluster_status = JList [], cluster_resources = JList [], cluster_nodes = [''pve'']\<rparr>"

text \<open>The example world after the job has been created, and after its directory has been made.\<close>

definition ex_created_world :: world where
  "ex_created_world =
     \<lparr>db = \<lparr>batch_jobs =
               [1 \<mapsto> \<lparr>started_at = 2, completed_at = None, status = Running, total_vms = 2,
                       processed_vms = 0, error_message = None\<rparr>],
             job_seq = 1, vm_analysis = [], infrastructure_reports = []\<rparr>,
      fs = \<lparr>files = Map.empty, dirs = {[], [''output'']}\<rparr>,
      trace = [GetClusterInfo, GetAllResources, CreateBatchJob 2]\<rparr>"

definition ex_job_world :: world where
  "ex_job_world =
     ex_created_world
       \<lparr>fs := \<lparr>files = Map.empty, dirs = {[''output'', ''job_1''], [], [''output'']}\<rparr>,
        trace := [GetClusterInfo, GetAllResources, CreateBatchJob 2,
                  FsCall (Mkdir [''output'', ''job_1''])]\<rparr>"

text \<open>
  A text service that refuses the analysis of guest 100, and a cluster whose status
  request is refused while its listings work.
\<close>

definition failing_client :: messages_create where
  "failing_client h p =
     (case p of
        AnalyzeVm vm c \<Rightarrow> if vm_id vm = ''100'' then Inl ''overloaded'' else Inr ''text''
      | _ \<Rightarrow> Inr ''text'')"

definition failing_processor :: batch_processor where
  "failing_processor = ex_processor\<lparr>claude := ClaudeAnalyzer failing_client\<rparr>"

definition partial_api :: proxmox_api where
  "partial_api = ex_api\<lparr>cluster_status_get := (\<lambda>h. Inl ''permission denied'')\<rparr>"

definition partial_processor :: batch_processor where
  "partial_processor = ex_processor\<lparr>proxmox := ProxmoxClient partial_api\<rparr>"

text \<open>
  Test doubles: an analyzer whose \<^verbatim>\<open>analyze_complete\<close> raises for guest 100, and a Proxmox
  client whose \<^verbatim>\<open>get_cluster_info\<close> raises.
\<close>

definition raising_analyzer :: claude_analyzer where
  "raising_analyzer =
     \<lparr>analyze_complete =
        (\<lambda>h vm c s1 s2 s3 s4.
           if vm_id vm = ''100'' then Inl ''boom''
           else Inr \<lparr>res_analysis = Some ''fine'', res_security_review = None,
                     res_optimization_recommendations = None,
                     res_terraform_template = Some ''resource {}'',
                     res_ansible_playbook = None\<rparr>),
      generate_infrastructure_summary = (\<lambda>h rs c. Inr ''summary'')\<rparr>"

definition stub_processor :: batch_processor where
  "stub_processor = ex_processor\<lparr>claude := raising_analyzer\<rparr>"

definition raising_proxmox :: proxmox_client where
  "raising_proxmox =
     \<lparr>get_cluster_info = (\<lambda>h. Inl ''unreachable''),
      get_all_resources = (\<lambda>h. Inr [ex_vm, ex_lxc])\<rparr>"

definition cut_off_processor :: batch_processor where
  "cut_off_processor = ex_processor\<lparr>proxmox := raising_proxmox\<rparr>"

section \<open>Properties of the calls on the platform\<close>

lemma sqlite_call_trace [simp]: "trace (snd (sqlite_call pf ev stmt w)) = trace w @ [ev]"
  by (simp add: sqlite_call_def Let_def split: option.splits prod.splits)

lemma sqlite_call_fs [simp]: "fs (snd (sqlite_call pf ev stmt w)) = fs w"
  by (simp add: sqlite_call_def Let_def split: option.splits prod.splits)

lemma os_call_trace [simp]: "trace (snd (os_call pf c w)) = trace w @ [FsCall c]"
  by (simp add: os_call_def Let_def split: option.splits sum.splits)

lemma os_call_db [simp]: "db (snd (os_call pf c w)) = db w"
  by (simp add: os_call_def Let_def split: option.splits sum.splits)

lemma os_calls_db [simp]: "db (snd (os_calls pf cs w)) = db w"
proof (induction cs arbitrary: w)
  case Nil
  show ?case by simp
next
  case (Cons c cs)
  have "db (snd (os_call pf c w)) = db w" by simp
  with Cons.IH [of "snd (os_call pf c w)"] show ?case
    by (cases "os_call pf c w") (auto split: sum.splits)
qed

lemma fs_apply_dirs_mono: "fs_apply c s = Inr s1 \<Longrightarrow> dirs s \<subseteq> dirs s1"
  by (cases c) (auto simp: mkdir_exist_ok_def write_text_def split: if_splits)

lemma fs_apply_files_mono: "fs_apply c s = Inr s1 \<Longrightarrow> dom (files s) \<subseteq> dom (files s1)"
  by (cases c) (auto simp: mkdir_exist_ok_def write_text_def split: if_splits)

lemma run_ops_dirs_mono: "run_ops cs s = Inr t \<Longrightarrow> dirs s \<subseteq> dirs t"
proof (induction cs arbitrary: s)
  case Nil
  then show ?case by simp
next
  case (Cons c cs)
  then obtain s1 where a: "fs_apply c s = Inr s1" and r: "run_ops cs s1 = Inr t"
    by (auto split: sum.splits)
  from fs_apply_dirs_mono [OF a] Cons.IH [OF r] show ?case by blast
qed

lemma run_ops_files_mono: "run_ops cs s = Inr t \<Longrightarrow> dom (files s) \<subseteq> dom (files t)"
proof (induction cs arbitrary: s)
  case Nil
  then show ?case by simp
next
  case (Cons c cs)
  then obtain s1 where a: "fs_apply c s = Inr s1" and r: "run_ops cs s1 = Inr t"
    by (auto split: sum.splits)
  from fs_apply_files_mono [OF a] Cons.IH [OF r] show ?case by blast
qed

lemma run_ops_frame:
  "run_ops cs s = Inr t \<Longrightarrow> p \<notin> set (written cs) \<Longrightarrow> files t p = files s p"
proof (induction cs arbitrary: s)
  case Nil
  then show ?case by simp
next
  case (Cons c cs)
  then obtain s1 where a: "fs_apply c s = Inr s1" and r: "run_ops cs s1 = Inr t"
    by (auto split: sum.splits)
  from Cons.prems(2) have "p \<notin> set (written cs)" by (cases c) auto
  then have "files t p = files s1 p" using Cons.IH [OF r] by simp
  moreover from a Cons.prems(2) have "files s1 p = files s p"
    by (cases c) (auto simp: mkdir_exist_ok_def write_text_def split: if_splits)
  ultimately show ?case by simp
qed

lemma run_ops_file_stays_file:
  "run_ops cs s = Inr t \<Longrightarrow> q \<in> dom (files s) \<Longrightarrow> q \<notin> dirs s \<Longrightarrow> q \<notin> dirs t"
proof (induction cs arbitrary: s)
  case Nil
  then show ?case by simp
next
  case (Cons c cs)
  then obtain s1 where a: "fs_apply c s = Inr s1" and r: "run_ops cs s1 = Inr t"
    by (auto split: sum.splits)
  from a Cons.prems(2,3) have "q \<in> dom (files s1)" and "q \<notin> dirs s1"
    by (cases c; auto simp: mkdir_exist_ok_def write_text_def split: if_splits)+
  then show ?case using Cons.IH [OF r] by simp
qed

lemma run_ops_last_write:
  "run_ops cs s = Inr t \<Longrightarrow>
   files t p = (case last_write p cs of Some x \<Rightarrow> Some x | None \<Rightarrow> files s p)"
proof (induction cs arbitrary: s)
  case Nil
  then show ?case by simp
next
  case (Cons c cs)
  then obtain s1 where a: "fs_apply c s = Inr s1" and r: "run_ops cs s1 = Inr t"
    by (auto split: sum.splits)
  from a show ?case using Cons.IH [OF r]
    by (cases c) (auto simp: mkdir_exist_ok_def write_text_def split: if_splits option.splits)
qed

lemma run_ops_again:
  "run_ops cs s = Inr t \<Longrightarrow> dirs u = dirs t \<Longrightarrow>
   (\<forall>p. p \<notin> set (written cs) \<longrightarrow> files u p = files t p) \<Longrightarrow> run_ops cs u = Inr t"
proof (induction cs arbitrary: s u)
  case Nil
  then have "files u = files t" and "dirs u = dirs t" by auto
  then have "u = t" by simp
  with Nil show ?case by simp
next
  case (Cons c cs)
  then obtain s1 where a: "fs_apply c s = Inr s1" and r: "run_ops cs s1 = Inr t"
    by (auto split: sum.splits)
  show ?case
  proof (cases c)
    case (Mkdir p)
    with a have "p \<in> dirs s1"
      by (auto simp: mkdir_exist_ok_def split: if_splits)
    with run_ops_dirs_mono [OF r] Cons.prems(2) have "p \<in> dirs u" by auto
    then have "fs_apply c u = Inr u" using Mkdir by (simp add: mkdir_exist_ok_def)
    moreover have "run_ops cs u = Inr t"
      using Cons.IH [OF r Cons.prems(2)] Cons.prems(3) Mkdir by simp
    ultimately show ?thesis by simp
  next
    case (WriteText q x)
    with a have q: "q \<notin> dirs s" and par: "butlast q \<in> dirs s"
      and s1: "s1 = s\<lparr>files := (files s)(q \<mapsto> x)\<rparr>"
      by (auto simp: write_text_def split: if_splits)
    from s1 q have "q \<in> dom (files s1)" and "q \<notin> dirs s1" by auto
    with run_ops_file_stays_file [OF r] have "q \<notin> dirs t" by simp
    moreover from par s1 run_ops_dirs_mono [OF r] have "butlast q \<in> dirs t" by auto
    ultimately have ap: "fs_apply c u = Inr (u\<lparr>files := (files u)(q \<mapsto> x)\<rparr>)"
      using WriteText Cons.prems(2) by (simp add: write_text_def)
    have "\<forall>p. p \<notin> set (written cs) \<longrightarrow> files (u\<lparr>files := (files u)(q \<mapsto> x)\<rparr>) p = files t p"
    proof (intro allI impI)
      fix p assume p: "p \<notin> set (written cs)"
      show "files (u\<lparr>files := (files u)(q \<mapsto> x)\<rparr>) p = files t p"
      proof (cases "p = q")
        case True
        with run_ops_frame [OF r p] s1 show ?thesis by simp
      next
        case False
        with p WriteText Cons.prems(3) show ?thesis by simp
      qed
    qed
    with Cons.IH [OF r, of "u\<lparr>files := (files u)(q \<mapsto> x)\<rparr>"] Cons.prems(2)
    have "run_ops cs (u\<lparr>files := (files u)(q \<mapsto> x)\<rparr>) = Inr t" by simp
    with ap show ?thesis by simp
  qed
qed

lemma run_ops_idempotent: "run_ops cs s = Inr t \<Longrightarrow> run_ops cs t = Inr t"
  by (rule run_ops_again) auto

lemma os_calls_run_ops:
  "os_calls pf cs w = (Inr u, w') \<Longrightarrow> run_ops cs (fs w) = Inr (fs w')"
proof (induction cs arbitrary: w)
  case Nil
  then show ?case by simp
next
  case (Cons c cs)
  then obtain w1 where a: "os_call pf c w = (Inr (), w1)" and r: "os_calls pf cs w1 = (Inr u, w')"
    by (auto split: sum.splits prod.splits)
  from a have "fs_apply c (fs w) = Inr (fs w1)"
    by (auto simp: os_call_def Let_def split: option.splits sum.splits)
  with Cons.IH [OF r] show ?case by simp
qed

lemma os_calls_no_fault:
  "\<forall>h e. os_fault pf h e = None \<Longrightarrow> run_ops cs (fs w) = Inr t \<Longrightarrow>
   fst (os_calls pf cs w) = Inr () \<and> fs (snd (os_calls pf cs w)) = t"
proof (induction cs arbitrary: w)
  case Nil
  then show ?case by simp
next
  case (Cons c cs)
  then obtain s1 where a: "fs_apply c (fs w) = Inr s1" and r: "run_ops cs s1 = Inr t"
    by (auto split: sum.splits)
  from a Cons.prems(1) have oc: "os_call pf c w = (Inr (), w\<lparr>trace := trace w @ [FsCall c], fs := s1\<rparr>)"
    by (simp add: os_call_def Let_def)
  from Cons.IH [OF Cons.prems(1), of "w\<lparr>trace := trace w @ [FsCall c], fs := s1\<rparr>"] r oc
  show ?case by simp
qed

lemma os_calls_append:
  "os_calls pf (cs @ ds) w =
     (case os_calls pf cs w of (Inl e, w1) \<Rightarrow> (Inl e, w1) | (Inr u, w1) \<Rightarrow> os_calls pf ds w1)"
  by (induction cs arbitrary: w) (auto split: sum.splits prod.splits)


section \<open>The artifact writer\<close>

lemma main_tf_steps:
  "foldl main_tf_step content rs =
     content @ concat (map terraform_section (filter (\<lambda>r. truthy (terraform_template r)) rs))"
  by (induction rs arbitrary: content) (simp_all add: main_tf_step_def)

lemma site_yml_steps:
  "foldl site_yml_step content rs =
     content @ concat (map site_yml_section (filter (\<lambda>r. truthy (ansible_playbook r)) rs))"
  by (induction rs arbitrary: content) (simp_all add: site_yml_step_def)

lemma artifact_writer_calls:
  "artifact_writer self job_id results out =
     os_calls (platform self)
       (save_individual_outputs_calls self job_id results out
        @ generate_consolidated_outputs_calls self job_id results out)"
  by (rule ext)
     (simp add: artifact_writer_def and_then_def save_individual_outputs_def
        generate_consolidated_outputs_def os_calls_append)

lemmas ex_defs = ex_processor_def ex_platform_def ex_settings_def ex_world_def ex_result_def ex_vm_def
  ex_client_def

lemmas writer_defs = artifact_writer_calls save_individual_outputs_calls_def individual_output_calls_def
  generate_consolidated_outputs_calls_def terraform_calls_def ansible_calls_def playbook_calls_def
  write_if_def vm_dir_name_def sanitize_def replace_char_def merge_results_def vm_data.defs result.defs
  os_call_def mkdir_exist_ok_def write_text_def Let_def

lemma ex_writer_first:
  "fst (artifact_writer ex_processor 1 [ex_result] [''output''] ex_world) = Inr ()"
  by (simp add: ex_defs writer_defs)

text \<open>
  C7. Invoking the artifact writer (individual and consolidated outputs) a second time
  with the same job, results and output directory is idempotent: when the first invocation
  has succeeded, a second one that succeeds leaves every file and directory exactly as
  the first left them, and it does succeed unless the operating system refuses a call.
  Directories are created when absent and nothing that existed before is removed.
\<close>

theorem artifact_writer_idempotent:
  assumes "artifact_writer self job_id results out w = (Inr (), w1)"
  shows "dirs (fs w) \<subseteq> dirs (fs w1) \<and> dom (files (fs w)) \<subseteq> dom (files (fs w1))
    \<and> (\<forall>w2. artifact_writer self job_id results out w1 = (Inr (), w2) \<longrightarrow> fs w2 = fs w1)
    \<and> (no_os_fault (platform self) \<longrightarrow>
          fst (artifact_writer self job_id results out w1) = Inr ()
          \<and> fs (snd (artifact_writer self job_id results out w1)) = fs w1)"
proof -
  let ?cs = "save_individual_outputs_calls self job_id results out
             @ generate_consolidated_outputs_calls self job_id results out"
  from assms have first: "run_ops ?cs (fs w) = Inr (fs w1)"
    by (simp add: artifact_writer_calls os_calls_run_ops)
  then have again: "run_ops ?cs (fs w1) = Inr (fs w1)"
    by (rule run_ops_idempotent)
  have kept: "dirs (fs w) \<subseteq> dirs (fs w1) \<and> dom (files (fs w)) \<subseteq> dom (files (fs w1))"
    using run_ops_dirs_mono [OF first] run_ops_files_mono [OF first] by simp
  have same: "fs w2 = fs w1" if "artifact_writer self job_id results out w1 = (Inr (), w2)" for w2
  proof -
    from that have "run_ops ?cs (fs w1) = Inr (fs w2)"
      by (simp add: artifact_writer_calls os_calls_run_ops)
    with again show ?thesis by simp
  qed
  have quiet: "fst (artifact_writer self job_id results out w1) = Inr ()
      \<and> fs (snd (artifact_writer self job_id results out w1)) = fs w1"
    if "no_os_fault (platform self)"
    using that os_calls_no_fault [OF _ again, of "platform self"]
    by (simp add: artifact_writer_calls no_os_fault_def)
  from kept same quiet show ?thesis by blast
qed

theorem artifact_writer_idempotent_witness:
  "artifact_writer ex_processor 1 [ex_result] [''output''] ex_world =
     (Inr (), snd (artifact_writer ex_processor 1 [ex_result] [''output''] ex_world))
   \<and> no_os_fault (platform ex_processor)
   \<and> fs (snd (artifact_writer ex_processor 1 [ex_result] [''output'']
               (snd (artifact_writer ex_processor 1 [ex_result] [''output''] ex_world)))) =
       fs (snd (artifact_writer ex_processor 1 [ex_result] [''output''] ex_world))"
proof -
  have first: "artifact_writer ex_processor 1 [ex_result] [''output''] ex_world =
     (Inr (), snd (artifact_writer ex_processor 1 [ex_result] [''output''] ex_world))"
    using ex_writer_first by (simp add: prod_eq_iff)
  have quiet: "no_os_fault (platform ex_processor)"
    by (simp add: no_os_fault_def ex_processor_def ex_platform_def)
  from artifact_writer_idempotent [OF first] first quiet show ?thesis by blast
qed

section \<open>One group\<close>

lemma vm_of_merge [simp]: "vm_of (merge_results vm a) = vm"
  by (simp add: vm_of_def merge_results_def vm_data.defs)

lemma vm_of_error [simp]: "vm_of (error_result vm e) = vm"
  by (simp add: vm_of_def error_result_def vm_data.defs)

lemma vm_of_outcome [simp]: "vm_of (analysis_outcome self ci h vm) = vm"
  by (simp add: analysis_outcome_def split: sum.splits)

lemma process_single_vm_eq:
  "process_single_vm self vm ci w =
     (Inr (analysis_outcome self ci (trace w) vm), w\<lparr>trace := trace w @ [AnalyzeComplete vm]\<rparr>)"
  by (simp add: process_single_vm_def analysis_outcome_def Let_def split: sum.splits)

lemma gather_process_single_vm:
  "gather (map (\<lambda>vm. process_single_vm self vm ci) vms) w =
     (map Inr (batch_outcomes self ci (trace w) vms),
      w\<lparr>trace := trace w @ map AnalyzeComplete vms\<rparr>)"
proof (induction vms arbitrary: w)
  case Nil
  show ?case by simp
next
  case (Cons vm vms)
  from Cons.IH [of "w\<lparr>trace := trace w @ [AnalyzeComplete vm]\<rparr>"] show ?case
    by (simp add: process_single_vm_eq)
qed

lemma keep_results: "foldl keep_result acc (map Inr rs) = acc @ rs"
  by (induction rs arbitrary: acc) (simp_all add: keep_result_def)

lemma keep_result_filter:
  "foldl keep_result acc outs = acc @ List.map_filter (\<lambda>r. case r of Inl e \<Rightarrow> None | Inr x \<Rightarrow> Some x) outs"
  by (induction outs arbitrary: acc) (auto simp: keep_result_def split: sum.splits)

lemma process_batch_eq:
  "process_batch self vms ci w =
     (Inr (batch_outcomes self ci (trace w) vms),
      w\<lparr>trace := trace w @ map AnalyzeComplete vms\<rparr>)"
  by (simp add: process_batch_def gather_process_single_vm keep_results)

lemma batch_outcomes_vms [simp]: "map vm_of (batch_outcomes self ci h vms) = vms"
  by (induction vms arbitrary: h) simp_all

lemma batch_outcomes_length [simp]: "length (batch_outcomes self ci h vms) = length vms"
  by (induction vms arbitrary: h) simp_all

lemma batch_outcomes_nth:
  "k < length vms \<Longrightarrow>
   batch_outcomes self ci h vms ! k
     = analysis_outcome self ci (h @ map AnalyzeComplete (take k vms)) (vms ! k)"
proof (induction vms arbitrary: h k)
  case Nil
  then show ?case by simp
next
  case (Cons vm vms)
  show ?case
  proof (cases k)
    case 0
    then show ?thesis by simp
  next
    case (Suc k')
    with Cons.prems have "k' < length vms" by simp
    from Cons.IH [OF this, of "h @ [AnalyzeComplete vm]"] Suc show ?thesis by simp
  qed
qed

section \<open>Calls on the database\<close>

lemma sqlite_call_cases:
  "sqlite_call pf ev stmt w =
     (case sqlite_fault pf (trace w) ev of
        Some e \<Rightarrow> (Inl e, w\<lparr>trace := trace w @ [ev]\<rparr>)
      | None \<Rightarrow> (Inr (fst (stmt w)), w\<lparr>trace := trace w @ [ev], db := snd (stmt w)\<rparr>))"
  by (simp add: sqlite_call_def Let_def split: option.splits prod.splits)

lemma save_vm_analysis_cases:
  "save_vm_analysis pf j r w =
     (case sqlite_fault pf (trace w) (SaveVmAnalysis j r) of
        Some e \<Rightarrow> (Inl e, w\<lparr>trace := trace w @ [SaveVmAnalysis j r]\<rparr>)
      | None \<Rightarrow>
          (Inr (), w\<lparr>trace := trace w @ [SaveVmAnalysis j r],
                    db := (db w)\<lparr>vm_analysis :=
                            vm_analysis (db w) @ [analysis_row pf j r (length (trace w))]\<rparr>\<rparr>))"
  by (simp add: save_vm_analysis_def sqlite_call_cases split: option.splits)

lemma update_batch_job_cases:
  "update_batch_job pf j c st err w =
     (case sqlite_fault pf (trace w) (UpdateBatchJob j c st err) of
        Some e \<Rightarrow> (Inl e, w\<lparr>trace := trace w @ [UpdateBatchJob j c st err]\<rparr>)
      | None \<Rightarrow>
          (Inr (), w\<lparr>trace := trace w @ [UpdateBatchJob j c st err],
                    db := (case batch_jobs (db w) j of
                             None \<Rightarrow> db w
                           | Some row \<Rightarrow>
                               (db w)\<lparr>batch_jobs := (batch_jobs (db w))
                                  (j \<mapsto> update_row c st err (length (trace w)) row)\<rparr>)\<rparr>))"
  by (simp add: update_batch_job_def sqlite_call_cases split: option.splits)

lemma save_batch_results_ok:
  "save_batch_results pf j rs w = (Inr u, w') \<Longrightarrow>
   trace w' = trace w @ map (SaveVmAnalysis j) rs \<and> fs w' = fs w
   \<and> batch_jobs (db w') = batch_jobs (db w) \<and> job_seq (db w') = job_seq (db w)
   \<and> infrastructure_reports (db w') = infrastructure_reports (db w)
   \<and> (\<exists>ts. length ts = length rs
         \<and> vm_analysis (db w') = vm_analysis (db w) @ map2 (analysis_row pf j) rs ts)"
proof (induction rs arbitrary: w)
  case Nil
  then show ?case by simp
next
  case (Cons r rs)
  let ?w1 = "w\<lparr>trace := trace w @ [SaveVmAnalysis j r],
                db := (db w)\<lparr>vm_analysis :=
                        vm_analysis (db w) @ [analysis_row pf j r (length (trace w))]\<rparr>\<rparr>"
  from Cons.prems have one: "save_vm_analysis pf j r w = (Inr (), ?w1)"
    and rest: "save_batch_results pf j rs ?w1 = (Inr u, w')"
    by (auto simp: save_vm_analysis_cases split: option.splits)
  from Cons.IH [OF rest] obtain ts where
    t: "trace w' = trace ?w1 @ map (SaveVmAnalysis j) rs" and f: "fs w' = fs ?w1"
    and b: "batch_jobs (db w') = batch_jobs (db ?w1)" and q: "job_seq (db w') = job_seq (db ?w1)"
    and i: "infrastructure_reports (db w') = infrastructure_reports (db ?w1)"
    and l: "length ts = length rs"
    and v: "vm_analysis (db w') = vm_analysis (db ?w1) @ map2 (analysis_row pf j) rs ts"
    by blast
  from l v have "length (length (trace w) # ts) = length (r # rs)
      \<and> vm_analysis (db w') = vm_analysis (db w) @ map2 (analysis_row pf j) (r # rs) (length (trace w) # ts)"
    by simp
  then have "\<exists>ts. length ts = length (r # rs)
      \<and> vm_analysis (db w') = vm_analysis (db w) @ map2 (analysis_row pf j) (r # rs) ts"
    by blast
  with t f b q i show ?case by simp
qed

lemma save_batch_results_any:
  "save_batch_results pf j rs w = (x, w') \<Longrightarrow>
   fs w' = fs w \<and> batch_jobs (db w') = batch_jobs (db w) \<and> job_seq (db w') = job_seq (db w)
   \<and> (\<exists>k. trace w' = trace w @ map (SaveVmAnalysis j) (take k rs))"
proof (induction rs arbitrary: w)
  case Nil
  then show ?case by simp
next
  case (Cons r rs)
  show ?case
  proof (cases "sqlite_fault pf (trace w) (SaveVmAnalysis j r)")
    case (Some e)
    with Cons.prems have "w' = w\<lparr>trace := trace w @ [SaveVmAnalysis j r]\<rparr>"
      by (auto simp: save_vm_analysis_cases)
    then have "fs w' = fs w \<and> batch_jobs (db w') = batch_jobs (db w) \<and> job_seq (db w') = job_seq (db w)
      \<and> trace w' = trace w @ map (SaveVmAnalysis j) (take 1 (r # rs))"
      by simp
    then show ?thesis by blast
  next
    case None
    let ?w1 = "w\<lparr>trace := trace w @ [SaveVmAnalysis j r],
                  db := (db w)\<lparr>vm_analysis :=
                          vm_analysis (db w) @ [analysis_row pf j r (length (trace w))]\<rparr>\<rparr>"
    from None Cons.prems have rest: "save_batch_results pf j rs ?w1 = (x, w')"
      by (auto simp: save_vm_analysis_cases)
    from Cons.IH [OF rest] obtain k where
      "fs w' = fs w" "batch_jobs (db w') = batch_jobs (db w)" "job_seq (db w') = job_seq (db w)"
      "trace w' = trace w @ map (SaveVmAnalysis j) (take (Suc k) (r # rs))"
      by auto
    then show ?thesis by blast
  qed
qed

lemma save_batch_results_no_fault:
  "no_sqlite_fault pf \<Longrightarrow> fst (save_batch_results pf j rs w) = Inr ()"
  by (induction rs arbitrary: w)
     (simp_all add: save_vm_analysis_cases no_sqlite_fault_def)

section \<open>The groups\<close>

lemma concat_slices:
  "concat (map (\<lambda>k. take b (drop (k * b) xs)) [0..<m]) = take (m * b) xs"
proof (induction m)
  case 0
  show ?case by simp
next
  case (Suc m)
  have "take (m * b + b) xs = take (m * b) xs @ take b (drop (m * b) xs)"
    by (rule take_add)
  with Suc show ?case by (simp add: add.commute)
qed

lemma ceil_div_covers:
  assumes "0 < (b::nat)"
  shows "n \<le> ((n + b - 1) div b) * b"
proof -
  have "(n + b - 1) div b * b + (n + b - 1) mod b = n + b - 1"
    by simp
  moreover have "(n + b - 1) mod b < b"
    using assms by simp
  ultimately show ?thesis by linarith
qed

lemma ceil_div_below:
  assumes "0 < (b::nat)" and "k < (n + b - 1) div b"
  shows "k * b < n"
proof -
  from assms(2) have "Suc k \<le> (n + b - 1) div b" by simp
  then have "Suc k * b \<le> (n + b - 1) div b * b"
    by (rule mult_le_mono1)
  also have "\<dots> \<le> n + b - 1" by simp
  finally have "k * b + b \<le> n + b - 1" by simp
  with assms(1) show ?thesis by linarith
qed

lemma groups_formed_pos:
  "0 < step \<Longrightarrow> groups_formed step xs =
     map (\<lambda>k. take (nat step) (drop (k * nat step) xs))
       [0 ..< (length xs + nat step - 1) div nat step]"
  by (simp add: groups_formed_def py_range_def comp_def)

lemma groups_formed_concat: "0 < step \<Longrightarrow> concat (groups_formed step xs) = xs"
  using ceil_div_covers [of "nat step" "length xs"]
  by (simp add: groups_formed_pos concat_slices)

lemma groups_formed_length:
  "0 < step \<Longrightarrow> length (groups_formed step xs) = (length xs + nat step - 1) div nat step"
  by (simp add: groups_formed_pos)

lemma groups_formed_nth:
  "0 < step \<Longrightarrow> k < length (groups_formed step xs) \<Longrightarrow>
   groups_formed step xs ! k = take (nat step) (drop (k * nat step) xs)"
  by (simp add: groups_formed_pos)

lemma groups_formed_full:
  assumes "0 < step" and "Suc k < length (groups_formed step xs)"
  shows "length (groups_formed step xs ! k) = nat step"
proof -
  from assms have "Suc k * nat step < length xs"
    using ceil_div_below [of "nat step" "Suc k" "length xs"] by (simp add: groups_formed_length)
  then have "nat step \<le> length xs - k * nat step" by simp
  with assms show ?thesis by (simp add: groups_formed_nth)
qed

lemma groups_formed_nonempty:
  assumes "0 < step" and "g \<in> set (groups_formed step xs)"
  shows "g \<noteq> [] \<and> length g \<le> nat step"
proof -
  from assms(2) obtain k where k: "k < length (groups_formed step xs)"
    and g: "g = groups_formed step xs ! k"
    by (auto simp: in_set_conv_nth)
  from assms(1) k have "k * nat step < length xs"
    using ceil_div_below [of "nat step" k "length xs"] by (simp add: groups_formed_length)
  with assms(1) k g show ?thesis by (simp add: groups_formed_nth)
qed

lemma groups_formed_example:
  "groups_formed 5 [r1, r2, r3, r4, r5, r6, r7] = [[r1, r2, r3, r4, r5], [r6, r7]]"
  by (simp add: groups_formed_def py_range_def upt_rec)

lemma groups_formed_zero: "groups_formed 0 xs = []"
  by (simp add: groups_formed_def py_range_def)

lemma groups_formed_neg: "step < 0 \<Longrightarrow> groups_formed step xs = []"
  by (simp add: groups_formed_def py_range_def)

section \<open>The loop over the groups\<close>

lemma update_batch_job_ok:
  "update_batch_job pf j c st err w = (Inr u, w') \<Longrightarrow>
   trace w' = trace w @ [UpdateBatchJob j c st err] \<and> fs w' = fs w
   \<and> vm_analysis (db w') = vm_analysis (db w) \<and> job_seq (db w') = job_seq (db w)
   \<and> infrastructure_reports (db w') = infrastructure_reports (db w)
   \<and> batch_jobs (db w') =
       (case batch_jobs (db w) j of
          None \<Rightarrow> batch_jobs (db w)
        | Some row \<Rightarrow> (batch_jobs (db w))(j \<mapsto> update_row c st err (length (trace w)) row))"
  by (auto simp: update_batch_job_cases split: option.splits)

lemma update_batch_job_any:
  "update_batch_job pf j c st err w = (x, w') \<Longrightarrow>
   trace w' = trace w @ [UpdateBatchJob j c st err] \<and> fs w' = fs w
   \<and> vm_analysis (db w') = vm_analysis (db w) \<and> job_seq (db w') = job_seq (db w)"
  by (auto simp: update_batch_job_cases split: option.splits)

lemma process_groups_complete:
  "process_groups self j rsrc ci b is acc c w = ((None, all_results, c'), w') \<Longrightarrow>
   \<exists>rss. length rss = length is
     \<and> list_all2 (\<lambda>i rs. \<exists>h. rs = batch_outcomes self ci h (take b (drop i rsrc))) is rss
     \<and> all_results = acc @ concat rss \<and> c' = c + length (concat rss)
     \<and> trace w' = trace w @ groups_trace j c (map (\<lambda>i. take b (drop i rsrc)) is) rss
     \<and> fs w' = fs w
     \<and> (\<exists>ts. length ts = length (concat rss)
           \<and> vm_analysis (db w') =
               vm_analysis (db w) @ map2 (analysis_row (platform self) j) (concat rss) ts)"
proof (induction "is" arbitrary: acc c w)
  case Nil
  then have "length ([]::result list list) = length ([]::nat list)
     \<and> list_all2 (\<lambda>i rs. \<exists>h. rs = batch_outcomes self ci h (take b (drop i rsrc))) [] []
     \<and> all_results = acc @ concat [] \<and> c' = c + length (concat ([]::result list list))
     \<and> trace w' = trace w @ groups_trace j c (map (\<lambda>i. take b (drop i rsrc)) []) []
     \<and> fs w' = fs w
     \<and> (\<exists>ts. length ts = length (concat ([]::result list list))
           \<and> vm_analysis (db w') =
               vm_analysis (db w) @ map2 (analysis_row (platform self) j) (concat []) ts)"
    by simp
  then show ?case by blast
next
  case (Cons i "is")
  let ?g = "take b (drop i rsrc)"
  let ?rs = "batch_outcomes self ci (trace w) ?g"
  let ?w1 = "w\<lparr>trace := trace w @ map AnalyzeComplete ?g\<rparr>"
  let ?c1 = "c + length ?rs"
  from Cons.prems obtain w2 w3 where
    s: "save_batch_results (platform self) j ?rs ?w1 = (Inr (), w2)" and
    u: "update_batch_job (platform self) j ?c1 Running None w2 = (Inr (), w3)" and
    rest: "process_groups self j rsrc ci b is (acc @ ?rs) ?c1 w3 = ((None, all_results, c'), w')"
    by (auto simp: process_batch_eq Let_def split: sum.splits prod.splits)
  from save_batch_results_ok [OF s] obtain ts1 where
    s_t: "trace w2 = trace ?w1 @ map (SaveVmAnalysis j) ?rs" and s_f: "fs w2 = fs ?w1"
    and s_l: "length ts1 = length ?rs"
    and s_v: "vm_analysis (db w2) = vm_analysis (db ?w1) @ map2 (analysis_row (platform self) j) ?rs ts1"
    by blast
  from update_batch_job_ok [OF u] have
    u_t: "trace w3 = trace w2 @ [UpdateBatchJob j ?c1 Running None]" and u_f: "fs w3 = fs w2"
    and u_v: "vm_analysis (db w3) = vm_analysis (db w2)"
    by simp_all
  from Cons.IH [OF rest] obtain rss ts2 where
    r_len: "length rss = length is"
    and r_all: "list_all2 (\<lambda>i rs. \<exists>h. rs = batch_outcomes self ci h (take b (drop i rsrc))) is rss"
    and r_res: "all_results = (acc @ ?rs) @ concat rss"
    and r_c: "c' = ?c1 + length (concat rss)"
    and r_t: "trace w' = trace w3 @ groups_trace j ?c1 (map (\<lambda>i. take b (drop i rsrc)) is) rss"
    and r_f: "fs w' = fs w3"
    and r_l: "length ts2 = length (concat rss)"
    and r_v: "vm_analysis (db w') =
               vm_analysis (db w3) @ map2 (analysis_row (platform self) j) (concat rss) ts2"
    by blast
  have 1: "length (?rs # rss) = length (i # is)" using r_len by simp
  have 2: "list_all2 (\<lambda>i rs. \<exists>h. rs = batch_outcomes self ci h (take b (drop i rsrc)))
             (i # is) (?rs # rss)"
    using r_all by auto
  have 3: "all_results = acc @ concat (?rs # rss)" using r_res by simp
  have 4: "c' = c + length (concat (?rs # rss))" using r_c by simp
  have 5: "trace w' = trace w @ groups_trace j c (map (\<lambda>i. take b (drop i rsrc)) (i # is)) (?rs # rss)"
    using r_t u_t s_t by simp
  have 6: "fs w' = fs w" using r_f u_f s_f by simp
  have 7: "length (ts1 @ ts2) = length (concat (?rs # rss))
      \<and> vm_analysis (db w') =
          vm_analysis (db w) @ map2 (analysis_row (platform self) j) (concat (?rs # rss)) (ts1 @ ts2)"
    using r_l r_v u_v s_l s_v by simp
  then have 8: "\<exists>ts. length ts = length (concat (?rs # rss))
      \<and> vm_analysis (db w') =
          vm_analysis (db w) @ map2 (analysis_row (platform self) j) (concat (?rs # rss)) ts"
    by blast
  from 1 2 3 4 5 6 8 show ?case by blast
qed

lemma process_groups_no_fault:
  "no_sqlite_fault (platform self) \<Longrightarrow>
   fst (fst (process_groups self j rsrc ci b is acc c w)) = None"
proof (induction "is" arbitrary: acc c w)
  case Nil
  show ?case by simp
next
  case (Cons i "is")
  let ?g = "take b (drop i rsrc)"
  let ?rs = "batch_outcomes self ci (trace w) ?g"
  let ?w1 = "w\<lparr>trace := trace w @ map AnalyzeComplete ?g\<rparr>"
  obtain w2 where s: "save_batch_results (platform self) j ?rs ?w1 = (Inr (), w2)"
    using save_batch_results_no_fault [OF Cons.prems, of j ?rs ?w1]
    by (cases "save_batch_results (platform self) j ?rs ?w1") auto
  obtain w3 where u: "update_batch_job (platform self) j (c + length ?rs) Running None w2 = (Inr (), w3)"
    using Cons.prems by (simp add: update_batch_job_cases no_sqlite_fault_def)
  from s u Cons.IH [OF Cons.prems] show ?case
    by (simp add: process_batch_eq Let_def)
qed

lemma progress_values_append [simp]:
  "progress_values (xs @ ys) = progress_values xs @ progress_values ys"
  by (induction xs rule: progress_values.induct) simp_all

lemma no_update_progress [simp]: "no_update evs \<Longrightarrow> progress_values evs = []"
  by (induction evs rule: progress_values.induct) (auto simp: no_update_def)

lemma no_update_simps [simp]:
  "no_update []"
  "no_update (map AnalyzeComplete vms)"
  "no_update (map (SaveVmAnalysis j) rs)"
  "no_update (map FsCall cs)"
  "no_update [GenerateSummary rs]"
  "no_update [SaveReport j t x]"
  "no_update [FsCall c]"
  by (auto simp: no_update_def)

lemma no_update_append [simp]: "no_update (xs @ ys) \<longleftrightarrow> no_update xs \<and> no_update ys"
  by (auto simp: no_update_def)

lemma process_groups_progress:
  "process_groups self j rsrc ci b is acc c w = ((x, all_results, c'), w') \<Longrightarrow>
   \<exists>evs. trace w' = trace w @ evs \<and> sorted (progress_values evs)
     \<and> (\<forall>v \<in> set (progress_values evs). c \<le> v \<and> v \<le> c')
     \<and> c \<le> c' \<and> c' \<le> c + sum_list (map (\<lambda>i. length (take b (drop i rsrc))) is)
     \<and> (\<forall>jj n s e. UpdateBatchJob jj n s e \<in> set evs \<longrightarrow> jj = j \<and> s = Running)"
proof (induction "is" arbitrary: acc c w)
  case Nil
  then have "trace w' = trace w @ [] \<and> c' = c" by simp
  then show ?case by force
next
  case (Cons i "is")
  let ?g = "take b (drop i rsrc)"
  let ?rs = "batch_outcomes self ci (trace w) ?g"
  let ?w1 = "w\<lparr>trace := trace w @ map AnalyzeComplete ?g\<rparr>"
  let ?c1 = "c + length ?rs"
  let ?U = "UpdateBatchJob j ?c1 Running None"
  obtain x2 w2 where s: "save_batch_results (platform self) j ?rs ?w1 = (x2, w2)"
    by force
  from save_batch_results_any [OF s] obtain k where
    s_t: "trace w2 = trace w @ map AnalyzeComplete ?g @ map (SaveVmAnalysis j) (take k ?rs)"
    by auto
  show ?case
  proof (cases x2)
    case (Inl e)
    with s Cons.prems have "w' = w2" and "c' = c"
      by (auto simp: process_batch_eq Let_def)
    with s_t have "trace w' = trace w @ (map AnalyzeComplete ?g @ map (SaveVmAnalysis j) (take k ?rs))
      \<and> no_update (map AnalyzeComplete ?g @ map (SaveVmAnalysis j) (take k ?rs)) \<and> c' = c"
      by simp
    then show ?thesis by (force simp: no_update_def)
  next
    case (Inr u2)
    with s have s': "save_batch_results (platform self) j ?rs ?w1 = (Inr (), w2)" by simp
    from save_batch_results_ok [OF s'] have
      s_t': "trace w2 = trace w @ map AnalyzeComplete ?g @ map (SaveVmAnalysis j) ?rs"
      by simp
    obtain x3 w3 where u: "update_batch_job (platform self) j ?c1 Running None w2 = (x3, w3)"
      by force
    from update_batch_job_any [OF u] s_t' have
      u_t: "trace w3 = trace w @ (map AnalyzeComplete ?g @ map (SaveVmAnalysis j) ?rs @ [?U])"
      by simp
    show ?thesis
    proof (cases x3)
      case (Inl e)
      with s' u Cons.prems have "w' = w3" and "c' = ?c1"
        by (auto simp: process_batch_eq Let_def)
      with u_t have "trace w' = trace w @ (map AnalyzeComplete ?g @ map (SaveVmAnalysis j) ?rs @ [?U])
        \<and> progress_values (map AnalyzeComplete ?g @ map (SaveVmAnalysis j) ?rs @ [?U]) = [c']
        \<and> c \<le> c' \<and> c' \<le> c + sum_list (map (\<lambda>i. length (take b (drop i rsrc))) (i # is))
        \<and> (\<forall>jj n s e. UpdateBatchJob jj n s e \<in> set (map AnalyzeComplete ?g @ map (SaveVmAnalysis j) ?rs @ [?U])
              \<longrightarrow> jj = j \<and> s = Running)"
        by auto
      then show ?thesis by (intro exI [of _ "map AnalyzeComplete ?g @ map (SaveVmAnalysis j) ?rs @ [?U]"]) simp
    next
      case (Inr u3)
      with s' u Cons.prems have
        rest: "process_groups self j rsrc ci b is (acc @ ?rs) ?c1 w3 = ((x, all_results, c'), w')"
        by (auto simp: process_batch_eq Let_def)
      from Cons.IH [OF rest] obtain evs where
        r_t: "trace w' = trace w3 @ evs" and r_s: "sorted (progress_values evs)"
        and r_b: "\<forall>v \<in> set (progress_values evs). ?c1 \<le> v \<and> v \<le> c'"
        and r_c: "?c1 \<le> c'" "c' \<le> ?c1 + sum_list (map (\<lambda>i. length (take b (drop i rsrc))) is)"
        and r_j: "\<forall>jj n s e. UpdateBatchJob jj n s e \<in> set evs \<longrightarrow> jj = j \<and> s = Running"
        by blast
      let ?evs = "map AnalyzeComplete ?g @ map (SaveVmAnalysis j) ?rs @ [?U] @ evs"
      have 1: "trace w' = trace w @ ?evs" using r_t u_t by simp
      have pv: "progress_values ?evs = ?c1 # progress_values evs" by simp
      have 2: "sorted (progress_values ?evs)" using r_s r_b by (simp add: pv)
      have 3: "\<forall>v \<in> set (progress_values ?evs). c \<le> v \<and> v \<le> c'"
        using r_b r_c by (auto simp: pv)
      have 4: "c \<le> c' \<and> c' \<le> c + sum_list (map (\<lambda>i. length (take b (drop i rsrc))) (i # is))"
        using r_c by simp
      have 5: "\<forall>jj n s e. UpdateBatchJob jj n s e \<in> set ?evs \<longrightarrow> jj = j \<and> s = Running"
        using r_j by auto
      from 1 2 3 4 5 show ?thesis by blast
    qed
  qed
qed

lemma process_groups_prefix:
  "process_groups self j rsrc ci b is acc c w = (out, w') \<Longrightarrow>
   \<exists>evs rss. trace w' = trace w @ evs \<and> length rss = length is
     \<and> list_all2 (\<lambda>i rs. map vm_of rs = take b (drop i rsrc)) is rss
     \<and> prefix evs (groups_trace j c (map (\<lambda>i. take b (drop i rsrc)) is) rss)"
proof (induction "is" arbitrary: acc c w)
  case Nil
  then have "trace w' = trace w @ [] \<and> length ([] :: result list list) = length ([] :: nat list)
     \<and> list_all2 (\<lambda>i rs. map vm_of rs = take b (drop i rsrc)) [] []
     \<and> prefix [] (groups_trace j c (map (\<lambda>i. take b (drop i rsrc)) []) [])"
    by simp
  then show ?case by blast
next
  case (Cons i "is")
  let ?sl = "\<lambda>i. take b (drop i rsrc)"
  let ?g = "?sl i"
  let ?rs = "batch_outcomes self ci (trace w) ?g"
  let ?w1 = "w\<lparr>trace := trace w @ map AnalyzeComplete ?g\<rparr>"
  let ?c1 = "c + length ?rs"
  let ?U = "UpdateBatchJob j ?c1 Running None"
  let ?any = "map (\<lambda>i. batch_outcomes self ci [] (?sl i)) is"
  have any: "length ?any = length is \<and> list_all2 (\<lambda>i rs. map vm_of rs = ?sl i) is ?any"
    by (simp add: list_all2_conv_all_nth)
  obtain x2 w2 where s: "save_batch_results (platform self) j ?rs ?w1 = (x2, w2)"
    by force
  from save_batch_results_any [OF s] obtain k where
    s_t: "trace w2 = trace w @ map AnalyzeComplete ?g @ map (SaveVmAnalysis j) (take k ?rs)"
    by auto
  show ?case
  proof (cases x2)
    case (Inl e)
    with s Cons.prems have "w' = w2"
      by (auto simp: process_batch_eq Let_def)
    with s_t have 1: "trace w' = trace w @ (map AnalyzeComplete ?g @ take k (map (SaveVmAnalysis j) ?rs))"
      by (simp add: take_map)
    have 2: "prefix (map AnalyzeComplete ?g @ take k (map (SaveVmAnalysis j) ?rs))
               (groups_trace j c (map ?sl (i # is)) (?rs # ?any))"
      by (simp add: take_is_prefix prefix_prefix)
    have 3: "length (?rs # ?any) = length (i # is)
        \<and> list_all2 (\<lambda>i rs. map vm_of rs = ?sl i) (i # is) (?rs # ?any)"
      using any by simp
    from 1 2 3 show ?thesis by blast
  next
    case (Inr u2)
    with s have s': "save_batch_results (platform self) j ?rs ?w1 = (Inr (), w2)" by simp
    from save_batch_results_ok [OF s'] have
      s_t': "trace w2 = trace w @ map AnalyzeComplete ?g @ map (SaveVmAnalysis j) ?rs"
      by simp
    obtain x3 w3 where u: "update_batch_job (platform self) j ?c1 Running None w2 = (x3, w3)"
      by force
    from update_batch_job_any [OF u] s_t' have
      u_t: "trace w3 = trace w @ (map AnalyzeComplete ?g @ map (SaveVmAnalysis j) ?rs @ [?U])"
      by simp
    show ?thesis
    proof (cases x3)
      case (Inl e)
      with s' u Cons.prems have "w' = w3"
        by (auto simp: process_batch_eq Let_def)
      with u_t have 1: "trace w' = trace w @ (map AnalyzeComplete ?g @ map (SaveVmAnalysis j) ?rs @ [?U])"
        by simp
      have 2: "prefix (map AnalyzeComplete ?g @ map (SaveVmAnalysis j) ?rs @ [?U])
               (groups_trace j c (map ?sl (i # is)) (?rs # ?any))"
        by simp
      have 3: "length (?rs # ?any) = length (i # is)
        \<and> list_all2 (\<lambda>i rs. map vm_of rs = ?sl i) (i # is) (?rs # ?any)"
        using any by simp
      from 1 2 3 show ?thesis by blast
    next
      case (Inr u3)
      with s' u Cons.prems have
        rest: "process_groups self j rsrc ci b is (acc @ ?rs) ?c1 w3 = (out, w')"
        by (auto simp: process_batch_eq Let_def)
      from Cons.IH [OF rest] obtain evs rss where
        r_t: "trace w' = trace w3 @ evs" and r_l: "length rss = length is"
        and r_a: "list_all2 (\<lambda>i rs. map vm_of rs = ?sl i) is rss"
        and r_p: "prefix evs (groups_trace j ?c1 (map ?sl is) rss)"
        by blast
      let ?evs = "map AnalyzeComplete ?g @ map (SaveVmAnalysis j) ?rs @ [?U] @ evs"
      have 1: "trace w' = trace w @ ?evs" using r_t u_t by simp
      have 2: "prefix ?evs (groups_trace j c (map ?sl (i # is)) (?rs # rss))"
        using r_p by simp
      have 3: "length (?rs # rss) = length (i # is)
        \<and> list_all2 (\<lambda>i rs. map vm_of rs = ?sl i) (i # is) (?rs # rss)"
        using r_l r_a by simp
      from 1 2 3 show ?thesis by blast
    qed
  qed
qed

lemma os_calls_any:
  "os_calls pf cs w = (x, w') \<Longrightarrow>
   db w' = db w \<and> (\<exists>k. trace w' = trace w @ map FsCall (take k cs))"
proof (induction cs arbitrary: w)
  case Nil
  then show ?case by simp
next
  case (Cons c cs)
  obtain x1 w1 where a: "os_call pf c w = (x1, w1)" by force
  then have t1: "trace w1 = trace w @ [FsCall c]" and d1: "db w1 = db w"
    using os_call_trace [of pf c w] os_call_db [of pf c w] by simp_all
  show ?case
  proof (cases x1)
    case (Inl e)
    with a Cons.prems have "w' = w1" by simp
    with t1 d1 have "db w' = db w \<and> trace w' = trace w @ map FsCall (take 1 (c # cs))" by simp
    then show ?thesis by blast
  next
    case (Inr u)
    with a Cons.prems have "os_calls pf cs w1 = (x, w')" by simp
    from Cons.IH [OF this] t1 d1 obtain k where
      "db w' = db w \<and> trace w' = trace w @ map FsCall (take (Suc k) (c # cs))" by auto
    then show ?thesis by blast
  qed
qed

lemma os_calls_ok:
  "os_calls pf cs w = (Inr u, w') \<Longrightarrow> trace w' = trace w @ map FsCall cs"
proof (induction cs arbitrary: w)
  case Nil
  then show ?case by simp
next
  case (Cons c cs)
  then obtain w1 where a: "os_call pf c w = (Inr (), w1)" and r: "os_calls pf cs w1 = (Inr u, w')"
    by (auto split: sum.splits prod.splits)
  from a have "trace w1 = trace w @ [FsCall c]"
    using os_call_trace [of pf c w] by simp
  with Cons.IH [OF r] show ?case by simp
qed

section \<open>The row of the job\<close>

lemma job_kept_refl [simp]: "job_kept j w w"
  by (simp add: job_kept_def)

lemma job_kept_trans: "job_kept j w w1 \<Longrightarrow> job_kept j w1 w2 \<Longrightarrow> job_kept j w w2"
  by (fastforce simp: job_kept_def)

lemma job_kept_same_jobs: "batch_jobs (db w') = batch_jobs (db w) \<Longrightarrow> job_kept j w w'"
  by (simp add: job_kept_def)

lemma keeps_and_then:
  "keeps_job j m \<Longrightarrow> (\<And>y. keeps_job j (f y)) \<Longrightarrow> keeps_job j (and_then m f)"
  unfolding keeps_job_def
proof
  fix w
  assume m: "\<forall>w. job_kept j w (snd (m w))" and f: "\<And>y. \<forall>w. job_kept j w (snd (f y w))"
  obtain x w1 where mw: "m w = (x, w1)" by force
  from m mw have k1: "job_kept j w w1" by (metis snd_conv)
  show "job_kept j w (snd (and_then m f w))"
  proof (cases x)
    case (Inl e)
    with mw k1 show ?thesis by (simp add: and_then_def)
  next
    case (Inr y)
    from f have "job_kept j w1 (snd (f y w1))" by simp
    with k1 mw Inr show ?thesis by (auto simp: and_then_def intro: job_kept_trans)
  qed
qed

lemma keeps_os_call [simp]: "keeps_job j (os_call pf c)"
  by (simp add: keeps_job_def job_kept_same_jobs)

lemma keeps_os_calls [simp]: "keeps_job j (os_calls pf cs)"
  by (simp add: keeps_job_def job_kept_same_jobs)

lemma keeps_save_vm_analysis [simp]: "keeps_job j (save_vm_analysis pf j' r)"
  by (auto simp: keeps_job_def save_vm_analysis_cases job_kept_def split: option.splits)

lemma keeps_save_report [simp]: "keeps_job j (save_infrastructure_report pf j' t x)"
  by (auto simp: keeps_job_def save_infrastructure_report_def sqlite_call_cases job_kept_def
      split: option.splits)

lemma keeps_update [simp]: "keeps_job j (update_batch_job pf j' c s e)"
  by (auto simp: keeps_job_def update_batch_job_cases job_kept_def update_row_def
      split: option.splits)

lemma keeps_summary [simp]: "keeps_job j (summary_call self rs ci)"
  by (simp add: keeps_job_def summary_call_def job_kept_same_jobs)

lemma keeps_finish [simp]: "keeps_job j (finish_analysis self j' rs c ci dir)"
  by (simp add: finish_analysis_def keeps_and_then save_individual_outputs_def
      generate_consolidated_outputs_def)

lemma keeps_save_batch_results [simp]: "keeps_job j (save_batch_results pf j' rs)"
  unfolding keeps_job_def
proof (induction rs)
  case Nil
  show ?case by simp
next
  case (Cons r rs)
  show ?case
  proof
    fix w
    obtain x w1 where a: "save_vm_analysis pf j' r w = (x, w1)" by force
    have k1: "job_kept j w w1"
      using keeps_save_vm_analysis [of j pf j' r] a by (metis keeps_job_def snd_conv)
    show "job_kept j w (snd (save_batch_results pf j' (r # rs) w))"
    proof (cases x)
      case (Inl e)
      with a k1 show ?thesis by simp
    next
      case (Inr u)
      from Cons.IH have "job_kept j w1 (snd (save_batch_results pf j' rs w1))" by simp
      with a Inr k1 show ?thesis by (auto intro: job_kept_trans)
    qed
  qed
qed

lemma keeps_process_groups [simp]:
  "keeps_job j (process_groups self j' rsrc ci b is acc c)"
  unfolding keeps_job_def
proof (induction "is" arbitrary: acc c)
  case Nil
  show ?case by simp
next
  case (Cons i "is")
  show ?case
  proof
    fix w :: world
    let ?g = "take b (drop i rsrc)"
    let ?rs = "batch_outcomes self ci (trace w) ?g"
    let ?w1 = "w\<lparr>trace := trace w @ map AnalyzeComplete ?g\<rparr>"
    let ?c1 = "c + length ?rs"
    obtain x2 w2 where s: "save_batch_results (platform self) j' ?rs ?w1 = (x2, w2)"
      by force
    have "job_kept j ?w1 w2"
      using keeps_save_batch_results [of j "platform self" j' ?rs] s by (metis keeps_job_def snd_conv)
    then have k2: "job_kept j w w2" by (simp add: job_kept_def)
    show "job_kept j w (snd (process_groups self j' rsrc ci b (i # is) acc c w))"
    proof (cases x2)
      case (Inl e)
      with s k2 show ?thesis by (simp add: process_batch_eq Let_def)
    next
      case (Inr u2)
      obtain x3 w3 where u: "update_batch_job (platform self) j' ?c1 Running None w2 = (x3, w3)"
        by force
      have "job_kept j w2 w3"
        using keeps_update [of j "platform self" j' ?c1 Running None] u
        by (metis keeps_job_def snd_conv)
      with k2 have k3: "job_kept j w w3" by (rule job_kept_trans)
      show ?thesis
      proof (cases x3)
        case (Inl e)
        with s Inr u k3 show ?thesis by (simp add: process_batch_eq Let_def)
      next
        case (Inr u3)
        from Cons.IH have "job_kept j w3 (snd (process_groups self j' rsrc ci b is (acc @ ?rs) ?c1 w3))"
          by simp
        with k3 have "job_kept j w (snd (process_groups self j' rsrc ci b is (acc @ ?rs) ?c1 w3))"
          by (rule job_kept_trans)
        with s \<open>x2 = Inr u2\<close> u Inr show ?thesis by (simp add: process_batch_eq Let_def)
      qed
    qed
  qed
qed

lemma keeps_try_block [simp]: "keeps_job j (try_block self j' rsrc ci dir)"
  unfolding keeps_job_def
proof
  fix w
  show "job_kept j w (snd (try_block self j' rsrc ci dir w))"
  proof (cases "py_range (length rsrc) (batch_size (settings self))")
    case (Inl e)
    then show ?thesis by (simp add: try_block_def)
  next
    case (Inr indices)
    obtain x all_results c w1 where
      p: "process_groups self j' rsrc ci (nat (batch_size (settings self))) indices [] 0 w
            = ((x, all_results, c), w1)"
      by (metis prod_cases3 surj_pair)
    have k1: "job_kept j w w1"
      using keeps_process_groups [of j self j' rsrc ci "nat (batch_size (settings self))" indices "[]" 0] p
      by (metis keeps_job_def snd_conv)
    show ?thesis
    proof (cases x)
      case (Some e)
      with Inr p k1 show ?thesis by (simp add: try_block_def)
    next
      case None
      have "job_kept j w1 (snd (finish_analysis self j' all_results c ci dir w1))"
        using keeps_finish [of j self j' all_results c ci dir] by (simp add: keeps_job_def)
      with k1 have "job_kept j w (snd (finish_analysis self j' all_results c ci dir w1))"
        by (rule job_kept_trans)
      with Inr p None show ?thesis
        by (cases "finish_analysis self j' all_results c ci dir w1") (simp add: try_block_def)
    qed
  qed
qed

section \<open>The try statement\<close>

lemma final_update_append: "no_update a \<Longrightarrow> final_update j c b \<Longrightarrow> final_update j c (a @ b)"
  by (fastforce simp: final_update_def)

lemma emits_and_then_final:
  assumes "emits no_update m" and "\<And>y. emits (final_update j c) (f y)"
  shows "emits (final_update j c) (and_then m f)"
  unfolding emits_def
proof
  fix w
  obtain x w1 where mw: "m w = (x, w1)" by force
  from assms(1) mw obtain a where a: "trace w1 = trace w @ a" "no_update a"
    unfolding emits_def by (metis snd_conv)
  show "\<exists>evs. trace (snd (and_then m f w)) = trace w @ evs \<and> final_update j c evs"
  proof (cases x)
    case (Inl e)
    with mw a have "trace (snd (and_then m f w)) = trace w @ a \<and> final_update j c a"
      by (simp add: and_then_def final_update_def)
    then show ?thesis by blast
  next
    case (Inr y)
    from assms(2) [of y] obtain b where b: "trace (snd (f y w1)) = trace w1 @ b" "final_update j c b"
      unfolding emits_def by blast
    with mw a Inr have "trace (snd (and_then m f w)) = trace w @ (a @ b) \<and> final_update j c (a @ b)"
      by (simp add: and_then_def final_update_append)
    then show ?thesis by blast
  qed
qed

lemma emits_os_call [simp]: "emits no_update (os_call pf c)"
  unfolding emits_def by (metis os_call_trace no_update_simps(7))

lemma emits_os_calls [simp]: "emits no_update (os_calls pf cs)"
  unfolding emits_def
proof
  fix w
  obtain x w' where a: "os_calls pf cs w = (x, w')" by force
  from os_calls_any [OF a] obtain k where "trace w' = trace w @ map FsCall (take k cs)" by blast
  with a have "trace (snd (os_calls pf cs w)) = trace w @ map FsCall (take k cs)
      \<and> no_update (map FsCall (take k cs))" by simp
  then show "\<exists>evs. trace (snd (os_calls pf cs w)) = trace w @ evs \<and> no_update evs" by blast
qed

lemma emits_summary [simp]: "emits no_update (summary_call self rs ci)"
  unfolding emits_def
proof
  fix w
  have "trace (snd (summary_call self rs ci w)) = trace w @ [GenerateSummary rs]
      \<and> no_update [GenerateSummary rs]"
    by (simp add: summary_call_def)
  then show "\<exists>evs. trace (snd (summary_call self rs ci w)) = trace w @ evs \<and> no_update evs"
    by blast
qed

lemma emits_save_report [simp]: "emits no_update (save_infrastructure_report pf j t x)"
  unfolding emits_def
proof
  fix w
  have "trace (snd (save_infrastructure_report pf j t x w)) = trace w @ [SaveReport j t x]
      \<and> no_update [SaveReport j t x]"
    by (simp add: save_infrastructure_report_def)
  then show "\<exists>evs. trace (snd (save_infrastructure_report pf j t x w)) = trace w @ evs \<and> no_update evs"
    by blast
qed

lemma emits_completed [simp]: "emits (final_update j c) (update_batch_job pf j c Completed None)"
  unfolding emits_def
proof
  fix w
  have "trace (snd (update_batch_job pf j c Completed None w))
          = trace w @ ([] @ [UpdateBatchJob j c Completed None]) \<and> no_update []"
    by (simp add: update_batch_job_def)
  then show "\<exists>evs. trace (snd (update_batch_job pf j c Completed None w)) = trace w @ evs
      \<and> final_update j c evs"
    unfolding final_update_def by blast
qed

lemma emits_finish: "emits (final_update j c) (finish_analysis self j rs c ci dir)"
  by (simp add: finish_analysis_def emits_and_then_final save_individual_outputs_def
      generate_consolidated_outputs_def)

lemma final_update_progress:
  "final_update j c evs \<Longrightarrow>
   (progress_values evs = [] \<or> progress_values evs = [c])
   \<and> (\<forall>jj n s e. UpdateBatchJob jj n s e \<in> set evs \<longrightarrow> jj = j \<and> n = c \<and> s = Completed)"
  by (auto simp: final_update_def no_update_def)

lemma py_range_slices_bound:
  assumes "py_range (length xs) step = Inr indices"
  shows "sum_list (map (\<lambda>i. length (take (nat step) (drop i xs))) indices) \<le> length xs"
proof (cases "0 < step")
  case True
  with assms have eq: "groups_formed step xs = map (\<lambda>i. take (nat step) (drop i xs)) indices"
    by (simp add: groups_formed_def)
  have "length (concat (groups_formed step xs))
      = sum_list (map (\<lambda>i. length (take (nat step) (drop i xs))) indices)"
    unfolding eq by (simp add: length_concat comp_def)
  with True show ?thesis by (simp add: groups_formed_concat)
next
  case False
  with assms have "indices = []" by (auto simp: py_range_def split: if_splits)
  then show ?thesis by simp
qed

lemma try_block_progress:
  assumes "try_block self j rsrc ci dir w = ((r, c), w')"
  shows "\<exists>evs. trace w' = trace w @ evs \<and> sorted (progress_values evs)
     \<and> (\<forall>v \<in> set (progress_values evs). v \<le> c) \<and> c \<le> length rsrc
     \<and> (\<forall>jj n s e. UpdateBatchJob jj n s e \<in> set evs \<longrightarrow> jj = j \<and> s \<noteq> Failed)"
proof (cases "py_range (length rsrc) (batch_size (settings self))")
  case (Inl e)
  with assms have "trace w' = trace w @ [] \<and> c = 0" by (simp add: try_block_def)
  then show ?thesis by force
next
  case (Inr indices)
  let ?b = "nat (batch_size (settings self))"
  obtain x all_results c1 w1 where
    p: "process_groups self j rsrc ci ?b indices [] 0 w = ((x, all_results, c1), w1)"
    by (metis prod_cases3 surj_pair)
  from process_groups_progress [OF p] py_range_slices_bound [OF Inr] obtain evs where
    t1: "trace w1 = trace w @ evs" and s1: "sorted (progress_values evs)"
    and b1: "\<forall>v \<in> set (progress_values evs). v \<le> c1" and c1: "c1 \<le> length rsrc"
    and j1: "\<forall>jj n s e. UpdateBatchJob jj n s e \<in> set evs \<longrightarrow> jj = j \<and> s = Running"
    by fastforce
  show ?thesis
  proof (cases x)
    case (Some e)
    with Inr p assms have "w' = w1" "c = c1" by (simp_all add: try_block_def)
    with t1 s1 b1 c1 j1 show ?thesis by blast
  next
    case None
    obtain r2 w2 where f: "finish_analysis self j all_results c1 ci dir w1 = (r2, w2)" by force
    with Inr p None assms have eq: "w' = w2" "c = c1" by (simp_all add: try_block_def)
    from emits_finish [of j c1 self all_results ci dir] f obtain evs2 where
      t2: "trace w2 = trace w1 @ evs2" and fu: "final_update j c1 evs2"
      unfolding emits_def by (metis snd_conv)
    from final_update_progress [OF fu] have
      p2: "progress_values evs2 = [] \<or> progress_values evs2 = [c1]"
      and j2: "\<forall>jj n s e. UpdateBatchJob jj n s e \<in> set evs2 \<longrightarrow> jj = j \<and> n = c1 \<and> s = Completed"
      by blast+
    have 1: "trace w' = trace w @ (evs @ evs2)" using t1 t2 eq by simp
    have 2: "sorted (progress_values (evs @ evs2))"
      using s1 b1 p2 by (auto simp: sorted_append)
    have 3: "\<forall>v \<in> set (progress_values (evs @ evs2)). v \<le> c"
      using b1 p2 eq by auto
    have 4: "\<forall>jj n s e. UpdateBatchJob jj n s e \<in> set (evs @ evs2) \<longrightarrow> jj = j \<and> s \<noteq> Failed"
    proof (intro allI impI)
      fix jj n s e
      assume "UpdateBatchJob jj n s e \<in> set (evs @ evs2)"
      then consider "UpdateBatchJob jj n s e \<in> set evs" | "UpdateBatchJob jj n s e \<in> set evs2"
        by auto
      then show "jj = j \<and> s \<noteq> Failed"
      proof cases
        case 1
        with j1 have "jj = j \<and> s = Running" by blast
        then show ?thesis by simp
      next
        case 2
        with j2 have "jj = j \<and> s = Completed" by blast
        then show ?thesis by simp
      qed
    qed
    from 1 2 3 4 c1 eq show ?thesis by blast
  qed
qed

lemma try_except_progress:
  assumes "try_except self j rsrc ci dir w = (out, w')"
  shows "\<exists>evs. trace w' = trace w @ evs \<and> sorted (progress_values evs)
     \<and> (\<forall>v \<in> set (progress_values evs). v \<le> length rsrc)
     \<and> (\<forall>jj n s e. UpdateBatchJob jj n s e \<in> set evs \<longrightarrow> jj = j)"
proof -
  obtain r c w1 where t: "try_block self j rsrc ci dir w = ((r, c), w1)"
    by (metis surj_pair)
  from try_block_progress [OF t] obtain evs where
    t1: "trace w1 = trace w @ evs" and s1: "sorted (progress_values evs)"
    and b1: "\<forall>v \<in> set (progress_values evs). v \<le> c" and c1: "c \<le> length rsrc"
    and j1: "\<forall>jj n s e. UpdateBatchJob jj n s e \<in> set evs \<longrightarrow> jj = j \<and> s \<noteq> Failed"
    by blast
  show ?thesis
  proof (cases r)
    case (Inr u)
    with t assms have "w' = w1" by (simp add: try_except_def)
    with t1 s1 b1 c1 j1 show ?thesis by fastforce
  next
    case (Inl e)
    obtain x2 w2 where u: "update_batch_job (platform self) j c Failed (Some e) w1 = (x2, w2)"
      by force
    with t Inl assms have "w' = w2" by (auto simp: try_except_def split: sum.splits)
    with update_batch_job_any [OF u] t1 have
      1: "trace w' = trace w @ (evs @ [UpdateBatchJob j c Failed (Some e)])" by simp
    have 2: "sorted (progress_values (evs @ [UpdateBatchJob j c Failed (Some e)]))"
      using s1 b1 by (auto simp: sorted_append)
    have 3: "\<forall>v \<in> set (progress_values (evs @ [UpdateBatchJob j c Failed (Some e)])). v \<le> length rsrc"
      using b1 c1 by auto
    have 4: "\<forall>jj n s e'. UpdateBatchJob jj n s e' \<in> set (evs @ [UpdateBatchJob j c Failed (Some e)])
        \<longrightarrow> jj = j"
      using j1 by auto
    from 1 2 3 4 show ?thesis by blast
  qed
qed

lemma os_call_ok:
  "os_call pf c w = (Inr u, w') \<Longrightarrow>
   trace w' = trace w @ [FsCall c] \<and> db w' = db w \<and> fs_apply c (fs w) = Inr (fs w')"
  by (auto simp: os_call_def Let_def split: option.splits sum.splits)

lemma save_report_ok:
  "save_infrastructure_report pf j t x w = (Inr u, w') \<Longrightarrow>
   trace w' = trace w @ [SaveReport j t x] \<and> fs w' = fs w
   \<and> batch_jobs (db w') = batch_jobs (db w) \<and> vm_analysis (db w') = vm_analysis (db w)"
  by (auto simp: save_infrastructure_report_def sqlite_call_cases split: option.splits)

lemma run_ops_append:
  "run_ops (cs @ ds) s = (case run_ops cs s of Inl e \<Rightarrow> Inl e | Inr s1 \<Rightarrow> run_ops ds s1)"
  by (induction cs arbitrary: s) (auto split: sum.splits)

lemma finish_analysis_ok:
  assumes "finish_analysis self j rs c ci dir w = (Inr u, w')"
  shows "\<exists>summary w5.
     run_ops (save_individual_outputs_calls self j rs dir
              @ [WriteText (dir @ [''infrastructure_summary.md'']) summary]
              @ generate_consolidated_outputs_calls self j rs dir) (fs w) = Inr (fs w')
     \<and> trace w5 = trace w @ map FsCall (save_individual_outputs_calls self j rs dir)
          @ [GenerateSummary rs, SaveReport j ''summary'' summary,
             FsCall (WriteText (dir @ [''infrastructure_summary.md'']) summary)]
          @ map FsCall (generate_consolidated_outputs_calls self j rs dir)
     \<and> update_batch_job (platform self) j c Completed None w5 = (Inr (), w')
     \<and> batch_jobs (db w5) = batch_jobs (db w) \<and> vm_analysis (db w5) = vm_analysis (db w)"
proof -
  from assms obtain w1 summary w2 w3 w4 w5 where
    a1: "os_calls (platform self) (save_individual_outputs_calls self j rs dir) w = (Inr (), w1)" and
    a2: "summary_call self rs ci w1 = (Inr summary, w2)" and
    a3: "save_infrastructure_report (platform self) j ''summary'' summary w2 = (Inr (), w3)" and
    a4: "os_call (platform self) (WriteText (dir @ [''infrastructure_summary.md'']) summary) w3
           = (Inr (), w4)" and
    a5: "os_calls (platform self) (generate_consolidated_outputs_calls self j rs dir) w4 = (Inr (), w5)" and
    a6: "update_batch_job (platform self) j c Completed None w5 = (Inr (), w')"
    by (auto simp: finish_analysis_def and_then_def save_individual_outputs_def
        generate_consolidated_outputs_def split: sum.splits prod.splits)
  from a2 have s2: "trace w2 = trace w1 @ [GenerateSummary rs]" "fs w2 = fs w1" "db w2 = db w1"
    by (auto simp: summary_call_def)
  have d1: "db w1 = db w" using os_calls_db [of "platform self" _ w] a1 by (metis snd_conv)
  have d5: "db w5 = db w4" using os_calls_db [of "platform self" _ w4] a5 by (metis snd_conv)
  note o1 = os_calls_ok [OF a1] os_calls_run_ops [OF a1]
  note o3 = save_report_ok [OF a3]
  note o4 = os_call_ok [OF a4]
  note o5 = os_calls_ok [OF a5] os_calls_run_ops [OF a5]
  note o6 = update_batch_job_ok [OF a6]
  have fs: "run_ops (save_individual_outputs_calls self j rs dir
              @ [WriteText (dir @ [''infrastructure_summary.md'']) summary]
              @ generate_consolidated_outputs_calls self j rs dir) (fs w) = Inr (fs w')"
    using o1(2) s2(2) o3 o4 o5(2) o6 by (simp add: run_ops_append)
  have tr: "trace w5 = trace w @ map FsCall (save_individual_outputs_calls self j rs dir)
          @ [GenerateSummary rs, SaveReport j ''summary'' summary,
             FsCall (WriteText (dir @ [''infrastructure_summary.md'']) summary)]
          @ map FsCall (generate_consolidated_outputs_calls self j rs dir)"
    using o1(1) s2(1) o3 o4 o5(1) by simp
  have jb: "batch_jobs (db w5) = batch_jobs (db w) \<and> vm_analysis (db w5) = vm_analysis (db w)"
    using d1 s2(3) o3 o4 d5 by simp
  from fs tr a6 jb show ?thesis by blast
qed

lemma try_block_completed:
  assumes "try_block self j rsrc ci dir w = ((Inr u, c), w')"
    and "batch_jobs (db w) j = Some row"
  shows "\<exists>row'. batch_jobs (db w') j = Some row' \<and> status row' = Completed
     \<and> processed_vms row' = c \<and> total_vms row' = total_vms row
     \<and> completed_at row' \<noteq> None
     \<and> length (vm_analysis (db w')) = length (vm_analysis (db w)) + c
     \<and> trace w' \<noteq> [] \<and> last (trace w') = UpdateBatchJob j c Completed None"
proof -
  let ?b = "nat (batch_size (settings self))"
  from assms(1) obtain indices all_results w1 where
    p: "process_groups self j rsrc ci ?b indices [] 0 w = ((None, all_results, c), w1)" and
    f: "finish_analysis self j all_results c ci dir w1 = (Inr u, w')"
    by (auto simp: try_block_def split: sum.splits prod.splits option.splits)
  from process_groups_complete [OF p] obtain rss ts where
    c: "c = length (concat rss)" and l: "length ts = length (concat rss)"
    and v: "vm_analysis (db w1) = vm_analysis (db w) @ map2 (analysis_row (platform self) j) (concat rss) ts"
    by auto
  have "job_kept j w w1"
    using keeps_process_groups [of j self j rsrc ci ?b indices "[]" 0] p
    by (metis keeps_job_def snd_conv)
  with assms(2) obtain row1 where r1: "batch_jobs (db w1) j = Some row1"
    and t1: "total_vms row1 = total_vms row"
    by (auto simp: job_kept_def)
  from finish_analysis_ok [OF f] obtain w5 where
    u: "update_batch_job (platform self) j c Completed None w5 = (Inr (), w')"
    and b5: "batch_jobs (db w5) = batch_jobs (db w1)" and v5: "vm_analysis (db w5) = vm_analysis (db w1)"
    by blast
  from update_batch_job_ok [OF u] r1 b5 have
    "batch_jobs (db w') j = Some (update_row c Completed None (length (trace w5)) row1)"
    and "vm_analysis (db w') = vm_analysis (db w5)"
    and "trace w' = trace w5 @ [UpdateBatchJob j c Completed None]"
    by simp_all
  with t1 v5 v l c show ?thesis by (simp add: update_row_def)
qed

lemma try_except_outcome:
  assumes "batch_jobs (db w) j = Some row"
  shows "case try_except self j rsrc ci dir w of
           (Inr res, w') \<Rightarrow>
             res = Some j
             \<and> (\<exists>row'. batch_jobs (db w') j = Some row' \<and> status row' = Completed
                  \<and> total_vms row' = total_vms row
                  \<and> length (vm_analysis (db w')) = length (vm_analysis (db w)) + processed_vms row'
                  \<and> last (trace w') = UpdateBatchJob j (processed_vms row') Completed None)
         | (Inl e, w') \<Rightarrow>
             (\<exists>row' c e0. batch_jobs (db w') j = Some row' \<and> total_vms row' = total_vms row
                \<and> trace w' \<noteq> [] \<and> last (trace w') = UpdateBatchJob j c Failed (Some e0)
                \<and> (status row' = Failed \<and> error_message row' = Some e \<and> e0 = e
                      \<and> processed_vms row' = c
                    \<or> sqlite_fault (platform self) (butlast (trace w')) (last (trace w')) = Some e))"
proof -
  obtain r c w1 where t: "try_block self j rsrc ci dir w = ((r, c), w1)"
    by (metis surj_pair)
  show ?thesis
  proof (cases r)
    case (Inr u)
    with t have te: "try_except self j rsrc ci dir w = (Inr (Some j), w1)"
      by (simp add: try_except_def)
    from try_block_completed [OF t [unfolded Inr] assms] te show ?thesis by auto
  next
    case (Inl e0)
    have "job_kept j w w1"
      using keeps_try_block [of j self j rsrc ci dir] t by (metis keeps_job_def snd_conv)
    with assms obtain row1 where r1: "batch_jobs (db w1) j = Some row1"
      and t1: "total_vms row1 = total_vms row"
      by (auto simp: job_kept_def)
    let ?U = "UpdateBatchJob j c Failed (Some e0)"
    show ?thesis
    proof (cases "sqlite_fault (platform self) (trace w1) ?U")
      case None
      let ?w2 = "w1\<lparr>trace := trace w1 @ [?U],
                  db := (db w1)\<lparr>batch_jobs := (batch_jobs (db w1))
                          (j \<mapsto> update_row c Failed (Some e0) (length (trace w1)) row1)\<rparr>\<rparr>"
      from None r1 have "update_batch_job (platform self) j c Failed (Some e0) w1 = (Inr (), ?w2)"
        by (simp add: update_batch_job_cases)
      with t Inl have "try_except self j rsrc ci dir w = (Inl e0, ?w2)"
        by (simp add: try_except_def)
      moreover have "batch_jobs (db ?w2) j = Some (update_row c Failed (Some e0) (length (trace w1)) row1)"
        by simp
      ultimately show ?thesis using t1 by (simp add: update_row_def)
    next
      case (Some e')
      let ?w2 = "w1\<lparr>trace := trace w1 @ [?U]\<rparr>"
      from Some have "update_batch_job (platform self) j c Failed (Some e0) w1 = (Inl e', ?w2)"
        by (simp add: update_batch_job_cases)
      with t Inl have "try_except self j rsrc ci dir w = (Inl e', ?w2)"
        by (simp add: try_except_def)
      then show ?thesis using r1 t1 Some by simp
    qed
  qed
qed

lemma groups_trace_matching:
  "list_all2 (\<lambda>i rs. \<exists>h. rs = batch_outcomes self ci h (f i)) is rss \<Longrightarrow>
   list_all2 (\<lambda>g rs. map vm_of rs = g) (map f is) rss"
  by (simp add: list_all2_map1) (erule list_all2_mono, auto)

lemma handler_rest:
  assumes "try_block self j rsrc ci dir w = ((r, c), w2)"
    and "trace w2 = trace w1 @ evs2"
    and "\<forall>jj n s e. UpdateBatchJob jj n s e \<in> set evs2 \<longrightarrow> s = Completed"
  shows "\<exists>rest. trace (snd (try_except self j rsrc ci dir w)) = trace w1 @ rest
      \<and> (\<forall>jj n s e. UpdateBatchJob jj n s e \<in> set rest \<longrightarrow> s \<noteq> Running)"
proof (cases r)
  case (Inr u)
  with assms(1) have "snd (try_except self j rsrc ci dir w) = w2" by (simp add: try_except_def)
  moreover have "\<forall>jj n s e. UpdateBatchJob jj n s e \<in> set evs2 \<longrightarrow> s \<noteq> Running"
    using assms(3) by (metis job_status.distinct(1))
  ultimately show ?thesis using assms(2) by blast
next
  case (Inl e)
  obtain x3 w3 where u: "update_batch_job (platform self) j c Failed (Some e) w2 = (x3, w3)"
    by force
  with assms(1) Inl have "snd (try_except self j rsrc ci dir w) = w3"
    by (auto simp: try_except_def split: sum.splits)
  with update_batch_job_any [OF u] assms(2) have
    1: "trace (snd (try_except self j rsrc ci dir w))
          = trace w1 @ (evs2 @ [UpdateBatchJob j c Failed (Some e)])"
    by simp
  have 2: "\<forall>jj n s e'. UpdateBatchJob jj n s e' \<in> set (evs2 @ [UpdateBatchJob j c Failed (Some e)])
        \<longrightarrow> s \<noteq> Running"
  proof (intro allI impI)
    fix jj n s e'
    assume "UpdateBatchJob jj n s e' \<in> set (evs2 @ [UpdateBatchJob j c Failed (Some e)])"
    then consider "UpdateBatchJob jj n s e' \<in> set evs2" | "s = Failed" by auto
    then show "s \<noteq> Running"
    proof cases
      case 1
      with assms(3) have "s = Completed" by blast
      then show ?thesis by simp
    next
      case 2
      then show ?thesis by simp
    qed
  qed
  from 1 2 show ?thesis by blast
qed

lemma try_except_groups:
  "\<exists>loop rest rss.
     trace (snd (try_except self j rsrc ci dir w)) = trace w @ loop @ rest
     \<and> length rss = length (groups_formed (batch_size (settings self)) rsrc)
     \<and> list_all2 (\<lambda>g rs. map vm_of rs = g) (groups_formed (batch_size (settings self)) rsrc) rss
     \<and> prefix loop (groups_trace j 0 (groups_formed (batch_size (settings self)) rsrc) rss)
     \<and> (\<forall>res. fst (try_except self j rsrc ci dir w) = Inr res \<longrightarrow>
           loop = groups_trace j 0 (groups_formed (batch_size (settings self)) rsrc) rss)
     \<and> (\<forall>jj n s e. UpdateBatchJob jj n s e \<in> set rest \<longrightarrow> s \<noteq> Running)"
proof (cases "py_range (length rsrc) (batch_size (settings self))")
  case (Inl e)
  then have g: "groups_formed (batch_size (settings self)) rsrc = []"
    by (simp add: groups_formed_def)
  from Inl have t: "try_block self j rsrc ci dir w = ((Inl e, 0), w)"
    by (simp add: try_block_def)
  from handler_rest [OF t, of w "[]"] obtain rest where
    "trace (snd (try_except self j rsrc ci dir w)) = trace w @ [] @ rest"
    "\<forall>jj n s e. UpdateBatchJob jj n s e \<in> set rest \<longrightarrow> s \<noteq> Running"
    by auto
  then show ?thesis unfolding g
    by (intro exI [of _ "[]"] exI [of _ rest]) simp
next
  case (Inr indices)
  let ?b = "nat (batch_size (settings self))"
  let ?gs = "groups_formed (batch_size (settings self)) rsrc"
  let ?TE = "try_except self j rsrc ci dir w"
  from Inr have g: "?gs = map (\<lambda>i. take ?b (drop i rsrc)) indices"
    by (simp add: groups_formed_def)
  obtain x all_results c w1 where
    p: "process_groups self j rsrc ci ?b indices [] 0 w = ((x, all_results, c), w1)"
    by (metis prod_cases3 surj_pair)
  show ?thesis
  proof (cases x)
    case (Some e)
    from process_groups_prefix [OF p] obtain loop rss where
      t1: "trace w1 = trace w @ loop" and l: "length rss = length indices"
      and a: "list_all2 (\<lambda>i rs. map vm_of rs = take ?b (drop i rsrc)) indices rss"
      and pr: "prefix loop (groups_trace j 0 (map (\<lambda>i. take ?b (drop i rsrc)) indices) rss)"
      by blast
    have l': "length rss = length ?gs" using l g by simp
    have a': "list_all2 (\<lambda>g rs. map vm_of rs = g) ?gs rss"
      using a unfolding g by (simp add: list_all2_map1)
    have pr': "prefix loop (groups_trace j 0 ?gs rss)" using pr unfolding g .
    from Some Inr p have t: "try_block self j rsrc ci dir w = ((Inl e, c), w1)"
      by (simp add: try_block_def)
    from handler_rest [OF t, of w1 "[]"] obtain rest where
      r: "trace (snd ?TE) = trace w1 @ rest"
      and nr: "\<forall>jj n s e. UpdateBatchJob jj n s e \<in> set rest \<longrightarrow> s \<noteq> Running"
      by auto
    from t have "\<forall>res. fst ?TE \<noteq> Inr res"
      by (auto simp: try_except_def split: sum.splits prod.splits)
    moreover from r t1 have "trace (snd ?TE) = trace w @ loop @ rest" by simp
    ultimately show ?thesis using l' a' pr' nr by blast
  next
    case None
    from process_groups_complete [OF p [unfolded None]] obtain rss where
      l: "length rss = length indices"
      and a: "list_all2 (\<lambda>i rs. \<exists>h. rs = batch_outcomes self ci h (take ?b (drop i rsrc))) indices rss"
      and t1: "trace w1 = trace w @ groups_trace j 0 (map (\<lambda>i. take ?b (drop i rsrc)) indices) rss"
      by blast
    have l': "length rss = length ?gs" using l g by simp
    have a': "list_all2 (\<lambda>g rs. map vm_of rs = g) ?gs rss"
      unfolding g using a by (rule groups_trace_matching)
    have t1': "trace w1 = trace w @ groups_trace j 0 ?gs rss" using t1 unfolding g .
    obtain r2 w2 where f: "finish_analysis self j all_results c ci dir w1 = (r2, w2)" by force
    with Inr p None have t: "try_block self j rsrc ci dir w = ((r2, c), w2)"
      by (simp add: try_block_def)
    from emits_finish [of j c self all_results ci dir] f obtain evs2 where
      t2: "trace w2 = trace w1 @ evs2" and fu: "final_update j c evs2"
      unfolding emits_def by (metis snd_conv)
    from final_update_progress [OF fu] have
      j2: "\<forall>jj n s e. UpdateBatchJob jj n s e \<in> set evs2 \<longrightarrow> s = Completed"
      by blast
    from handler_rest [OF t t2 j2] obtain rest where
      r: "trace (snd ?TE) = trace w1 @ rest"
      and nr: "\<forall>jj n s e. UpdateBatchJob jj n s e \<in> set rest \<longrightarrow> s \<noteq> Running"
      by blast
    from r t1' have "trace (snd ?TE) = trace w @ groups_trace j 0 ?gs rss @ rest" by simp
    with l' a' nr show ?thesis by blast
  qed
qed

section \<open>The results of a completed run\<close>

lemma saved_results_append [simp]:
  "saved_results (xs @ ys) = saved_results xs @ saved_results ys"
  by (induction xs rule: saved_results.induct) simp_all

lemma saved_results_simps [simp]:
  "saved_results (map AnalyzeComplete vms) = []"
  "saved_results (map (SaveVmAnalysis j) rs) = rs"
  "saved_results (map FsCall cs) = []"
  by (induction vms, simp_all) (induction rs, simp_all, induction cs, simp_all)

lemma saved_results_groups_trace:
  "length gs = length rss \<Longrightarrow> saved_results (groups_trace j c gs rss) = concat rss"
  by (induction gs rss arbitrary: c rule: list_induct2) simp_all

lemma last_write_append:
  "last_write p (cs @ ds) =
     (case last_write p ds of Some x \<Rightarrow> Some x | None \<Rightarrow> last_write p cs)"
  by (induction cs rule: last_write.induct) (auto split: option.splits)

lemma last_write_none: "p \<notin> set (written cs) \<Longrightarrow> last_write p cs = None"
  by (induction cs rule: written.induct) auto

lemma written_append [simp]: "written (cs @ ds) = written cs @ written ds"
  by (induction cs rule: written.induct) simp_all

lemma written_playbooks:
  "set (written (concat (map (playbook_calls pd) rs))) \<subseteq> {pd @ [n] | n. True}"
  by (induction rs) (auto simp: playbook_calls_def)

lemma last_write_main_tf:
  assumes "enable_terraform (settings self)"
  shows "last_write (dir @ [''terraform'', ''main.tf''])
           (generate_consolidated_outputs_calls self j rs dir) = Some (main_tf_content rs)"
proof -
  let ?p = "dir @ [''terraform'', ''main.tf'']"
  have "?p \<notin> set (written (concat (map (playbook_calls (dir @ [''ansible''] @ [''playbooks''])) rs)))"
    using written_playbooks [of "dir @ [''ansible''] @ [''playbooks'']" rs] by auto
  then have "?p \<notin> set (written (ansible_calls rs dir))"
    by (simp add: ansible_calls_def Let_def)
  then have a: "last_write ?p (ansible_calls rs dir) = None"
    by (rule last_write_none)
  have t: "last_write ?p (terraform_calls rs dir) = Some (main_tf_content rs)"
    by (simp add: terraform_calls_def Let_def)
  from assms a t show ?thesis
    by (simp add: generate_consolidated_outputs_calls_def last_write_append)
qed

lemma try_except_results:
  assumes "try_except self j rsrc ci dir w = (Inr res, w')"
  shows "\<exists>all_results ts summary.
     map vm_of all_results = concat (groups_formed (batch_size (settings self)) rsrc)
     \<and> length ts = length all_results
     \<and> vm_analysis (db w') =
         vm_analysis (db w) @ map2 (analysis_row (platform self) j) all_results ts
     \<and> saved_results (drop (length (trace w)) (trace w')) = all_results
     \<and> run_ops (save_individual_outputs_calls self j all_results dir
               @ [WriteText (dir @ [''infrastructure_summary.md'']) summary]
               @ generate_consolidated_outputs_calls self j all_results dir) (fs w) = Inr (fs w')"
proof -
  let ?b = "nat (batch_size (settings self))"
  let ?gs = "groups_formed (batch_size (settings self)) rsrc"
  from assms obtain c u where t: "try_block self j rsrc ci dir w = ((Inr u, c), w')"
    by (auto simp: try_except_def split: sum.splits prod.splits)
  then obtain indices all_results w1 where
    r: "py_range (length rsrc) (batch_size (settings self)) = Inr indices" and
    p: "process_groups self j rsrc ci ?b indices [] 0 w = ((None, all_results, c), w1)" and
    f: "finish_analysis self j all_results c ci dir w1 = (Inr u, w')"
    by (auto simp: try_block_def split: sum.splits prod.splits option.splits)
  from r have g: "?gs = map (\<lambda>i. take ?b (drop i rsrc)) indices"
    by (simp add: groups_formed_def)
  from process_groups_complete [OF p] obtain rss ts where
    l: "length rss = length indices"
    and a: "list_all2 (\<lambda>i rs. \<exists>h. rs = batch_outcomes self ci h (take ?b (drop i rsrc))) indices rss"
    and al: "all_results = concat rss"
    and t1: "trace w1 = trace w @ groups_trace j 0 (map (\<lambda>i. take ?b (drop i rsrc)) indices) rss"
    and f1: "fs w1 = fs w"
    and lt: "length ts = length (concat rss)"
    and v1: "vm_analysis (db w1) =
               vm_analysis (db w) @ map2 (analysis_row (platform self) j) (concat rss) ts"
    by auto
  have "list_all2 (\<lambda>g rs. map vm_of rs = g) ?gs rss"
    unfolding g using a by (rule groups_trace_matching)
  then have "map (map vm_of) rss = ?gs"
    by (induction rule: list_all2_induct) simp_all
  then have "map vm_of (concat rss) = concat ?gs"
    by (simp add: map_concat)
  then have 1: "map vm_of all_results = concat ?gs"
    by (simp add: al)
  from finish_analysis_ok [OF f] obtain summary w5 where
    ro: "run_ops (save_individual_outputs_calls self j all_results dir
              @ [WriteText (dir @ [''infrastructure_summary.md'']) summary]
              @ generate_consolidated_outputs_calls self j all_results dir) (fs w1) = Inr (fs w')"
    and t5: "trace w5 = trace w1 @ map FsCall (save_individual_outputs_calls self j all_results dir)
          @ [GenerateSummary all_results, SaveReport j ''summary'' summary,
             FsCall (WriteText (dir @ [''infrastructure_summary.md'']) summary)]
          @ map FsCall (generate_consolidated_outputs_calls self j all_results dir)"
    and u5: "update_batch_job (platform self) j c Completed None w5 = (Inr (), w')"
    and v5: "vm_analysis (db w5) = vm_analysis (db w1)"
    by blast
  from update_batch_job_ok [OF u5] have
    t6: "trace w' = trace w5 @ [UpdateBatchJob j c Completed None]"
    and v6: "vm_analysis (db w') = vm_analysis (db w5)"
    by simp_all
  have 2: "vm_analysis (db w') =
         vm_analysis (db w) @ map2 (analysis_row (platform self) j) all_results ts"
    using v6 v5 v1 al by simp
  have 3: "saved_results (drop (length (trace w)) (trace w')) = all_results"
    using t6 t5 t1 l by (simp add: al saved_results_groups_trace)
  from 1 2 3 lt ro f1 al show ?thesis by auto
qed

lemma written_playbook_calls:
  "written (concat (map (playbook_calls pd) rs))
     = map (\<lambda>r. pd @ [sanitize (vm_name r) @ ''_'' @ vm_id r @ ''.yml''])
         (filter (\<lambda>r. truthy (ansible_playbook r)) rs)"
  by (induction rs) (simp_all add: playbook_calls_def)

section \<open>The run\<close>

text \<open>
  C8. When the Proxmox client returns an empty inventory, \<^verbatim>\<open>run_full_analysis\<close> returns
  \<^verbatim>\<open>None\<close> (the no-work outcome, not an exception), creates no batch job and persists
  nothing: neither the database nor the file system changes.
\<close>

theorem empty_inventory_no_job:
  assumes "get_cluster_info (proxmox self) (trace w) = Inr ci"
    and "get_all_resources (proxmox self) (trace w @ [GetClusterInfo]) = Inr []"
  shows "fst (run_full_analysis self w) = Inr None
         \<and> db (snd (run_full_analysis self w)) = db w
         \<and> fs (snd (run_full_analysis self w)) = fs w
         \<and> trace (snd (run_full_analysis self w)) = trace w @ [GetClusterInfo, GetAllResources]"
  using assms by (simp add: run_full_analysis_def Let_def)

theorem empty_inventory_no_job_witness:
  "get_cluster_info (proxmox offline_processor) (trace ex_world) = Inr None
   \<and> get_all_resources (proxmox offline_processor) (trace ex_world @ [GetClusterInfo]) = Inr []
   \<and> fst (run_full_analysis offline_processor ex_world) = Inr None
   \<and> db (snd (run_full_analysis offline_processor ex_world)) = db ex_world
   \<and> fs (snd (run_full_analysis offline_processor ex_world)) = fs ex_world"
proof -
  have a: "get_cluster_info (proxmox offline_processor) (trace ex_world) = Inr None"
    by (simp add: offline_processor_def ProxmoxClient_def ProxmoxClient_get_cluster_info_def
        unreachable_api_def)
  have b: "get_all_resources (proxmox offline_processor) (trace ex_world @ [GetClusterInfo]) = Inr []"
    by (simp add: offline_processor_def ProxmoxClient_def ProxmoxClient_get_all_resources_def
        get_all_vms_def get_all_lxcs_def get_all_nodes_def unreachable_api_def)
  from empty_inventory_no_job [OF a b] a b show ?thesis by simp
qed

lemma run_after_creation:
  assumes "get_cluster_info (proxmox self) (trace w) = Inr ci"
    and "get_all_resources (proxmox self) (trace w @ [GetClusterInfo]) = Inr rsrc"
    and "rsrc \<noteq> []"
    and "create_batch_job (platform self) (length rsrc)
           (w\<lparr>trace := trace w @ [GetClusterInfo, GetAllResources]\<rparr>) = (Inr j, w3)"
    and "os_call (platform self) (Mkdir (job_dir self j)) w3 = (Inr (), w4)"
  shows "run_full_analysis self w = try_except self j rsrc ci (job_dir self j) w4"
    and "\<exists>row. batch_jobs (db w4) j = Some row \<and> status row = Running
           \<and> total_vms row = length rsrc \<and> processed_vms row = 0"
    and "vm_analysis (db w4) = vm_analysis (db w)"
    and "j = Suc (job_seq (db w))"
proof -
  from assms show "run_full_analysis self w = try_except self j rsrc ci (job_dir self j) w4"
    by (simp add: run_full_analysis_def Let_def)
  from assms(4) have c: "batch_jobs (db w3) j = Some \<lparr>started_at = Suc (Suc (length (trace w))),
      completed_at = None, status = Running, total_vms = length rsrc, processed_vms = 0,
      error_message = None\<rparr>" "vm_analysis (db w3) = vm_analysis (db w)" "j = Suc (job_seq (db w))"
    by (auto simp: create_batch_job_def sqlite_call_cases Let_def split: option.splits)
  from os_call_ok [OF assms(5)] have d: "db w4 = db w3" by simp
  from c(1) d show "\<exists>row. batch_jobs (db w4) j = Some row \<and> status row = Running
           \<and> total_vms row = length rsrc \<and> processed_vms row = 0"
    by simp
  from c(2) d show "vm_analysis (db w4) = vm_analysis (db w)" by simp
  from c(3) show "j = Suc (job_seq (db w))" .
qed

section \<open>The examples, evaluated\<close>

lemmas run_defs = run_full_analysis_def try_except_def try_block_def py_range_def
  process_groups.simps process_batch_eq batch_outcomes.simps analysis_outcome_def
  save_batch_results.simps save_vm_analysis_cases analysis_row_def update_batch_job_cases update_row_def
  create_batch_job_def sqlite_call_cases job_dir_def str_nat.simps digit_char_def
  finish_analysis_def and_then_def summary_call_def save_infrastructure_report_def
  save_individual_outputs_def generate_consolidated_outputs_def
  save_individual_outputs_calls_def individual_output_calls_def
  generate_consolidated_outputs_calls_def terraform_calls_def ansible_calls_def playbook_calls_def
  write_if_def vm_dir_name_def sanitize_def replace_char_def merge_results_def error_result_def
  vm_data.defs result.defs os_call_def mkdir_exist_ok_def write_text_def Let_def upt_rec

lemmas client_defs = ProxmoxClient_def ProxmoxClient_get_cluster_info_def
  ProxmoxClient_get_all_resources_def get_all_vms_def get_all_lxcs_def get_all_nodes_def
  vm_detail_def lxc_detail_def get_vm_config_def get_lxc_config_def dict_get_def str_int_def
  ClaudeAnalyzer_def ClaudeAnalyzer_analyze_complete_def
  ClaudeAnalyzer_generate_infrastructure_summary_def analyze_vm_def security_review_of_def
  optimization_recommendations_of_def generate_terraform_def generate_ansible_def

lemmas ex_env_defs = ex_processor_def ex_platform_def ex_settings_def ex_world_def ex_api_def
  ex_client_def ex_vm_def ex_lxc_def ex_cluster_def ex_created_world_def ex_job_world_def

lemma ex_job_created:
  "get_cluster_info (proxmox ex_processor) (trace ex_world) = Inr ex_cluster"
  "get_all_resources (proxmox ex_processor) (trace ex_world @ [GetClusterInfo]) = Inr [ex_vm, ex_lxc]"
  "create_batch_job (platform ex_processor) (length [ex_vm, ex_lxc])
     (ex_world\<lparr>trace := trace ex_world @ [GetClusterInfo, GetAllResources]\<rparr>)
     = (Inr 1, ex_created_world)"
  "os_call (platform ex_processor) (Mkdir (job_dir ex_processor 1)) ex_created_world
     = (Inr (), ex_job_world)"
  by (simp_all add: client_defs ex_env_defs create_batch_job_def sqlite_call_cases os_call_def
      mkdir_exist_ok_def job_dir_def str_nat.simps digit_char_def Let_def numeral_2_eq_2)

lemma ex_try_except_completes:
  "fst (try_except ex_processor 1 [ex_vm, ex_lxc] ex_cluster [''output'', ''job_1''] ex_job_world)
     = Inr (Some 1)"
  by (simp add: run_defs client_defs ex_env_defs)

lemma stub_run_completes:
  "fst (run_full_analysis stub_processor ex_world) = Inr (Some 1)"
  "map_option status (batch_jobs (db (snd (run_full_analysis stub_processor ex_world))) 1)
     = Some Completed"
  "map col_analysis (vm_analysis (db (snd (run_full_analysis stub_processor ex_world))))
     = [Some ''Error: boom'', Some ''fine'']"
  by (simp_all add: run_defs client_defs ex_env_defs stub_processor_def raising_analyzer_def)

lemma job_dir_failure_leaves_job_running:
  "fst (run_full_analysis ex_processor blocked_world) = Inl ''FileExistsError''
   \<and> map_option status (batch_jobs (db (snd (run_full_analysis ex_processor blocked_world))) 1)
       = Some Running"
  by (simp add: run_defs client_defs ex_env_defs blocked_world_def)

lemma ex_run_completes:
  "fst (run_full_analysis ex_processor ex_world) = Inr (Some 1)"
proof -
  have "[ex_vm, ex_lxc] \<noteq> []" by simp
  from run_after_creation(1) [OF ex_job_created(1,2) this ex_job_created(3,4)]
    ex_try_except_completes
  show ?thesis by (simp add: job_dir_def ex_processor_def ex_settings_def str_nat.simps digit_char_def)
qed

lemma ex_try_except_pair:
  "try_except ex_processor 1 [ex_vm, ex_lxc] ex_cluster [''output'', ''job_1''] ex_job_world
     = (Inr (Some 1),
        snd (try_except ex_processor 1 [ex_vm, ex_lxc] ex_cluster [''output'', ''job_1'']
               ex_job_world))"
  using ex_try_except_completes by (simp add: prod_eq_iff)

section \<open>The claims about the run\<close>

text \<open>
  C1, as far as the program goes. Take a run with a non-empty inventory in which the job
  record has been created and the output directory of the job has been made. When
  \<^verbatim>\<open>run_full_analysis\<close> returns, it returns the job id, and the job is marked completed
  with a processed count equal to the number of analyses that the run saved. When it
  raises, the last call of the run is the update that marks the job failed with the
  message of the exception that left the \<^verbatim>\<open>try\<close> block; if the database accepts that
  update, the job is failed with that message and the same exception is raised; otherwise
  the exception raised is the refusal of that update, and the record stays as it was.
\<close>

theorem job_reaches_terminal_status:
  assumes "get_cluster_info (proxmox self) (trace w) = Inr ci"
    and "get_all_resources (proxmox self) (trace w @ [GetClusterInfo]) = Inr rsrc"
    and "rsrc \<noteq> []"
    and "create_batch_job (platform self) (length rsrc)
           (w\<lparr>trace := trace w @ [GetClusterInfo, GetAllResources]\<rparr>) = (Inr j, w3)"
    and "os_call (platform self) (Mkdir (job_dir self j)) w3 = (Inr (), w4)"
  shows "case run_full_analysis self w of
           (Inr res, w') \<Rightarrow>
             res = Some j
             \<and> (\<exists>row'. batch_jobs (db w') j = Some row' \<and> status row' = Completed
                  \<and> total_vms row' = length rsrc
                  \<and> length (vm_analysis (db w')) = length (vm_analysis (db w)) + processed_vms row'
                  \<and> last (trace w') = UpdateBatchJob j (processed_vms row') Completed None)
         | (Inl e, w') \<Rightarrow>
             (\<exists>row' c e0. batch_jobs (db w') j = Some row' \<and> total_vms row' = length rsrc
                \<and> trace w' \<noteq> [] \<and> last (trace w') = UpdateBatchJob j c Failed (Some e0)
                \<and> (status row' = Failed \<and> error_message row' = Some e \<and> e0 = e
                      \<and> processed_vms row' = c
                    \<or> sqlite_fault (platform self) (butlast (trace w')) (last (trace w')) = Some e))"
proof -
  note r = run_after_creation [OF assms]
  from r(2) obtain row where row: "batch_jobs (db w4) j = Some row" "total_vms row = length rsrc"
    by blast
  have "total_vms row = length rsrc \<and> vm_analysis (db w4) = vm_analysis (db w)"
    using row(2) r(3) by simp
  then show ?thesis
    using try_except_outcome [OF row(1), of self rsrc ci "job_dir self j"]
    unfolding r(1) by (cases "try_except self j rsrc ci (job_dir self j) w4") (auto split: sum.splits)
qed

theorem job_reaches_terminal_status_witness:
  "get_cluster_info (proxmox ex_processor) (trace ex_world) = Inr ex_cluster
   \<and> get_all_resources (proxmox ex_processor) (trace ex_world @ [GetClusterInfo])
       = Inr [ex_vm, ex_lxc]
   \<and> [ex_vm, ex_lxc] \<noteq> []
   \<and> create_batch_job (platform ex_processor) (length [ex_vm, ex_lxc])
       (ex_world\<lparr>trace := trace ex_world @ [GetClusterInfo, GetAllResources]\<rparr>)
       = (Inr 1, ex_created_world)
   \<and> os_call (platform ex_processor) (Mkdir (job_dir ex_processor 1)) ex_created_world
       = (Inr (), ex_job_world)
   \<and> fst (run_full_analysis ex_processor ex_world) = Inr (Some 1)
   \<and> (\<exists>row'. batch_jobs (db (snd (run_full_analysis ex_processor ex_world))) 1 = Some row'
         \<and> status row' = Completed \<and> total_vms row' = length [ex_vm, ex_lxc])"
proof -
  have ne: "[ex_vm, ex_lxc] \<noteq> []" by simp
  obtain res w' where r: "run_full_analysis ex_processor ex_world = (res, w')" by force
  with ex_run_completes have res: "res = Inr (Some 1)" by simp
  from job_reaches_terminal_status [OF ex_job_created(1,2) ne ex_job_created(3,4)] r res
  have "\<exists>row'. batch_jobs (db w') 1 = Some row' \<and> status row' = Completed
         \<and> total_vms row' = length [ex_vm, ex_lxc]"
    by auto
  with r ex_run_completes ex_job_created ne show ?thesis by simp
qed

text \<open>
  The claim as it is worded fails where the database stops answering after the job has
  been created: the first \<^verbatim>\<open>save_vm_analysis\<close> raises, the handler's update raises too,
  and the job stays running.
\<close>

theorem job_left_running_counterexample:
  "fst (run_full_analysis locked_processor ex_world) = Inl ''database is locked''
   \<and> map_option status (batch_jobs (db (snd (run_full_analysis locked_processor ex_world))) 1)
       = Some Running"
  by (simp add: run_defs client_defs ex_env_defs locked_processor_def locked_platform_def)

lemma job_created:
  assumes "create_batch_job pf n w = (Inr j, w3)"
  shows "\<exists>row. batch_jobs (db w3) j = Some row \<and> status row = Running
           \<and> total_vms row = n \<and> processed_vms row = 0"
  using assms
  by (auto simp: create_batch_job_def sqlite_call_cases Let_def split: option.splits)

lemma groups_results_exist:
  "\<exists>rss. length rss = length (gs :: vm_data list list) \<and> list_all2 (\<lambda>g rs. map vm_of rs = g) gs rss"
proof
  show "length (map (map (\<lambda>vm. error_result vm [])) gs) = length gs
     \<and> list_all2 (\<lambda>g rs. map vm_of rs = g) gs (map (map (\<lambda>vm. error_result vm [])) gs)"
    by (simp add: list_all2_map2 list_all2_same comp_def vm_of_error)
qed

lemma run_progress:
  assumes "get_cluster_info (proxmox self) (trace w) = Inr ci"
    and "get_all_resources (proxmox self) (trace w @ [GetClusterInfo]) = Inr rsrc"
    and "rsrc \<noteq> []"
    and "create_batch_job (platform self) (length rsrc)
           (w\<lparr>trace := trace w @ [GetClusterInfo, GetAllResources]\<rparr>) = (Inr j, w3)"
    and "os_call (platform self) (Mkdir (job_dir self j)) w3 = (Inr (), w4)"
  shows "\<exists>evs row'.
     trace (snd (run_full_analysis self w)) = trace w4 @ evs
     \<and> batch_jobs (db (snd (run_full_analysis self w))) j = Some row'
     \<and> total_vms row' = length rsrc
     \<and> sorted (progress_values evs)
     \<and> (\<forall>v \<in> set (progress_values evs). v \<le> total_vms row')
     \<and> (\<forall>jj n s e. UpdateBatchJob jj n s e \<in> set evs \<longrightarrow> jj = j)
     \<and> (\<exists>loop rest rss.
           evs = loop @ rest
           \<and> length rss = length (groups_formed (batch_size (settings self)) rsrc)
           \<and> list_all2 (\<lambda>g rs. map vm_of rs = g)
                (groups_formed (batch_size (settings self)) rsrc) rss
           \<and> prefix loop
                (groups_trace j 0 (groups_formed (batch_size (settings self)) rsrc) rss)
           \<and> (\<forall>jj n s e. UpdateBatchJob jj n s e \<in> set rest \<longrightarrow> s \<noteq> Running))"
proof -
  let ?TE = "try_except self j rsrc ci (job_dir self j) w4"
  note r = run_after_creation [OF assms]
  from r(2) obtain row where row: "batch_jobs (db w4) j = Some row" "total_vms row = length rsrc"
    by blast
  have "job_kept j w4 (snd ?TE)"
  proof -
    obtain rr c w1 where t: "try_block self j rsrc ci (job_dir self j) w4 = ((rr, c), w1)"
      by (metis surj_pair)
    have k1: "job_kept j w4 w1"
      using keeps_try_block [of j self j rsrc ci "job_dir self j"] t
      by (metis keeps_job_def snd_conv)
    show ?thesis
    proof (cases rr)
      case (Inr u)
      with t k1 show ?thesis by (simp add: try_except_def)
    next
      case (Inl e)
      obtain x2 w2 where u: "update_batch_job (platform self) j c Failed (Some e) w1 = (x2, w2)"
        by force
      have "job_kept j w1 w2"
        using keeps_update [of j "platform self" j c Failed "Some e"] u
        by (metis keeps_job_def snd_conv)
      with k1 have "job_kept j w4 w2" by (rule job_kept_trans)
      with t Inl u show ?thesis by (auto simp: try_except_def split: sum.splits)
    qed
  qed
  with row obtain row' where
    row': "batch_jobs (db (snd ?TE)) j = Some row'" "total_vms row' = length rsrc"
    by (auto simp: job_kept_def)
  obtain out w' where te: "?TE = (out, w')" by force
  from try_except_progress [OF te] obtain evs where
    e1: "trace w' = trace w4 @ evs" and e2: "sorted (progress_values evs)"
    and e3: "\<forall>v \<in> set (progress_values evs). v \<le> length rsrc"
    and e4: "\<forall>jj n s e. UpdateBatchJob jj n s e \<in> set evs \<longrightarrow> jj = j"
    by blast
  from try_except_groups [of self j rsrc ci "job_dir self j" w4] te obtain loop rest rss where
    g1: "trace w' = trace w4 @ loop @ rest"
    and g2: "length rss = length (groups_formed (batch_size (settings self)) rsrc)"
    and g3: "list_all2 (\<lambda>g rs. map vm_of rs = g)
                (groups_formed (batch_size (settings self)) rsrc) rss"
    and g4: "prefix loop
                (groups_trace j 0 (groups_formed (batch_size (settings self)) rsrc) rss)"
    and g5: "\<forall>jj n s e. UpdateBatchJob jj n s e \<in> set rest \<longrightarrow> s \<noteq> Running"
    by auto
  from e1 g1 have "evs = loop @ rest" by simp
  with g2 g3 g4 g5 have
    "\<exists>loop rest rss.
           evs = loop @ rest
           \<and> length rss = length (groups_formed (batch_size (settings self)) rsrc)
           \<and> list_all2 (\<lambda>g rs. map vm_of rs = g)
                (groups_formed (batch_size (settings self)) rsrc) rss
           \<and> prefix loop
                (groups_trace j 0 (groups_formed (batch_size (settings self)) rsrc) rss)
           \<and> (\<forall>jj n s e. UpdateBatchJob jj n s e \<in> set rest \<longrightarrow> s \<noteq> Running)"
    by blast
  with e1 e2 e3 e4 row' te show ?thesis unfolding r(1) by auto
qed

text \<open>
  C3. In a run in which the job has been created, the total of the job is the size of the
  inventory and no later call changes it; the processed counts of the progress updates,
  in the order in which they are issued, never decrease and never exceed that total; all
  of them are for the job of the run. The calls that follow the creation of the job are
  the creation of its directory and then the calls of the loop, which are, group by group,
  the analysis of every resource of the group, the saving of every result of the group and
  then one progress update (the loop may be cut short by an exception); after the loop no
  update with status running is issued.
\<close>

theorem progress_counter_monotone_and_bounded:
  assumes "get_cluster_info (proxmox self) (trace w) = Inr ci"
    and "get_all_resources (proxmox self) (trace w @ [GetClusterInfo]) = Inr rsrc"
    and "rsrc \<noteq> []"
    and "create_batch_job (platform self) (length rsrc)
           (w\<lparr>trace := trace w @ [GetClusterInfo, GetAllResources]\<rparr>) = (Inr j, w3)"
  shows "\<exists>evs row'.
     trace (snd (run_full_analysis self w)) = trace w3 @ evs
     \<and> batch_jobs (db (snd (run_full_analysis self w))) j = Some row'
     \<and> total_vms row' = length rsrc
     \<and> sorted (progress_values evs)
     \<and> (\<forall>v \<in> set (progress_values evs). v \<le> total_vms row')
     \<and> (\<forall>jj n s e. UpdateBatchJob jj n s e \<in> set evs \<longrightarrow> jj = j)
     \<and> (\<exists>loop rest rss.
           evs = FsCall (Mkdir (job_dir self j)) # loop @ rest
           \<and> length rss = length (groups_formed (batch_size (settings self)) rsrc)
           \<and> list_all2 (\<lambda>g rs. map vm_of rs = g)
                (groups_formed (batch_size (settings self)) rsrc) rss
           \<and> prefix loop
                (groups_trace j 0 (groups_formed (batch_size (settings self)) rsrc) rss)
           \<and> (\<forall>jj n s e. UpdateBatchJob jj n s e \<in> set rest \<longrightarrow> s \<noteq> Running))"
proof -
  let ?c = "Mkdir (job_dir self j)"
  obtain x w4 where m: "os_call (platform self) ?c w3 = (x, w4)" by force
  from os_call_trace [of "platform self" ?c w3] os_call_db [of "platform self" ?c w3] m
  have t4: "trace w4 = trace w3 @ [FsCall ?c]" and d4: "db w4 = db w3" by simp_all
  show ?thesis
  proof (cases x)
    case (Inr u)
    with m have m': "os_call (platform self) ?c w3 = (Inr (), w4)" by simp
    from run_progress [OF assms m'] obtain evs row' loop rest rss where
      a: "trace (snd (run_full_analysis self w)) = trace w4 @ evs"
         "batch_jobs (db (snd (run_full_analysis self w))) j = Some row'"
         "total_vms row' = length rsrc"
         "sorted (progress_values evs)"
         "\<forall>v \<in> set (progress_values evs). v \<le> total_vms row'"
         "\<forall>jj n s e. UpdateBatchJob jj n s e \<in> set evs \<longrightarrow> jj = j"
         "evs = loop @ rest"
         "length rss = length (groups_formed (batch_size (settings self)) rsrc)"
         "list_all2 (\<lambda>g rs. map vm_of rs = g)
                (groups_formed (batch_size (settings self)) rsrc) rss"
         "prefix loop
                (groups_trace j 0 (groups_formed (batch_size (settings self)) rsrc) rss)"
         "\<forall>jj n s e. UpdateBatchJob jj n s e \<in> set rest \<longrightarrow> s \<noteq> Running"
      by blast
    let ?evs = "FsCall ?c # evs"
    have 1: "trace (snd (run_full_analysis self w)) = trace w3 @ ?evs"
      using a(1) t4 by simp
    have 2: "sorted (progress_values ?evs)"
      "\<forall>v \<in> set (progress_values ?evs). v \<le> total_vms row'"
      "\<forall>jj n s e. UpdateBatchJob jj n s e \<in> set ?evs \<longrightarrow> jj = j"
      using a(4,5,6) by simp_all
    have 3: "?evs = FsCall ?c # loop @ rest" using a(7) by simp
    from 1 2 3 a(2,3,8,9,10,11) show ?thesis by blast
  next
    case (Inl e)
    with m assms have r: "run_full_analysis self w = (Inl e, w4)"
      by (simp add: run_full_analysis_def Let_def)
    from job_created [OF assms(4)] d4 obtain row where
      row: "batch_jobs (db w4) j = Some row" "total_vms row = length rsrc"
      by auto
    from groups_results_exist [of "groups_formed (batch_size (settings self)) rsrc"]
    obtain rss where
      g: "length rss = length (groups_formed (batch_size (settings self)) rsrc)"
         "list_all2 (\<lambda>g rs. map vm_of rs = g)
                (groups_formed (batch_size (settings self)) rsrc) rss"
      by blast
    let ?evs = "[FsCall ?c]"
    have 1: "trace (snd (run_full_analysis self w)) = trace w3 @ ?evs"
      using r t4 by simp
    have 2: "sorted (progress_values ?evs)"
      "\<forall>v \<in> set (progress_values ?evs). v \<le> total_vms row"
      "\<forall>jj n s e. UpdateBatchJob jj n s e \<in> set ?evs \<longrightarrow> jj = j"
      by simp_all
    have 3: "?evs = FsCall ?c # [] @ []" by simp
    have 4: "prefix [] (groups_trace j 0 (groups_formed (batch_size (settings self)) rsrc) rss)"
      "\<forall>jj n s e. UpdateBatchJob jj n s e \<in> set [] \<longrightarrow> s \<noteq> Running"
      by simp_all
    have 5: "batch_jobs (db (snd (run_full_analysis self w))) j = Some row"
      using r row by simp
    from 1 2 3 4 5 row(2) g show ?thesis by blast
  qed
qed


theorem progress_counter_monotone_and_bounded_witness:
  "get_cluster_info (proxmox ex_processor) (trace ex_world) = Inr ex_cluster
   \<and> get_all_resources (proxmox ex_processor) (trace ex_world @ [GetClusterInfo])
       = Inr [ex_vm, ex_lxc]
   \<and> [ex_vm, ex_lxc] \<noteq> []
   \<and> create_batch_job (platform ex_processor) (length [ex_vm, ex_lxc])
       (ex_world\<lparr>trace := trace ex_world @ [GetClusterInfo, GetAllResources]\<rparr>)
       = (Inr 1, ex_created_world)
   \<and> (\<exists>evs. trace (snd (run_full_analysis ex_processor ex_world)) = trace ex_created_world @ evs
         \<and> sorted (progress_values evs)
         \<and> (\<forall>v \<in> set (progress_values evs). v \<le> length [ex_vm, ex_lxc]))"
proof -
  have ne: "[ex_vm, ex_lxc] \<noteq> []" by simp
  from progress_counter_monotone_and_bounded [OF ex_job_created(1,2) ne ex_job_created(3)]
  have "\<exists>evs. trace (snd (run_full_analysis ex_processor ex_world)) = trace ex_created_world @ evs
         \<and> sorted (progress_values evs)
         \<and> (\<forall>v \<in> set (progress_values evs). v \<le> length [ex_vm, ex_lxc])"
    by metis
  with ex_job_created ne show ?thesis by simp
qed

text \<open>
  C5. For a positive batch size \<open>b\<close> and an inventory of \<open>n\<close> resources, the loop forms
  \<open>(n + b - 1) div b\<close> groups, the least number of groups of size \<open>b\<close> that cover the
  inventory: group \<open>k\<close> is the slice of \<open>b\<close> resources that starts at position
  \<open>k * b\<close>, every group but the last has exactly \<open>b\<close> resources, and the groups one
  after the other are the inventory in its own order. Seven resources and a batch size of
  five give the groups of the first five and of the last two. The calls of the loop are the
  calls of the first group (analysis of each resource, saving of each result, progress
  update), then those of the second group, and so on, possibly cut short by an exception;
  when the run returns normally, every group is complete.
\<close>

theorem inventory_partitioned_into_groups:
  assumes "0 < batch_size (settings self)"
  shows "length (groups_formed (batch_size (settings self)) rsrc)
           = (length rsrc + nat (batch_size (settings self)) - 1) div nat (batch_size (settings self))
     \<and> length rsrc \<le> length (groups_formed (batch_size (settings self)) rsrc)
                        * nat (batch_size (settings self))
     \<and> (\<forall>k < length (groups_formed (batch_size (settings self)) rsrc).
           k * nat (batch_size (settings self)) < length rsrc
           \<and> groups_formed (batch_size (settings self)) rsrc ! k
               = take (nat (batch_size (settings self)))
                   (drop (k * nat (batch_size (settings self))) rsrc))
     \<and> (\<forall>k. Suc k < length (groups_formed (batch_size (settings self)) rsrc) \<longrightarrow>
           length (groups_formed (batch_size (settings self)) rsrc ! k)
             = nat (batch_size (settings self)))
     \<and> concat (groups_formed (batch_size (settings self)) rsrc) = rsrc
     \<and> groups_formed 5 [ra, rb, rc, rd, re, rf, rg] = [[ra, rb, rc, rd, re], [rf, rg]]
     \<and> (\<exists>loop rest rss.
           trace (snd (try_except self j rsrc ci dir w)) = trace w @ loop @ rest
           \<and> length rss = length (groups_formed (batch_size (settings self)) rsrc)
           \<and> list_all2 (\<lambda>g rs. map vm_of rs = g)
                (groups_formed (batch_size (settings self)) rsrc) rss
           \<and> prefix loop
                (groups_trace j 0 (groups_formed (batch_size (settings self)) rsrc) rss)
           \<and> (\<forall>res. fst (try_except self j rsrc ci dir w) = Inr res \<longrightarrow>
                 loop = groups_trace j 0 (groups_formed (batch_size (settings self)) rsrc) rss))"
proof -
  let ?s = "batch_size (settings self)"
  let ?gs = "groups_formed ?s rsrc"
  have 1: "length ?gs = (length rsrc + nat ?s - 1) div nat ?s"
    using assms by (rule groups_formed_length)
  have 2: "length rsrc \<le> length ?gs * nat ?s"
    using assms ceil_div_covers [of "nat ?s" "length rsrc"] by (simp add: 1)
  have 3: "\<forall>k < length ?gs. k * nat ?s < length rsrc
             \<and> ?gs ! k = take (nat ?s) (drop (k * nat ?s) rsrc)"
    using assms ceil_div_below [of "nat ?s" _ "length rsrc"]
    by (simp add: groups_formed_nth 1)
  have 4: "\<forall>k. Suc k < length ?gs \<longrightarrow> length (?gs ! k) = nat ?s"
    using assms groups_formed_full by blast
  have 5: "concat ?gs = rsrc" using assms by (rule groups_formed_concat)
  have 6: "groups_formed 5 [ra, rb, rc, rd, re, rf, rg] = [[ra, rb, rc, rd, re], [rf, rg]]"
    by (rule groups_formed_example)
  from try_except_groups [of self j rsrc ci dir w] have
    7: "\<exists>loop rest rss.
           trace (snd (try_except self j rsrc ci dir w)) = trace w @ loop @ rest
           \<and> length rss = length ?gs
           \<and> list_all2 (\<lambda>g rs. map vm_of rs = g) ?gs rss
           \<and> prefix loop (groups_trace j 0 ?gs rss)
           \<and> (\<forall>res. fst (try_except self j rsrc ci dir w) = Inr res \<longrightarrow>
                 loop = groups_trace j 0 ?gs rss)"
    by blast
  from 1 2 3 4 5 6 7 show ?thesis by blast
qed

theorem inventory_partitioned_into_groups_witness:
  "0 < batch_size (settings ex_processor)
   \<and> groups_formed (batch_size (settings ex_processor)) [ex_vm, ex_lxc] = [[ex_vm, ex_lxc]]
   \<and> concat (groups_formed (batch_size (settings ex_processor)) [ex_vm, ex_lxc]) = [ex_vm, ex_lxc]
   \<and> length (groups_formed (batch_size (settings ex_processor)) [ex_vm, ex_lxc])
       = (length [ex_vm, ex_lxc] + nat (batch_size (settings ex_processor)) - 1)
           div nat (batch_size (settings ex_processor))"
proof -
  have pos: "0 < batch_size (settings ex_processor)"
    by (simp add: ex_processor_def ex_settings_def)
  note t = inventory_partitioned_into_groups
    [where self = ex_processor and rsrc = "[ex_vm, ex_lxc]" and ra = ex_vm and rb = ex_vm
       and rc = ex_vm and rd = ex_vm and re = ex_vm and rf = ex_vm and rg = ex_vm and j = 1
       and ci = ex_cluster and dir = "[''output'', ''job_1'']" and w = ex_job_world, OF pos]
  have g: "groups_formed (batch_size (settings ex_processor)) [ex_vm, ex_lxc] = [[ex_vm, ex_lxc]]"
    by (simp add: ex_processor_def ex_settings_def groups_formed_def py_range_def)
  have c: "concat (groups_formed (batch_size (settings ex_processor)) [ex_vm, ex_lxc])
      = [ex_vm, ex_lxc]"
    using t by blast
  have l: "length (groups_formed (batch_size (settings ex_processor)) [ex_vm, ex_lxc])
       = (length [ex_vm, ex_lxc] + nat (batch_size (settings ex_processor)) - 1)
           div nat (batch_size (settings ex_processor))"
    using t by blast
  from pos g c l show ?thesis by blast
qed

text \<open>
  C10. The results of a group are in the order of the group: \<^verbatim>\<open>process_batch\<close> returns,
  at every position, the result of the resource at that position, and the loop that drops
  exceptions keeps the remaining results in their order. The consolidated files have their
  sections in the order of the results. When the run returns normally, the results are
  those of the groups one after the other, which for a positive batch size is the
  inventory in its order; the calls of \<^verbatim>\<open>save_vm_analysis\<close> are issued in that order, the
  rows are inserted in that order, and the files are written from the results in that
  order.
\<close>

theorem results_keep_inventory_order:
  "fst (process_batch self vms ci w) = Inr (batch_outcomes self ci (trace w) vms)
     \<and> map vm_of (batch_outcomes self ci (trace w) vms) = vms
     \<and> foldl keep_result [] outs
         = List.map_filter (\<lambda>r. case r of Inl e \<Rightarrow> None | Inr x \<Rightarrow> Some x) outs
     \<and> main_tf_content rs = main_tf_preamble
         @ concat (map terraform_section (filter (\<lambda>r. truthy (terraform_template r)) rs))
     \<and> site_yml_content rs = site_yml_preamble
         @ concat (map site_yml_section (filter (\<lambda>r. truthy (ansible_playbook r)) rs))
     \<and> (\<forall>res w'. try_except self j rsrc ci dir w = (Inr res, w') \<longrightarrow>
           (\<exists>all_results ts summary.
              map vm_of all_results = concat (groups_formed (batch_size (settings self)) rsrc)
              \<and> (0 < batch_size (settings self) \<longrightarrow> map vm_of all_results = rsrc)
              \<and> length ts = length all_results
              \<and> saved_results (drop (length (trace w)) (trace w')) = all_results
              \<and> vm_analysis (db w')
                  = vm_analysis (db w) @ map2 (analysis_row (platform self) j) all_results ts
              \<and> run_ops (save_individual_outputs_calls self j all_results dir
                         @ [WriteText (dir @ [''infrastructure_summary.md'']) summary]
                         @ generate_consolidated_outputs_calls self j all_results dir) (fs w)
                  = Inr (fs w')))"
proof -
  have 1: "fst (process_batch self vms ci w) = Inr (batch_outcomes self ci (trace w) vms)"
    by (simp add: process_batch_eq)
  have 2: "map vm_of (batch_outcomes self ci (trace w) vms) = vms" by simp
  have 3: "foldl keep_result [] outs
         = List.map_filter (\<lambda>r. case r of Inl e \<Rightarrow> None | Inr x \<Rightarrow> Some x) outs"
    using keep_result_filter [of "[]" outs] by simp
  have 4: "main_tf_content rs = main_tf_preamble
         @ concat (map terraform_section (filter (\<lambda>r. truthy (terraform_template r)) rs))"
    by (simp add: main_tf_content_def main_tf_steps)
  have 5: "site_yml_content rs = site_yml_preamble
         @ concat (map site_yml_section (filter (\<lambda>r. truthy (ansible_playbook r)) rs))"
    by (simp add: site_yml_content_def site_yml_steps)
  have 6: "\<exists>all_results ts summary.
              map vm_of all_results = concat (groups_formed (batch_size (settings self)) rsrc)
              \<and> (0 < batch_size (settings self) \<longrightarrow> map vm_of all_results = rsrc)
              \<and> length ts = length all_results
              \<and> saved_results (drop (length (trace w)) (trace w')) = all_results
              \<and> vm_analysis (db w')
                  = vm_analysis (db w) @ map2 (analysis_row (platform self) j) all_results ts
              \<and> run_ops (save_individual_outputs_calls self j all_results dir
                         @ [WriteText (dir @ [''infrastructure_summary.md'']) summary]
                         @ generate_consolidated_outputs_calls self j all_results dir) (fs w)
                  = Inr (fs w')"
    if "try_except self j rsrc ci dir w = (Inr res, w')" for res w'
    using try_except_results [OF that] groups_formed_concat [of "batch_size (settings self)" rsrc]
    by (elim exE conjE) (intro exI conjI impI, simp_all)
  from 1 2 3 4 5 6 show ?thesis by blast
qed

theorem results_keep_inventory_order_witness:
  "0 < batch_size (settings ex_processor)
   \<and> try_except ex_processor 1 [ex_vm, ex_lxc] ex_cluster [''output'', ''job_1''] ex_job_world
       = (Inr (Some 1),
          snd (try_except ex_processor 1 [ex_vm, ex_lxc] ex_cluster [''output'', ''job_1'']
                 ex_job_world))
   \<and> (\<exists>all_results.
         map vm_of all_results = [ex_vm, ex_lxc]
         \<and> saved_results (drop (length (trace ex_job_world))
              (trace (snd (try_except ex_processor 1 [ex_vm, ex_lxc] ex_cluster
                             [''output'', ''job_1''] ex_job_world)))) = all_results)"
proof -
  have b: "0 < batch_size (settings ex_processor)"
    by (simp add: ex_processor_def ex_settings_def)
  note t = results_keep_inventory_order [where self = ex_processor and j = 1
      and rsrc = "[ex_vm, ex_lxc]" and ci = ex_cluster and dir = "[''output'', ''job_1'']"
      and w = ex_job_world and vms = "[]" and outs = "[]" and rs = "[]"]
  note u = t [THEN conjunct2, THEN conjunct2, THEN conjunct2, THEN conjunct2, THEN conjunct2,
      rule_format, OF ex_try_except_pair]
  from u b have "\<exists>all_results.
         map vm_of all_results = [ex_vm, ex_lxc]
         \<and> saved_results (drop (length (trace ex_job_world))
              (trace (snd (try_except ex_processor 1 [ex_vm, ex_lxc] ex_cluster
                             [''output'', ''job_1''] ex_job_world)))) = all_results"
    by (elim exE conjE) (rule exI, rule conjI, erule (1) mp, assumption)
  with b ex_try_except_pair show ?thesis by simp
qed

text \<open>
  C9. When the run returns normally, with Terraform output enabled, the file
  \<^verbatim>\<open>terraform/main.tf\<close> of the job holds the fixed preamble followed by one section for
  every result with a non-empty Terraform template, in the order of the results, which for
  a positive batch size is the order of the inventory; a section is a comment line with
  the name and the id of the resource followed by the template. The results are those that
  the run has saved in the database.
\<close>

theorem consolidated_terraform_file_complete:
  assumes "enable_terraform (settings self)"
    and "try_except self j rsrc ci dir w = (Inr res, w')"
  shows "\<exists>all_results ts.
     map vm_of all_results = concat (groups_formed (batch_size (settings self)) rsrc)
     \<and> (0 < batch_size (settings self) \<longrightarrow> map vm_of all_results = rsrc)
     \<and> length ts = length all_results
     \<and> vm_analysis (db w')
         = vm_analysis (db w) @ map2 (analysis_row (platform self) j) all_results ts
     \<and> files (fs w') (dir @ [''terraform'', ''main.tf''])
         = Some (main_tf_preamble
                 @ concat (map (\<lambda>r. (''\<newline># '' @ vm_name r @ '' ('' @ vm_id r @ '')\<newline>'')
                                    @ (the (terraform_template r) @ ''\<newline>\<newline>''))
                             (filter (\<lambda>r. truthy (terraform_template r)) all_results)))"
proof -
  from try_except_results [OF assms(2)] obtain all_results ts summary where
    1: "map vm_of all_results = concat (groups_formed (batch_size (settings self)) rsrc)"
       "length ts = length all_results"
       "vm_analysis (db w')
         = vm_analysis (db w) @ map2 (analysis_row (platform self) j) all_results ts"
    and ro: "run_ops (save_individual_outputs_calls self j all_results dir
               @ [WriteText (dir @ [''infrastructure_summary.md'']) summary]
               @ generate_consolidated_outputs_calls self j all_results dir) (fs w) = Inr (fs w')"
    by blast
  have "files (fs w') (dir @ [''terraform'', ''main.tf'']) = Some (main_tf_content all_results)"
    using run_ops_last_write [OF ro, of "dir @ [''terraform'', ''main.tf'']"]
      last_write_main_tf [OF assms(1), of dir j all_results]
    by (simp add: last_write_append)
  then have "files (fs w') (dir @ [''terraform'', ''main.tf''])
         = Some (main_tf_preamble
                 @ concat (map (\<lambda>r. (''\<newline># '' @ vm_name r @ '' ('' @ vm_id r @ '')\<newline>'')
                                    @ (the (terraform_template r) @ ''\<newline>\<newline>''))
                             (filter (\<lambda>r. truthy (terraform_template r)) all_results)))"
    by (simp add: main_tf_content_def main_tf_steps terraform_section_def [abs_def])
  moreover have "0 < batch_size (settings self) \<longrightarrow> map vm_of all_results = rsrc"
    using 1(1) by (simp add: groups_formed_concat)
  ultimately show ?thesis using 1 by blast
qed

theorem consolidated_terraform_file_complete_witness:
  "enable_terraform (settings ex_processor) \<and> 0 < batch_size (settings ex_processor)
   \<and> fst (try_except ex_processor 1 [ex_vm, ex_lxc] ex_cluster [''output'', ''job_1'']
            ex_job_world) = Inr (Some 1)
   \<and> (\<exists>all_results.
         map vm_of all_results = [ex_vm, ex_lxc]
         \<and> files (fs (snd (try_except ex_processor 1 [ex_vm, ex_lxc] ex_cluster
                             [''output'', ''job_1''] ex_job_world)))
             ([''output'', ''job_1''] @ [''terraform'', ''main.tf''])
             = Some (main_tf_preamble
                 @ concat (map (\<lambda>r. (''\<newline># '' @ vm_name r @ '' ('' @ vm_id r @ '')\<newline>'')
                                    @ (the (terraform_template r) @ ''\<newline>\<newline>''))
                             (filter (\<lambda>r. truthy (terraform_template r)) all_results))))"
proof -
  have a: "enable_terraform (settings ex_processor)" and b: "0 < batch_size (settings ex_processor)"
    by (simp_all add: ex_processor_def ex_settings_def)
  from consolidated_terraform_file_complete [OF a ex_try_except_pair] b
  have "\<exists>all_results.
         map vm_of all_results = [ex_vm, ex_lxc]
         \<and> files (fs (snd (try_except ex_processor 1 [ex_vm, ex_lxc] ex_cluster
                             [''output'', ''job_1''] ex_job_world)))
             ([''output'', ''job_1''] @ [''terraform'', ''main.tf''])
             = Some (main_tf_preamble
                 @ concat (map (\<lambda>r. (''\<newline># '' @ vm_name r @ '' ('' @ vm_id r @ '')\<newline>'')
                                    @ (the (terraform_template r) @ ''\<newline>\<newline>''))
                             (filter (\<lambda>r. truthy (terraform_template r)) all_results)))"
    by (elim exE conjE) (rule exI, rule conjI, erule (1) mp, assumption)
  with a b ex_try_except_completes show ?thesis by simp
qed

text \<open>
  C2, as far as the program goes. \<^verbatim>\<open>process_single_vm\<close> never raises. When the call of
  \<^verbatim>\<open>analyze_complete\<close> raises, it returns the data of the resource with \<^verbatim>\<open>error\<close> set
  and the analysis \<^verbatim>\<open>Error: \<close> followed by the message; when the call returns, it
  returns the merged dictionary without the flag. With the analyzer of the repository a
  request that the text service refuses does not make \<^verbatim>\<open>analyze_complete\<close> raise:
  \<^verbatim>\<open>analyze_vm\<close> returns \<^verbatim>\<open>Error during analysis: \<close> followed by the message, and the
  result carries that text as its analysis and no error flag. In a group every resource
  gets the result of its own analysis, whatever happens to the others, and the loop over
  the groups ends with an exception only when the database refuses a call.
\<close>

theorem analysis_failure_is_contained:
  "(\<exists>r. fst (process_single_vm self vm ci w) = Inr r)
   \<and> (\<forall>e. analyze_complete (claude self) (trace w) vm ci
              (enable_security_review (settings self)) (enable_optimization (settings self))
              (enable_terraform (settings self)) (enable_ansible (settings self)) = Inl e \<longrightarrow>
          fst (process_single_vm self vm ci w) = Inr (error_result vm e)
          \<and> error (error_result vm e)
          \<and> analysis (error_result vm e) = Some (''Error: '' @ e)
          \<and> vm_of (error_result vm e) = vm)
   \<and> (\<forall>a. analyze_complete (claude self) (trace w) vm ci
              (enable_security_review (settings self)) (enable_optimization (settings self))
              (enable_terraform (settings self)) (enable_ansible (settings self)) = Inr a \<longrightarrow>
          fst (process_single_vm self vm ci w) = Inr (merge_results vm a)
          \<and> \<not> error (merge_results vm a) \<and> analysis (merge_results vm a) = res_analysis a)
   \<and> (\<forall>client e. claude self = ClaudeAnalyzer client \<longrightarrow>
          client (trace w) (AnalyzeVm vm ci) = Inl e \<longrightarrow>
          (\<exists>r. fst (process_single_vm self vm ci w) = Inr r \<and> \<not> error r
             \<and> analysis r = Some (''Error during analysis: '' @ e)))
   \<and> (\<exists>rs. fst (process_batch self vms ci w) = Inr rs \<and> length rs = length vms
         \<and> (\<forall>k < length vms.
               fst (process_single_vm self (vms ! k) ci
                      (w\<lparr>trace := trace w @ map AnalyzeComplete (take k vms)\<rparr>)) = Inr (rs ! k)))
   \<and> (no_sqlite_fault (platform self) \<longrightarrow>
         fst (fst (process_groups self j rsrc ci b indices acc c w)) = None)"
proof -
  have 1: "\<exists>r. fst (process_single_vm self vm ci w) = Inr r"
    by (simp add: process_single_vm_eq)
  have 2: "fst (process_single_vm self vm ci w) = Inr (error_result vm e)
          \<and> error (error_result vm e)
          \<and> analysis (error_result vm e) = Some (''Error: '' @ e)
          \<and> vm_of (error_result vm e) = vm"
    if "analyze_complete (claude self) (trace w) vm ci
              (enable_security_review (settings self)) (enable_optimization (settings self))
              (enable_terraform (settings self)) (enable_ansible (settings self)) = Inl e" for e
    using that by (simp add: process_single_vm_def error_result_def vm_data.defs result.defs
        vm_of_def)
  have 3: "fst (process_single_vm self vm ci w) = Inr (merge_results vm a)
          \<and> \<not> error (merge_results vm a) \<and> analysis (merge_results vm a) = res_analysis a"
    if "analyze_complete (claude self) (trace w) vm ci
              (enable_security_review (settings self)) (enable_optimization (settings self))
              (enable_terraform (settings self)) (enable_ansible (settings self)) = Inr a" for a
    using that by (simp add: process_single_vm_def merge_results_def vm_data.defs result.defs)
  have 4: "\<exists>r. fst (process_single_vm self vm ci w) = Inr r \<and> \<not> error r
             \<and> analysis r = Some (''Error during analysis: '' @ e)"
    if "claude self = ClaudeAnalyzer client" and "client (trace w) (AnalyzeVm vm ci) = Inl e"
    for client e
    using that by (simp add: process_single_vm_def ClaudeAnalyzer_def
        ClaudeAnalyzer_analyze_complete_def analyze_vm_def merge_results_def vm_data.defs
        result.defs)
  have 5: "\<exists>rs. fst (process_batch self vms ci w) = Inr rs \<and> length rs = length vms
         \<and> (\<forall>k < length vms.
               fst (process_single_vm self (vms ! k) ci
                      (w\<lparr>trace := trace w @ map AnalyzeComplete (take k vms)\<rparr>)) = Inr (rs ! k))"
    by (simp add: process_batch_eq process_single_vm_eq batch_outcomes_nth)
  have 6: "fst (fst (process_groups self j rsrc ci b indices acc c w)) = None"
    if "no_sqlite_fault (platform self)"
    using that by (rule process_groups_no_fault)
  from 1 2 3 4 5 6 show ?thesis by blast
qed

theorem analysis_failure_is_contained_witness:
  "analyze_complete (claude stub_processor) (trace ex_world) ex_vm ex_cluster
     (enable_security_review (settings stub_processor)) (enable_optimization (settings stub_processor))
     (enable_terraform (settings stub_processor)) (enable_ansible (settings stub_processor))
     = Inl ''boom''
   \<and> fst (process_single_vm stub_processor ex_vm ex_cluster ex_world)
       = Inr (error_result ex_vm ''boom'')
   \<and> error (error_result ex_vm ''boom'')
   \<and> analysis (error_result ex_vm ''boom'') = Some ''Error: boom''
   \<and> no_sqlite_fault (platform stub_processor)
   \<and> fst (run_full_analysis stub_processor ex_world) = Inr (Some 1)
   \<and> map_option status (batch_jobs (db (snd (run_full_analysis stub_processor ex_world))) 1)
       = Some Completed
   \<and> map col_analysis (vm_analysis (db (snd (run_full_analysis stub_processor ex_world))))
       = [Some ''Error: boom'', Some ''fine'']"
proof -
  have a: "analyze_complete (claude stub_processor) (trace ex_world) ex_vm ex_cluster
     (enable_security_review (settings stub_processor)) (enable_optimization (settings stub_processor))
     (enable_terraform (settings stub_processor)) (enable_ansible (settings stub_processor))
     = Inl ''boom''"
    by (simp add: stub_processor_def raising_analyzer_def ex_vm_def)
  have q: "no_sqlite_fault (platform stub_processor)"
    by (simp add: no_sqlite_fault_def stub_processor_def ex_processor_def ex_platform_def)
  note t = analysis_failure_is_contained
    [where self = stub_processor and vm = ex_vm and ci = ex_cluster and w = ex_world
       and vms = "[ex_vm, ex_lxc]" and j = 1 and rsrc = "[ex_vm, ex_lxc]" and b = 5
       and indices = "[0]" and acc = "[]" and c = 0]
  from t a have "fst (process_single_vm stub_processor ex_vm ex_cluster ex_world)
       = Inr (error_result ex_vm ''boom'')
   \<and> error (error_result ex_vm ''boom'')
   \<and> analysis (error_result ex_vm ''boom'') = Some (''Error: '' @ ''boom'')"
    by blast
  with a q stub_run_completes show ?thesis by simp
qed

text \<open>
  The claim as it is worded fails with the analyzer of the repository: the text service
  refuses the analysis of a guest, and the result is not flagged as an error.
\<close>

theorem provider_failure_unflagged_counterexample:
  "failing_client (trace ex_world) (AnalyzeVm ex_vm ex_cluster) = Inl ''overloaded''
   \<and> map_sum id error (fst (process_single_vm failing_processor ex_vm ex_cluster ex_world))
       = Inr False
   \<and> map_sum id analysis (fst (process_single_vm failing_processor ex_vm ex_cluster ex_world))
       = Inr (Some ''Error during analysis: overloaded'')"
  by (simp add: failing_client_def failing_processor_def process_single_vm_def client_defs
      ex_env_defs merge_results_def vm_data.defs result.defs)

text \<open>
  C4, as far as the program goes. \<^verbatim>\<open>ProxmoxClient.get_cluster_info\<close> never raises: when
  the request for the cluster status or for the cluster resources fails, it returns the
  empty dictionary, and \<^verbatim>\<open>run_full_analysis\<close> goes on to fetch the inventory. With that
  client, a server that does not answer the request for its nodes gives an empty inventory,
  and the run returns \<^verbatim>\<open>None\<close> after the two calls of the client. Only an exception that
  leaves the \<^verbatim>\<open>get_cluster_info\<close> of the client in use makes \<^verbatim>\<open>run_full_analysis\<close>
  raise at this point; it then raises that exception after this one call, before any job
  is created.
\<close>

theorem cluster_fetch_failure:
  "(\<forall>e. cluster_status_get api h = Inl e \<or> cluster_resources_get api h = Inl e \<longrightarrow>
        ProxmoxClient_get_cluster_info api h = Inr None)
   \<and> (\<exists>ci. get_cluster_info (ProxmoxClient api) h = Inr ci)
   \<and> (\<forall>api e. proxmox self = ProxmoxClient api \<longrightarrow>
          nodes_get api (trace w @ [GetClusterInfo]) = Inl e \<longrightarrow>
          run_full_analysis self w
            = (Inr None, w\<lparr>trace := trace w @ [GetClusterInfo, GetAllResources]\<rparr>))
   \<and> (\<forall>e. get_cluster_info (proxmox self) (trace w) = Inl e \<longrightarrow>
          run_full_analysis self w = (Inl e, w\<lparr>trace := trace w @ [GetClusterInfo]\<rparr>))"
proof -
  have 1: "\<forall>e. cluster_status_get api h = Inl e \<or> cluster_resources_get api h = Inl e \<longrightarrow>
        ProxmoxClient_get_cluster_info api h = Inr None"
    by (auto simp: ProxmoxClient_get_cluster_info_def split: sum.splits)
  have 2: "\<exists>ci. get_cluster_info (ProxmoxClient api) h = Inr ci"
    by (auto simp: ProxmoxClient_get_cluster_info_def ProxmoxClient_def split: sum.splits)
  have 3: "run_full_analysis self w
            = (Inr None, w\<lparr>trace := trace w @ [GetClusterInfo, GetAllResources]\<rparr>)"
    if "proxmox self = ProxmoxClient api" and "nodes_get api (trace w @ [GetClusterInfo]) = Inl e"
    for api e
  proof -
    have "\<exists>ci. ProxmoxClient_get_cluster_info api (trace w) = Inr ci"
      by (simp add: ProxmoxClient_get_cluster_info_def split: sum.splits)
    with that(1) obtain ci where
      c: "get_cluster_info (proxmox self) (trace w) = Inr ci"
      by (auto simp: ProxmoxClient_def)
    from that have "get_all_resources (proxmox self) (trace w @ [GetClusterInfo]) = Inr []"
      by (simp add: ProxmoxClient_def ProxmoxClient_get_all_resources_def get_all_vms_def
          get_all_lxcs_def get_all_nodes_def)
    with c show ?thesis by (simp add: run_full_analysis_def Let_def)
  qed
  have 4: "\<forall>e. get_cluster_info (proxmox self) (trace w) = Inl e \<longrightarrow>
          run_full_analysis self w = (Inl e, w\<lparr>trace := trace w @ [GetClusterInfo]\<rparr>)"
    by (simp add: run_full_analysis_def Let_def)
  from 1 2 3 4 show ?thesis by blast
qed

theorem cluster_fetch_failure_witness:
  "cluster_status_get partial_api [] = Inl ''permission denied''
   \<and> ProxmoxClient_get_cluster_info partial_api [] = Inr None
   \<and> proxmox offline_processor = ProxmoxClient unreachable_api
   \<and> nodes_get unreachable_api (trace ex_world @ [GetClusterInfo]) = Inl ''connection refused''
   \<and> run_full_analysis offline_processor ex_world
       = (Inr None, ex_world\<lparr>trace := trace ex_world @ [GetClusterInfo, GetAllResources]\<rparr>)
   \<and> get_cluster_info (proxmox cut_off_processor) (trace ex_world) = Inl ''unreachable''
   \<and> run_full_analysis cut_off_processor ex_world
       = (Inl ''unreachable'', ex_world\<lparr>trace := trace ex_world @ [GetClusterInfo]\<rparr>)"
proof -
  have a: "cluster_status_get partial_api [] = Inl ''permission denied''"
    by (simp add: partial_api_def)
  have b: "get_cluster_info (proxmox cut_off_processor) (trace ex_world) = Inl ''unreachable''"
    by (simp add: cut_off_processor_def raising_proxmox_def)
  have c: "proxmox offline_processor = ProxmoxClient unreachable_api"
    by (simp add: offline_processor_def)
  have d: "nodes_get unreachable_api (trace ex_world @ [GetClusterInfo]) = Inl ''connection refused''"
    by (simp add: unreachable_api_def)
  note t = cluster_fetch_failure [where api = partial_api and h = "[]"
      and self = cut_off_processor and w = ex_world]
  note u = cluster_fetch_failure [where api = partial_api and h = "[]"
      and self = offline_processor and w = ex_world]
  from t a have "ProxmoxClient_get_cluster_info partial_api [] = Inr None" by blast
  moreover from t b have "run_full_analysis cut_off_processor ex_world
       = (Inl ''unreachable'', ex_world\<lparr>trace := trace ex_world @ [GetClusterInfo]\<rparr>)" by blast
  moreover from u c d have "run_full_analysis offline_processor ex_world
       = (Inr None, ex_world\<lparr>trace := trace ex_world @ [GetClusterInfo, GetAllResources]\<rparr>)"
    by blast
  ultimately show ?thesis using a b c d by blast
qed

text \<open>
  The claim as it is worded fails with the client of the repository. Where no request is
  answered, the run raises nothing and returns \<^verbatim>\<open>None\<close>. Where the status request is
  refused and the listings work, the run raises nothing, creates a job and completes it.
\<close>

theorem cluster_failure_job_created_counterexample:
  "cluster_status_get unreachable_api (trace ex_world) = Inl ''connection refused''
   \<and> fst (run_full_analysis offline_processor ex_world) = Inr None
   \<and> cluster_status_get partial_api (trace ex_world) = Inl ''permission denied''
   \<and> fst (run_full_analysis partial_processor ex_world) = Inr (Some 1)
   \<and> map_option status (batch_jobs (db (snd (run_full_analysis partial_processor ex_world))) 1)
       = Some Completed"
  by (simp add: run_defs client_defs ex_env_defs partial_processor_def partial_api_def
      offline_processor_def unreachable_api_def)

section \<open>The claim about the consolidated files\<close>

text \<open>
  C6, as far as the program goes. Consolidated files exist for the two infrastructure
  categories only. With Terraform enabled, \<^verbatim>\<open>main.tf\<close> is the preamble followed by one
  section per result with a non-empty template: a comment line naming the resource, then
  the template. With Ansible enabled, \<^verbatim>\<open>site.yml\<close> is the preamble followed by one
  section per result with a non-empty playbook: a comment line naming the resource, then a
  fixed comment; the text of the playbook is not part of it (the playbooks are written one
  by one under \<^verbatim>\<open>playbooks\<close>). The other files written are \<^verbatim>\<open>variables.tf\<close> and the two
  \<^verbatim>\<open>README.md\<close>, whose texts are constants of the program.
\<close>

theorem consolidated_files_content:
  "main_tf_content rs = main_tf_preamble
     @ concat (map terraform_section (filter (\<lambda>r. truthy (terraform_template r)) rs))
   \<and> site_yml_content rs = site_yml_preamble
     @ concat (map site_yml_section (filter (\<lambda>r. truthy (ansible_playbook r)) rs))
   \<and> terraform_section r
       = (''\<newline># '' @ vm_name r @ '' ('' @ vm_id r @ '')\<newline>'')
         @ (the (terraform_template r) @ ''\<newline>\<newline>'')
   \<and> site_yml_section (r\<lparr>ansible_playbook := t\<rparr>)
       = (''    # '' @ vm_name r @ '' ('' @ vm_id r @ '')\<newline>'')
         @ ''    # See individual playbooks for details\<newline>\<newline>''
   \<and> written (generate_consolidated_outputs_calls self j rs dir)
       = (if enable_terraform (settings self)
          then [dir @ [''terraform'', ''main.tf''], dir @ [''terraform'', ''variables.tf''],
                dir @ [''terraform'', ''README.md'']]
          else [])
         @ (if enable_ansible (settings self)
            then [dir @ [''ansible'', ''site.yml'']]
                 @ map (\<lambda>r. dir @ [''ansible'', ''playbooks'',
                                     sanitize (vm_name r) @ ''_'' @ vm_id r @ ''.yml''])
                     (filter (\<lambda>r. truthy (ansible_playbook r)) rs)
                 @ [dir @ [''ansible'', ''README.md'']]
            else [])
   \<and> (enable_terraform (settings self) \<longrightarrow>
         WriteText (dir @ [''terraform'', ''main.tf'']) (main_tf_content rs)
           \<in> set (generate_consolidated_outputs_calls self j rs dir)
         \<and> WriteText (dir @ [''terraform'', ''variables.tf'']) variables_tf
           \<in> set (generate_consolidated_outputs_calls self j rs dir)
         \<and> WriteText (dir @ [''terraform'', ''README.md'']) terraform_readme
           \<in> set (generate_consolidated_outputs_calls self j rs dir))
   \<and> (enable_ansible (settings self) \<longrightarrow>
         WriteText (dir @ [''ansible'', ''site.yml'']) (site_yml_content rs)
           \<in> set (generate_consolidated_outputs_calls self j rs dir)
         \<and> WriteText (dir @ [''ansible'', ''README.md'']) ansible_readme
           \<in> set (generate_consolidated_outputs_calls self j rs dir))"
proof -
  have 1: "main_tf_content rs = main_tf_preamble
     @ concat (map terraform_section (filter (\<lambda>r. truthy (terraform_template r)) rs))"
    by (simp add: main_tf_content_def main_tf_steps)
  have 2: "site_yml_content rs = site_yml_preamble
     @ concat (map site_yml_section (filter (\<lambda>r. truthy (ansible_playbook r)) rs))"
    by (simp add: site_yml_content_def site_yml_steps)
  have 3: "terraform_section r
       = (''\<newline># '' @ vm_name r @ '' ('' @ vm_id r @ '')\<newline>'')
         @ (the (terraform_template r) @ ''\<newline>\<newline>'')"
    by (simp add: terraform_section_def)
  have 4: "site_yml_section (r\<lparr>ansible_playbook := t\<rparr>)
       = (''    # '' @ vm_name r @ '' ('' @ vm_id r @ '')\<newline>'')
         @ ''    # See individual playbooks for details\<newline>\<newline>''"
    by (simp add: site_yml_section_def)
  have 5: "written (generate_consolidated_outputs_calls self j rs dir)
       = (if enable_terraform (settings self)
          then [dir @ [''terraform'', ''main.tf''], dir @ [''terraform'', ''variables.tf''],
                dir @ [''terraform'', ''README.md'']]
          else [])
         @ (if enable_ansible (settings self)
            then [dir @ [''ansible'', ''site.yml'']]
                 @ map (\<lambda>r. dir @ [''ansible'', ''playbooks'',
                                     sanitize (vm_name r) @ ''_'' @ vm_id r @ ''.yml''])
                     (filter (\<lambda>r. truthy (ansible_playbook r)) rs)
                 @ [dir @ [''ansible'', ''README.md'']]
            else [])"
    by (simp add: generate_consolidated_outputs_calls_def terraform_calls_def ansible_calls_def
        Let_def written_playbook_calls)
  have 6: "enable_terraform (settings self) \<Longrightarrow>
         WriteText (dir @ [''terraform'', ''main.tf'']) (main_tf_content rs)
           \<in> set (generate_consolidated_outputs_calls self j rs dir)
         \<and> WriteText (dir @ [''terraform'', ''variables.tf'']) variables_tf
           \<in> set (generate_consolidated_outputs_calls self j rs dir)
         \<and> WriteText (dir @ [''terraform'', ''README.md'']) terraform_readme
           \<in> set (generate_consolidated_outputs_calls self j rs dir)"
    by (simp add: generate_consolidated_outputs_calls_def terraform_calls_def Let_def)
  have 7: "enable_ansible (settings self) \<Longrightarrow>
         WriteText (dir @ [''ansible'', ''site.yml'']) (site_yml_content rs)
           \<in> set (generate_consolidated_outputs_calls self j rs dir)
         \<and> WriteText (dir @ [''ansible'', ''README.md'']) ansible_readme
           \<in> set (generate_consolidated_outputs_calls self j rs dir)"
    by (simp add: generate_consolidated_outputs_calls_def ansible_calls_def Let_def)
  from 1 2 3 4 5 6 7 show ?thesis by blast
qed

theorem consolidated_files_content_witness:
  "enable_terraform (settings ex_processor) \<and> enable_ansible (settings ex_processor)
   \<and> WriteText ([''output'', ''job_1''] @ [''terraform'', ''variables.tf'']) variables_tf
       \<in> set (generate_consolidated_outputs_calls ex_processor 1 [ex_result] [''output'', ''job_1''])
   \<and> WriteText ([''output'', ''job_1''] @ [''ansible'', ''README.md'']) ansible_readme
       \<in> set (generate_consolidated_outputs_calls ex_processor 1 [ex_result] [''output'', ''job_1''])
   \<and> site_yml_content [ex_result] = site_yml_preamble
       @ concat (map site_yml_section (filter (\<lambda>r. truthy (ansible_playbook r)) [ex_result]))"
proof -
  have a: "enable_terraform (settings ex_processor)" and b: "enable_ansible (settings ex_processor)"
    by (simp_all add: ex_processor_def ex_settings_def)
  note t = consolidated_files_content [where self = ex_processor and rs = "[ex_result]"
      and j = 1 and dir = "[''output'', ''job_1'']" and r = ex_result and t = None]
  from t a b show ?thesis by blast
qed

text \<open>
  The claim as it is worded fails for Ansible: the playbook of a resource does not occur in
  \<^verbatim>\<open>site.yml\<close>.
\<close>

theorem site_yml_lacks_playbook_counterexample:
  "truthy (ansible_playbook ex_result)
   \<and> \<not> sublist (the (ansible_playbook ex_result)) (site_yml_content [ex_result])"
  by code_simp

end
